(* ===== verification/Prelude.thy ===== *)
theory Prelude
  imports Main "HOL-Library.Word"
begin

text \<open>
  What the components of the model share: the machine integers of the source, the effects of a
  dispatchable (storage, errors, panics, non-termination) as one state monad, the collections of
  rules that invert a successful run of such an action, and the three interfaces (identifier
  allocators, atomic calls, invariants of a step relation) the component theories interpret.
\<close>

section \<open>Machine integers\<close>

type_synonym u8 = "8 word"
type_synonym u32 = "32 word"
type_synonym u128 = "128 word"

text \<open>
  \<open>checked_add\<close> is \<^verbatim>\<open>None\<close> exactly on overflow, as the Rust method; \<open>saturating_dec\<close> stops at
  zero.
\<close>

definition checked_add :: "'w::len word \<Rightarrow> 'w word \<Rightarrow> 'w word option" where
  "checked_add a b = (if unat a + unat b < 2 ^ LENGTH('w) then Some (a + b) else None)"

definition saturating_dec :: "'w::len word \<Rightarrow> 'w word" where
  "saturating_dec a = (if a = 0 then 0 else a - 1)"

lemma unat_Suc_less_iff: "unat (a::u32) + unat (1::u32) < 2 ^ LENGTH(32) \<longleftrightarrow> a \<noteq> - 1"
proof -
  have "a = - 1 \<longleftrightarrow> unat a = 2 ^ 32 - 1"
    by (simp add: word_unat_eq_iff unsigned_minus_1_eq_mask mask_eq_exp_minus_1)
  moreover have "unat a < 2 ^ 32"
    using unsigned_less[of a] by simp
  ultimately show ?thesis by auto
qed

lemma checked_add_1_None [simp]: "checked_add a (1::u32) = None \<longleftrightarrow> a = - 1"
  unfolding checked_add_def using unat_Suc_less_iff[of a] by auto

lemma checked_add_1_Some [simp]: "checked_add a (1::u32) = Some b \<longleftrightarrow> a \<noteq> - 1 \<and> b = a + 1"
  unfolding checked_add_def using unat_Suc_less_iff[of a] by auto

lemma unat_plus_one_u32: "a \<noteq> - 1 \<Longrightarrow> unat (a + 1 :: u32) = unat a + 1"
  using unat_Suc_less_iff[of a] by (simp add: unat_word_ariths)

lemma less_plus_one_u32: "a \<noteq> - 1 \<Longrightarrow> (a::u32) < a + 1"
  using unat_plus_one_u32[of a] by (simp add: word_less_nat_alt)

lemma plus_one_le_u32: "(a::u32) < b \<Longrightarrow> a + 1 \<le> b"
  by (metis inc_le)

lemma unat_saturating_dec: "unat (saturating_dec a) = unat a - 1"
proof (cases "a = 0")
  case False
  then have "unat (a - 1) = unat a - 1"
    by (simp add: unat_minus_one)
  with False show ?thesis by (simp add: saturating_dec_def)
qed (simp add: saturating_dec_def)

lemma saturating_dec_le: "saturating_dec a \<le> a"
  by (simp add: word_le_nat_alt unat_saturating_dec)

section \<open>Actions: storage, errors and non-termination\<close>

text \<open>
  An action runs on a storage. \<open>None\<close> is "does not return"; otherwise it gives an error or a
  result, and in both cases the storage it leaves: a write made before an error stays unless the
  caller rolls it back, which is what \<open>transactionalM\<close> (the \<^verbatim>\<open>#[transactional]\<close>
  attribute) does.
\<close>

type_synonym ('s, 'e, 'r) action = "'s \<Rightarrow> (('e + 'r) \<times> 's) option"

definition returnM :: "'r \<Rightarrow> ('s, 'e, 'r) action" where
  "returnM r = (\<lambda>s. Some (Inr r, s))"

definition failM :: "'e \<Rightarrow> ('s, 'e, 'r) action" where
  "failM e = (\<lambda>s. Some (Inl e, s))"

definition bindM :: "('s, 'e, 'q) action \<Rightarrow> ('q \<Rightarrow> ('s, 'e, 'r) action) \<Rightarrow> ('s, 'e, 'r) action" where
  "bindM m f = (\<lambda>s. case m s of
       None \<Rightarrow> None
     | Some (Inl e, s') \<Rightarrow> Some (Inl e, s')
     | Some (Inr q, s') \<Rightarrow> f q s')"

definition seqM :: "('s, 'e, 'q) action \<Rightarrow> ('s, 'e, 'r) action \<Rightarrow> ('s, 'e, 'r) action" where
  "seqM m n = bindM m (\<lambda>_. n)"

definition getsM :: "('s \<Rightarrow> 'r) \<Rightarrow> ('s, 'e, 'r) action" where
  "getsM f = (\<lambda>s. Some (Inr (f s), s))"

definition modifyM :: "('s \<Rightarrow> 's) \<Rightarrow> ('s, 'e, unit) action" where
  "modifyM f = (\<lambda>s. Some (Inr (), f s))"

text \<open>\<^verbatim>\<open>ensure!(b, e)\<close> and \<^verbatim>\<open>x.ok_or(e)?\<close>.\<close>

definition ensureM :: "bool \<Rightarrow> 'e \<Rightarrow> ('s, 'e, unit) action" where
  "ensureM b e = (if b then returnM () else failM e)"

definition ok_orM :: "'r option \<Rightarrow> 'e \<Rightarrow> ('s, 'e, 'r) action" where
  "ok_orM x e = (case x of None \<Rightarrow> failM e | Some r \<Rightarrow> returnM r)"

definition transactionalM :: "('s, 'e, 'r) action \<Rightarrow> ('s, 'e, 'r) action" where
  "transactionalM m = (\<lambda>s. case m s of
       None \<Rightarrow> None
     | Some (Inl e, _) \<Rightarrow> Some (Inl e, s)
     | Some (Inr r, s') \<Rightarrow> Some (Inr r, s'))"

text \<open>A \<^verbatim>\<open>for\<close> loop whose body may leave with an error.\<close>

primrec forM :: "'a list \<Rightarrow> ('a \<Rightarrow> ('s, 'e, unit) action) \<Rightarrow> ('s, 'e, unit) action" where
  "forM [] f = returnM ()"
| "forM (x # xs) f = seqM (f x) (forM xs f)"

subsection \<open>Running an action forward\<close>

named_theorems run_simps \<open>equations that evaluate an action on a storage\<close>

lemma run_return [run_simps]: "returnM r s = Some (Inr r, s)"
  by (simp add: returnM_def)

lemma run_fail [run_simps]: "failM e s = Some (Inl e, s)"
  by (simp add: failM_def)

lemma run_gets [run_simps]: "getsM f s = Some (Inr (f s), s)"
  by (simp add: getsM_def)

lemma run_modify [run_simps]: "modifyM f s = Some (Inr (), f s)"
  by (simp add: modifyM_def)

lemma run_bind [run_simps]:
  "bindM m f s = (case m s of None \<Rightarrow> None
     | Some (Inl e, s') \<Rightarrow> Some (Inl e, s')
     | Some (Inr q, s') \<Rightarrow> f q s')"
  by (simp add: bindM_def)

lemma run_seq [run_simps]:
  "seqM m n s = (case m s of None \<Rightarrow> None
     | Some (Inl e, s') \<Rightarrow> Some (Inl e, s')
     | Some (Inr q, s') \<Rightarrow> n s')"
  by (simp add: seqM_def bindM_def)

lemma run_ensure [run_simps]:
  "ensureM b e s = (if b then Some (Inr (), s) else Some (Inl e, s))"
  by (simp add: ensureM_def returnM_def failM_def)

lemma run_ok_or [run_simps]:
  "ok_orM x e s = (case x of None \<Rightarrow> Some (Inl e, s) | Some r \<Rightarrow> Some (Inr r, s))"
  by (simp add: ok_orM_def returnM_def failM_def split: option.split)

lemma run_transactional [run_simps]:
  "transactionalM m s = (case m s of None \<Rightarrow> None
     | Some (Inl e, _) \<Rightarrow> Some (Inl e, s)
     | Some (Inr r, s') \<Rightarrow> Some (Inr r, s'))"
  by (simp add: transactionalM_def)

subsection \<open>Inverting a successful run\<close>

text \<open>
  A run that returned went through every guard: these equivalences turn the equation
  \<open>m s = Some (Inr r, s')\<close> into the conditions the code checked and the storages in between.
\<close>

named_theorems success \<open>what a successful run of an action says\<close>

lemma success_return [success]: "returnM r s = Some (Inr q, s') \<longleftrightarrow> q = r \<and> s' = s"
  by (auto simp: run_simps)

lemma success_fail [success]: "failM e s = Some (Inr q, s') \<longleftrightarrow> False"
  by (simp add: run_simps)

lemma success_gets [success]: "getsM f s = Some (Inr q, s') \<longleftrightarrow> q = f s \<and> s' = s"
  by (auto simp: run_simps)

lemma success_modify [success]: "modifyM f s = Some (Inr q, s') \<longleftrightarrow> s' = f s"
  by (auto simp: run_simps)

lemma success_bind [success]:
  "bindM m f s = Some (Inr r, s') \<longleftrightarrow> (\<exists>q t. m s = Some (Inr q, t) \<and> f q t = Some (Inr r, s'))"
  by (auto simp: run_simps split: option.splits sum.splits)

lemma success_seq [success]:
  "seqM m n s = Some (Inr r, s') \<longleftrightarrow> (\<exists>q t. m s = Some (Inr q, t) \<and> n t = Some (Inr r, s'))"
  by (auto simp: run_simps split: option.splits sum.splits)

lemma success_ensure [success]: "ensureM b e s = Some (Inr q, s') \<longleftrightarrow> b \<and> s' = s"
  by (auto simp: run_simps)

lemma success_ok_or [success]: "ok_orM x e s = Some (Inr q, s') \<longleftrightarrow> x = Some q \<and> s' = s"
  by (auto simp: run_simps split: option.splits)

lemma success_transactional [success]:
  "transactionalM m s = Some (Inr r, s') \<longleftrightarrow> m s = Some (Inr r, s')"
  by (auto simp: run_simps split: option.splits sum.splits)

lemma transactional_error:
  "transactionalM m s = Some (Inl e, s') \<longleftrightarrow> s' = s \<and> (\<exists>t. m s = Some (Inl e, t))"
  by (auto simp: run_simps split: option.splits sum.splits)

subsection \<open>What an action keeps\<close>

text \<open>
  \<open>keeps I m\<close>: where \<open>m\<close> succeeds, it ends in a storage where \<open>I\<close> holds if \<open>I\<close> held before. (A
  call that fails leaves the storage alone; see \<open>atomic_calls\<close> below.) The rules follow the
  structure of the action, so that a property of a handler is one \<open>intro\<close> over the properties of
  its parts.
\<close>

definition keeps :: "('s \<Rightarrow> bool) \<Rightarrow> ('s, 'e, 'r) action \<Rightarrow> bool" where
  "keeps I m \<longleftrightarrow> (\<forall>s r s'. m s = Some (Inr r, s') \<longrightarrow> I s \<longrightarrow> I s')"

named_theorems keeps_intros \<open>structural rules for keeps\<close>

lemma keepsD: "keeps I m \<Longrightarrow> m s = Some (Inr r, s') \<Longrightarrow> I s \<Longrightarrow> I s'"
  by (auto simp: keeps_def)

lemma keepsI: "(\<And>s r s'. m s = Some (Inr r, s') \<Longrightarrow> I s \<Longrightarrow> I s') \<Longrightarrow> keeps I m"
  by (auto simp: keeps_def)

lemma keeps_basic [keeps_intros]:
  "keeps I (returnM r)" "keeps I (failM e)" "keeps I (getsM f)" "keeps I (ensureM b e)"
  "keeps I (ok_orM x e)"
  by (auto simp: keeps_def success)

lemma keeps_modify [keeps_intros]: "(\<And>s. I s \<Longrightarrow> I (f s)) \<Longrightarrow> keeps I (modifyM f)"
  by (auto simp: keeps_def success)

lemma keeps_bind [keeps_intros]: "keeps I m \<Longrightarrow> (\<And>q. keeps I (f q)) \<Longrightarrow> keeps I (bindM m f)"
  unfolding keeps_def success by blast

lemma keeps_seq [keeps_intros]: "keeps I m \<Longrightarrow> keeps I n \<Longrightarrow> keeps I (seqM m n)"
  unfolding keeps_def success by blast

lemma keeps_transactional [keeps_intros]: "keeps I m \<Longrightarrow> keeps I (transactionalM m)"
  unfolding keeps_def success by blast

lemma keeps_for [keeps_intros]:
  "(\<And>x. x \<in> set xs \<Longrightarrow> keeps I (f x)) \<Longrightarrow> keeps I (forM xs f)"
  by (induction xs) (auto intro: keeps_intros)

lemma keeps_if [keeps_intros]: "keeps I m \<Longrightarrow> keeps I n \<Longrightarrow> keeps I (if b then m else n)"
  by simp

lemma keeps_case_option [keeps_intros]:
  "keeps I m \<Longrightarrow> (\<And>x. keeps I (f x)) \<Longrightarrow> keeps I (case x of None \<Rightarrow> m | Some y \<Rightarrow> f y)"
  by (simp split: option.split)

lemma keeps_case_prod [keeps_intros]:
  "(\<And>x y. keeps I (f x y)) \<Longrightarrow> keeps I (case p of (x, y) \<Rightarrow> f x y)"
  by (simp split: prod.split)

lemma keeps_Let [keeps_intros]: "(\<And>x. keeps I (f x)) \<Longrightarrow> keeps I (Let a f)"
  by simp

subsection \<open>What an action leaves alone when it fails\<close>

text \<open>
  \<open>clean m\<close>: an error leaves the storage as it was. A handler that is not transactional is clean
  when it makes its writes after its last check: \<open>reads\<close> (never writes) parts in front, \<open>surely\<close>
  (never fails) parts behind.
\<close>

definition clean :: "('s, 'e, 'r) action \<Rightarrow> bool" where
  "clean m \<longleftrightarrow> (\<forall>s e s'. m s = Some (Inl e, s') \<longrightarrow> s' = s)"

definition reads :: "('s, 'e, 'r) action \<Rightarrow> bool" where
  "reads m \<longleftrightarrow> (\<forall>s r s'. m s = Some (r, s') \<longrightarrow> s' = s)"

definition surely :: "('s, 'e, 'r) action \<Rightarrow> bool" where
  "surely m \<longleftrightarrow> (\<forall>s e s'. m s \<noteq> Some (Inl e, s'))"

named_theorems clean_intros \<open>structural rules for clean, reads and surely\<close>

lemma cleanD: "clean m \<Longrightarrow> m s = Some (Inl e, s') \<Longrightarrow> s' = s"
  by (auto simp: clean_def)

lemma reads_clean [clean_intros]: "reads m \<Longrightarrow> clean m"
  by (auto simp: reads_def clean_def)

lemma reads_basic [clean_intros]:
  "reads (returnM r)" "reads (failM e)" "reads (getsM f)" "reads (ensureM b e)" "reads (ok_orM x e)"
  by (auto simp: reads_def run_simps split: option.splits if_splits)

lemma surely_basic [clean_intros]: "surely (returnM r)" "surely (getsM f)" "surely (modifyM g)"
  by (auto simp: surely_def run_simps)

lemma reads_bind [clean_intros]:
  "reads m \<Longrightarrow> (\<And>q. reads (f q)) \<Longrightarrow> reads (bindM m f)"
  "reads m \<Longrightarrow> reads n \<Longrightarrow> reads (seqM m n)"
  unfolding reads_def run_simps by (fastforce split: option.splits sum.splits prod.splits)+

lemma surely_bind [clean_intros]:
  "surely m \<Longrightarrow> (\<And>q. surely (f q)) \<Longrightarrow> surely (bindM m f)"
  "surely m \<Longrightarrow> surely n \<Longrightarrow> surely (seqM m n)"
  unfolding surely_def run_simps by (fastforce split: option.splits sum.splits prod.splits)+

lemma clean_modify: "clean (modifyM g)"
  by (auto simp: clean_def run_simps)

lemma clean_if: "clean m \<Longrightarrow> clean n \<Longrightarrow> clean (if b then m else n)"
  by simp

lemma surely_for [clean_intros]: "(\<And>x. surely (f x)) \<Longrightarrow> surely (forM xs f)"
  by (induction xs) (auto intro: clean_intros)

text \<open>Checks, then the rest; or the rest, then writes that cannot fail.\<close>

lemma clean_checks:
  "reads m \<Longrightarrow> (\<And>q. clean (f q)) \<Longrightarrow> clean (bindM m f)"
  "reads m \<Longrightarrow> clean n \<Longrightarrow> clean (seqM m n)"
  unfolding reads_def clean_def run_simps by (fastforce split: option.splits sum.splits prod.splits)+

lemma clean_writes:
  "clean m \<Longrightarrow> (\<And>q. surely (f q)) \<Longrightarrow> clean (bindM m f)"
  "clean m \<Longrightarrow> surely n \<Longrightarrow> clean (seqM m n)"
  unfolding surely_def clean_def run_simps by (fastforce split: option.splits sum.splits prod.splits)+

lemma clean_transactional: "clean (transactionalM m)"
  by (auto simp: clean_def transactional_error)

section \<open>Interface: an identifier allocator\<close>

text \<open>
  The pallets hand out identifiers from 32-bit counters: read the counter, fail at the top, store
  the successor. A client sees identifiers that are never handed out twice.
\<close>

locale id_allocator =
  fixes peek :: "'s \<Rightarrow> u32"
    and alloc :: "('s, 'e, u32) action"
  assumes alloc_returns: "alloc s \<noteq> None"
    and alloc_ok: "alloc s = Some (Inr i, s') \<Longrightarrow> i = peek s \<and> peek s \<noteq> - 1 \<and> peek s' = peek s + 1"
    and alloc_full: "alloc s = Some (Inl e, s') \<Longrightarrow> peek s = - 1 \<and> s' = s"
begin

lemma alloc_next: "alloc s = Some (Inr i, s') \<Longrightarrow> unat (peek s') = unat i + 1"
  using alloc_ok unat_plus_one_u32 by fastforce

lemma alloc_below: "alloc s = Some (Inr i, s') \<Longrightarrow> i < peek s'"
  using alloc_ok less_plus_one_u32 by fastforce

lemma alloc_fails_iff: "(\<exists>e s'. alloc s = Some (Inl e, s')) \<longleftrightarrow> peek s = - 1"
proof -
  obtain r s' where "alloc s = Some (r, s')"
    using alloc_returns[of s] by (cases "alloc s") auto
  then show ?thesis
    using alloc_ok[of s] alloc_full[of s] by (cases r) auto
qed

text \<open>
  Two allocations with anything in between that does not lower the counter give different
  identifiers.
\<close>

lemma alloc_distinct:
  assumes "alloc s = Some (Inr i, s1)" "peek s1 \<le> peek s2" "alloc s2 = Some (Inr j, s3)"
  shows "i < j"
  using alloc_below[OF assms(1)] alloc_ok[OF assms(3)] assms(2) by simp

end

section \<open>Interface: calls that leave no trace when they fail\<close>

text \<open>
  \<open>run_calls\<close> executes a sequence of calls the way a block does: each call returns, and the next
  one runs on the storage it left whether it failed or not. \<open>None\<close>: some call did not return.
\<close>

primrec run_calls :: "('c \<Rightarrow> ('s, 'e, unit) action) \<Rightarrow> 'c list \<Rightarrow> 's \<Rightarrow> 's option" where
  "run_calls exec [] s = Some s"
| "run_calls exec (c # cs) s =
     (case exec c s of None \<Rightarrow> None | Some (r, s') \<Rightarrow> run_calls exec cs s')"

locale atomic_calls =
  fixes exec :: "'c \<Rightarrow> ('s, 'e, unit) action"
  assumes error_unchanged: "exec c s = Some (Inl e, s') \<Longrightarrow> s' = s"
begin

lemma changed_succeeds: "exec c s = Some (r, s') \<Longrightarrow> s' \<noteq> s \<Longrightarrow> r = Inr ()"
  using error_unchanged by (cases r) auto

text \<open>What every successful call keeps, every sequence of calls keeps.\<close>

lemma run_calls_keep:
  assumes "\<And>c s s'. exec c s = Some (Inr (), s') \<Longrightarrow> I s \<Longrightarrow> I s'"
  shows "run_calls exec cs s = Some s' \<Longrightarrow> I s \<Longrightarrow> I s'"
proof (induction cs arbitrary: s)
  case (Cons c cs)
  then obtain r t where c: "exec c s = Some (r, t)" "run_calls exec cs t = Some s'"
    by (auto split: option.splits)
  have "I t"
    using assms[of c s t] error_unchanged[of c s] c(1) Cons.prems(2) by (cases r) auto
  then show ?case using Cons.IH c(2) by blast
qed simp

text \<open>A failing call can be left out of a sequence.\<close>

lemma run_calls_skip:
  assumes "exec c s = Some (Inl e, t)"
  shows "run_calls exec (c # cs) s = run_calls exec cs s"
  using assms error_unchanged[OF assms] by simp

end

section \<open>Interface: an invariant of a step relation\<close>

locale step_invariant =
  fixes step :: "'s \<Rightarrow> 's \<Rightarrow> bool"
    and I :: "'s \<Rightarrow> bool"
  assumes step_keeps: "I s \<Longrightarrow> step s s' \<Longrightarrow> I s'"
begin

lemma steps_keep: "step\<^sup>*\<^sup>* s s' \<Longrightarrow> I s \<Longrightarrow> I s'"
  by (induction rule: rtranclp_induct) (auto intro: step_keeps)

end

end
