(* ===== verification/Types.thy ===== *)
theory Types
  imports Prelude
begin

text \<open>
  The data of the pallets: the structs and enums of \<^verbatim>\<open>traits/src\<close>, the listing and offer of
  the market, the error and event enums of the pallets, and the origins of a call. A
  \<^verbatim>\<open>BoundedVec\<close> is a list, an account identifier a type variable, an identifier a 32-bit word.
\<close>

section \<open>Primitives\<close>

type_synonym collection_id = u32
type_synonym resource_id = u32
type_synonym nft_id = u32
type_synonym base_id = u32
type_synonym slot_id = u32
type_synonym part_id = u32
type_synonym z_index = u32

type_synonym bytes = "u8 list"
type_synonym permill = u32
type_synonym balance = u128
type_synonym block_number = u32
type_synonym nft = "collection_id \<times> nft_id"

section \<open>Collections and NFTs\<close>

record 'a collection_info =
  col_issuer :: 'a
  col_metadata :: bytes
  col_max :: "u32 option"
  col_symbol :: bytes
  nfts_count :: u32

datatype 'a account_id_or_nft =
    AccountId 'a
  | CollectionAndNftTuple collection_id nft_id

record 'a royalty_info =
  recipient :: 'a
  royalty_amount :: permill

record 'a nft_info =
  nft_owner :: "'a account_id_or_nft"
  royalty :: "'a royalty_info option"
  nft_metadata :: bytes
  equipped :: bool
  nft_pending :: bool
  transferable :: bool

section \<open>Resources\<close>

record basic_resource =
  basic_src :: "bytes option"
  basic_metadata :: "bytes option"
  basic_license :: "bytes option"
  basic_thumb :: "bytes option"

record composable_resource =
  composable_parts :: "part_id list"
  composable_base :: base_id
  composable_src :: "bytes option"
  composable_metadata :: "bytes option"
  composable_slot :: "(base_id \<times> slot_id) option"
  composable_license :: "bytes option"
  composable_thumb :: "bytes option"

record slot_resource =
  slot_base :: base_id
  slot_src :: "bytes option"
  slot_metadata :: "bytes option"
  slot_slot :: slot_id
  slot_license :: "bytes option"
  slot_thumb :: "bytes option"

datatype resource_types =
    Basic basic_resource
  | Composable composable_resource
  | Slot slot_resource

record resource_info =
  res_id :: resource_id
  resource :: resource_types
  res_pending :: bool
  pending_removal :: bool

section \<open>Bases, parts and themes\<close>

record fixed_part =
  fixed_id :: part_id
  fixed_z :: z_index
  fixed_src :: bytes

datatype equippable_list = All | Empty | Custom "collection_id list"

record slot_part =
  slot_part_id :: part_id
  slot_equippable :: equippable_list
  slot_part_src :: "bytes option"
  slot_part_z :: z_index

datatype part_type = FixedPart fixed_part | SlotPart slot_part

record 'a base_info =
  base_issuer :: 'a
  base_type :: bytes
  base_symbol :: bytes
  base_parts :: "part_type list"

record theme_property =
  prop_key :: bytes
  prop_value :: bytes

record theme =
  theme_name :: bytes
  theme_properties :: "theme_property list"
  theme_inherit :: bool

section \<open>Listings and offers\<close>

record 'a list_info =
  listed_by :: 'a
  list_amount :: balance
  list_expires :: "block_number option"

record 'a offer =
  maker :: 'a
  offer_amount :: balance
  offer_expires :: "block_number option"

section \<open>Unused structs of rmrk-core\<close>

record 'a class_info =
  class_issuer :: 'a
  class_metadata :: bytes
  class_max :: u32
  class_symbol :: bytes

record 'a instance_info =
  instance_recipient :: 'a
  instance_royalty :: permill
  instance_metadata :: bytes

section \<open>Errors\<close>

text \<open>
  The error enums of the four pallets, with the constructors of the source (a constructor that two
  pallets share gets the pallet's name in the later ones), and what else a call can end with: an
  error of \<^verbatim>\<open>pallet_uniques\<close> (\<open>Locked\<close> is the one the source names), of another external
  pallet, an arithmetic error, a bad origin. A panic (an \<^verbatim>\<open>unwrap\<close> of \<^verbatim>\<open>None\<close>) is an
  error value too.
\<close>

datatype (plugins only: code size) core_error =
    NoneValue | StorageOverflow | TooLong | NoAvailableCollectionId | NoAvailableResourceId
  | MetadataNotSet | RecipientNotSet | NoAvailableNftId | NotInRange | RoyaltyNotSet
  | CollectionUnknown | NoPermission | NoWitness | CollectionNotEmpty | CollectionFullOrLocked
  | CannotSendToDescendentOrSelf | ResourceAlreadyExists | EmptyResource | TooManyRecursions
  | NftIsLocked | CannotAcceptNonOwnedNft | CannotRejectNonOwnedNft | CannotRejectNonPendingNft
  | ResourceDoesntExist | ResourceNotPending | NonTransferable | CannotSendEquippedItem

datatype (plugins only: code size) equip_error =
    PermissionError | ItemDoesntExist | EquipperDoesntExist | NoAvailableBaseId
  | NoAvailablePartId | MustBeDirectParent | PartDoesntExist | BaseDoesntExist
  | CantEquipFixedPart | NoResourceForThisBaseFoundOnNft | CollectionNotEquippable
  | ItemHasNoResourceToEquipThere | NoEquippableOnFixedPart | NeedsDefaultThemeFirst
  | AlreadyEquipped | UnknownError | ExceedsMaxPartsPerBase | TooManyProperties

datatype (plugins only: code size) market_error =
    MarketNoPermission | TokenNotForSale | CannotWithdrawOffer | CannotUnlistToken
  | CannotOfferOnOwnToken | CannotBuyOwnToken | UnknownOffer | CannotListNftOwnedByNft
  | TokenDoesNotExist | OfferTooLow | AlreadyOffered | OfferHasExpired | ListingHasExpired
  | PriceDiffersFromExpected | MarketNonTransferable

datatype (plugins only: code size) template_error = TemplateNoneValue | TemplateStorageOverflow

datatype (plugins only: code size) uniques_error = Locked | OtherUniquesError nat

datatype (plugins only: code size) dispatch_error =
    CoreError core_error
  | EquipError equip_error
  | MarketError market_error
  | TemplateError template_error
  | UniquesError uniques_error
  | ArithmeticOverflow
  | BadOrigin
  | ExternalError nat
  | Panic

section \<open>Events\<close>

datatype (plugins only: code size) 'a core_event =
    CollectionCreated 'a collection_id
  | NftMinted "'a account_id_or_nft" collection_id nft_id
  | NFTBurned 'a nft_id
  | CollectionDestroyed 'a collection_id
  | NFTSent 'a "'a account_id_or_nft" collection_id nft_id bool
  | NFTAccepted 'a "'a account_id_or_nft" collection_id nft_id
  | NFTRejected 'a collection_id nft_id
  | IssuerChanged 'a 'a collection_id
  | PropertySet collection_id "nft_id option" bytes bytes
  | CollectionLocked 'a collection_id
  | ResourceAdded nft_id resource_id
  | ResourceAccepted nft_id resource_id
  | ResourceRemoval nft_id resource_id
  | ResourceRemovalAccepted nft_id resource_id
  | PrioritySet collection_id nft_id

datatype (plugins only: code size) 'a equip_event =
    BaseCreated 'a base_id
  | SlotEquipped collection_id nft_id base_id slot_id
  | SlotUnequipped collection_id nft_id base_id slot_id
  | EquippablesUpdated base_id slot_id
  | BaseIssuerChanged 'a 'a base_id

datatype (plugins only: code size) 'a market_event =
    TokenPriceUpdated 'a collection_id nft_id "balance option"
  | TokenSold 'a 'a collection_id nft_id balance
  | TokenListed 'a collection_id nft_id balance
  | TokenUnlisted 'a collection_id nft_id
  | OfferPlaced 'a collection_id nft_id balance
  | OfferWithdrawn 'a collection_id nft_id
  | OfferAccepted 'a 'a collection_id nft_id

datatype (plugins only: code size) 'a template_event = SomethingStored u32 'a

text \<open>The \<^verbatim>\<open>Event\<close> enum of the runtime collects the events of its pallets.\<close>

datatype (plugins only: code size) 'a runtime_event =
    CoreEvent "'a core_event"
  | EquipEvent "'a equip_event"
  | MarketEvent "'a market_event"
  | TemplateEvent "'a template_event"

section \<open>Origins\<close>

text \<open>
  The origin of a call as \<^verbatim>\<open>frame_system::RawOrigin\<close>. \<open>ensure_signed\<close> gives the signing account or
  fails with \<^verbatim>\<open>BadOrigin\<close>.
\<close>

datatype 'a raw_origin = RootOrigin | Signed 'a | NoOrigin

definition ensure_signed :: "'a raw_origin \<Rightarrow> ('s, dispatch_error, 'a) action" where
  "ensure_signed org = (case org of Signed who \<Rightarrow> returnM who | _ \<Rightarrow> failM BadOrigin)"

lemma success_ensure_signed [success]:
  "ensure_signed org s = Some (Inr who, s') \<longleftrightarrow> org = Signed who \<and> s' = s"
  by (auto simp: ensure_signed_def success split: raw_origin.splits)

lemma run_ensure_signed [run_simps]:
  "ensure_signed (Signed who) s = Some (Inr who, s)"
  "ensure_signed RootOrigin s = Some (Inl BadOrigin, s)"
  "ensure_signed NoOrigin s = Some (Inl BadOrigin, s)"
  by (simp_all add: ensure_signed_def run_simps)

lemma keeps_ensure_signed [keeps_intros]: "keeps I (ensure_signed org)"
  by (auto simp: keeps_def success)

end
