(* ===== verification/External.thy ===== *)
theory External
  imports Types
begin

text \<open>
  What the pallets use of code outside the repository, as one record of functions that every
  operation takes as its argument \<open>E\<close>: the SCALE codec of account and 32-bit identifiers, the
  functions of \<^verbatim>\<open>pallet_uniques\<close>, the \<^verbatim>\<open>Currency\<close> of the market, the block number, the
  account lookup, the iteration order of a storage prefix, and the constants of the pallets'
  \<^verbatim>\<open>Config\<close>. The storage of the external pallets is one opaque value of type \<open>'x\<close>. What a
  property needs of them is a named law below: it states documented behaviour, and each property
  that uses it names it as a hypothesis.
\<close>

section \<open>The external functions\<close>

record destroy_witness =
  witness_items :: u32
  witness_item_metadatas :: u32
  witness_attributes :: u32

datatype existence_requirement = KeepAlive | AllowDeath

text \<open>
  An external operation runs on the external storage and says whether it failed; a write it made
  before failing stays, as for any call that is not transactional. \<open>uq_do_transfer\<close> takes the
  \<^verbatim>\<open>Locker\<close> of the configuration: \<^verbatim>\<open>pallet_uniques\<close> calls back \<^verbatim>\<open>is_locked\<close> of rmrk-core.
\<close>

type_synonym 'x ext_op = "'x \<Rightarrow> (dispatch_error + unit) \<times> 'x"

record ('a, 'l, 'x) env =
  \<comment> \<open>parity-scale-codec\<close>
  enc_u32 :: "u32 \<Rightarrow> bytes"
  dec_u32 :: "bytes \<Rightarrow> (u32 \<times> bytes) option"
  enc_account :: "'a \<Rightarrow> bytes"
  dec_account :: "bytes \<Rightarrow> ('a \<times> bytes) option"
  account_width :: nat
  \<comment> \<open>pallet-uniques\<close>
  uq_owner :: "'x \<Rightarrow> nft \<Rightarrow> 'a option"
  uq_collection_owner :: "'x \<Rightarrow> collection_id \<Rightarrow> 'a option"
  uq_get_destroy_witness :: "'x \<Rightarrow> collection_id \<Rightarrow> destroy_witness option"
  uq_do_mint :: "nft \<Rightarrow> 'a \<Rightarrow> 'x ext_op"
  uq_do_burn :: "nft \<Rightarrow> 'x ext_op"
  uq_do_transfer :: "(nft \<Rightarrow> bool) \<Rightarrow> nft \<Rightarrow> 'a \<Rightarrow> 'x ext_op"
  uq_do_create_collection :: "collection_id \<Rightarrow> 'a \<Rightarrow> 'a \<Rightarrow> balance \<Rightarrow> bool \<Rightarrow> 'x ext_op"
  uq_do_destroy_collection :: "collection_id \<Rightarrow> destroy_witness \<Rightarrow> 'a option \<Rightarrow> 'x ext_op"
  uq_transfer_ownership :: "'a raw_origin \<Rightarrow> collection_id \<Rightarrow> 'l \<Rightarrow> 'x ext_op"
  \<comment> \<open>the Currency of the market\<close>
  cur_free :: "'x \<Rightarrow> 'a \<Rightarrow> nat"
  cur_reserved :: "'x \<Rightarrow> 'a \<Rightarrow> nat"
  cur_reserve :: "'a \<Rightarrow> balance \<Rightarrow> 'x ext_op"
  cur_unreserve :: "'a \<Rightarrow> balance \<Rightarrow> 'x \<Rightarrow> 'x"
  cur_transfer :: "'a \<Rightarrow> 'a \<Rightarrow> balance \<Rightarrow> existence_requirement \<Rightarrow> 'x ext_op"
  \<comment> \<open>frame-system and the storage layer\<close>
  block_now :: "'x \<Rightarrow> block_number"
  account_lookup :: "'l \<Rightarrow> dispatch_error + 'a"
  iter_order :: "nft list \<Rightarrow> nft list"
  \<comment> \<open>constants of the pallets' Config\<close>
  max_recursions :: u32
  collection_deposit :: balance
  string_limit :: nat
  max_properties_per_theme :: u32
  minimum_offer_amount :: balance

section \<open>Laws: the codec\<close>

text \<open>
  A 32-bit identifier is four bytes and decodes from the front of what follows it; an account
  identifier is a fixed number of bytes, and every string of that many bytes is the encoding of
  exactly one account (\<^verbatim>\<open>AccountId32\<close> is \<^verbatim>\<open>[u8; 32]\<close>).
\<close>

definition codec_laws :: "('a, 'l, 'x) env \<Rightarrow> bool" where
  "codec_laws E \<longleftrightarrow>
     (\<forall>w. length (enc_u32 E w) = 4) \<and>
     (\<forall>w bs. dec_u32 E (enc_u32 E w @ bs) = Some (w, bs)) \<and>
     (\<forall>bs w rest. dec_u32 E bs = Some (w, rest) \<longrightarrow> bs = enc_u32 E w @ rest) \<and>
     (\<forall>a. length (enc_account E a) = account_width E) \<and>
     (\<forall>a bs. dec_account E (enc_account E a @ bs) = Some (a, bs)) \<and>
     (\<forall>bs. length bs = account_width E \<longrightarrow> (\<exists>a. bs = enc_account E a))"

text \<open>
  The account identifier must hold the eight bytes of the salt and two identifiers, as the comment
  of \<^verbatim>\<open>nft_to_account_id\<close> asks.
\<close>

definition wide_accounts :: "('a, 'l, 'x) env \<Rightarrow> bool" where
  "wide_accounts E \<longleftrightarrow> 16 \<le> account_width E"

lemma codec_u32_length: "codec_laws E \<Longrightarrow> length (enc_u32 E w) = 4"
  and codec_u32_dec: "codec_laws E \<Longrightarrow> dec_u32 E (enc_u32 E w @ bs) = Some (w, bs)"
  and codec_u32_enc: "codec_laws E \<Longrightarrow> dec_u32 E bs = Some (w, rest) \<Longrightarrow> bs = enc_u32 E w @ rest"
  and codec_account_length: "codec_laws E \<Longrightarrow> length (enc_account E a) = account_width E"
  and codec_account_dec: "codec_laws E \<Longrightarrow> dec_account E (enc_account E a @ bs) = Some (a, bs)"
  and codec_account_onto:
    "codec_laws E \<Longrightarrow> length bs = account_width E \<Longrightarrow> \<exists>a. bs = enc_account E a"
  by (auto simp: codec_laws_def)

section \<open>Laws: pallet-uniques\<close>

text \<open>
  What a successful call of \<^verbatim>\<open>pallet_uniques\<close> does to the owners of items, as its documentation
  says: \<^verbatim>\<open>do_mint\<close> gives a new item its owner, \<^verbatim>\<open>do_burn\<close> removes an existing one,
  \<^verbatim>\<open>do_transfer\<close> changes the owner of one unlocked item, and the calls on collections and on
  balances change no item.
\<close>

definition uniques_laws :: "('a, 'l, 'x) env \<Rightarrow> bool" where
  "uniques_laws E \<longleftrightarrow>
     (\<forall>k a x x'. uq_do_mint E k a x = (Inr (), x') \<longrightarrow>
        uq_owner E x k = None \<and> uq_owner E x' = (uq_owner E x)(k := Some a)) \<and>
     (\<forall>k x x'. uq_do_burn E k x = (Inr (), x') \<longrightarrow>
        uq_owner E x k \<noteq> None \<and> uq_owner E x' = (uq_owner E x)(k := None)) \<and>
     (\<forall>lk k a x x'. uq_do_transfer E lk k a x = (Inr (), x') \<longrightarrow>
        \<not> lk k \<and> uq_owner E x k \<noteq> None \<and> uq_owner E x' = (uq_owner E x)(k := Some a)) \<and>
     (\<forall>c a b v f x x'. uq_do_create_collection E c a b v f x = (Inr (), x') \<longrightarrow>
        uq_owner E x' = uq_owner E x) \<and>
     (\<forall>c w a x x'. witness_items w = 0 \<longrightarrow> uq_do_destroy_collection E c w a x = (Inr (), x') \<longrightarrow>
        uq_owner E x' = uq_owner E x) \<and>
     (\<forall>org c l x x'. uq_transfer_ownership E org c l x = (Inr (), x') \<longrightarrow>
        uq_owner E x' = uq_owner E x)"

text \<open>
  The witness \<^verbatim>\<open>pallet_uniques\<close> hands out for destroying a collection counts the collection's items.
\<close>

definition witness_law :: "('a, 'l, 'x) env \<Rightarrow> bool" where
  "witness_law E \<longleftrightarrow> (\<forall>x c w n. uq_get_destroy_witness E x c = Some w \<longrightarrow> witness_items w = 0 \<longrightarrow>
     uq_owner E x (c, n) = None)"

lemma uniques_mint:
    "uniques_laws E \<Longrightarrow> uq_do_mint E k a x = (Inr u, x') \<Longrightarrow> uq_owner E x k = None"
    "uniques_laws E \<Longrightarrow> uq_do_mint E k a x = (Inr u, x') \<Longrightarrow>
      uq_owner E x' = (uq_owner E x)(k := Some a)"
  and uniques_burn:
    "uniques_laws E \<Longrightarrow> uq_do_burn E k x = (Inr u, x') \<Longrightarrow> uq_owner E x k \<noteq> None"
    "uniques_laws E \<Longrightarrow> uq_do_burn E k x = (Inr u, x') \<Longrightarrow>
      uq_owner E x' = (uq_owner E x)(k := None)"
  and uniques_transfer:
    "uniques_laws E \<Longrightarrow> uq_do_transfer E lk k a x = (Inr u, x') \<Longrightarrow> \<not> lk k"
    "uniques_laws E \<Longrightarrow> uq_do_transfer E lk k a x = (Inr u, x') \<Longrightarrow>
      uq_owner E x' = (uq_owner E x)(k := Some a)"
  and uniques_collection_calls:
    "uniques_laws E \<Longrightarrow> uq_do_create_collection E c a b v f x = (Inr u, x') \<Longrightarrow>
      uq_owner E x' = uq_owner E x"
    "uniques_laws E \<Longrightarrow> witness_items w = 0 \<Longrightarrow>
      uq_do_destroy_collection E c w a' x = (Inr u, x') \<Longrightarrow> uq_owner E x' = uq_owner E x"
    "uniques_laws E \<Longrightarrow> uq_transfer_ownership E org c l x = (Inr u, x') \<Longrightarrow>
      uq_owner E x' = uq_owner E x"
  unfolding uniques_laws_def by (metis old.unit.exhaust)+

section \<open>Laws: iteration over a storage prefix\<close>

text \<open>Iterating over a prefix visits each of its keys once, in an order of the storage's own.\<close>

definition iteration_laws :: "('a, 'l, 'x) env \<Rightarrow> bool" where
  "iteration_laws E \<longleftrightarrow>
     (\<forall>ks. set (iter_order E ks) = set ks \<and> (distinct ks \<longrightarrow> distinct (iter_order E ks)))"

section \<open>Laws: the currency\<close>

text \<open>
  \<^verbatim>\<open>reserve\<close> moves an amount of an account from its free to its reserved balance,
  \<^verbatim>\<open>unreserve\<close> moves it back as far as it is there, \<^verbatim>\<open>transfer\<close> that keeps the payer alive moves a
  free amount between two accounts, and none of them changes the owner of an item; moving an item moves no balance.
\<close>

definition currency_laws :: "('a, 'l, 'x) env \<Rightarrow> bool" where
  "currency_laws E \<longleftrightarrow>
     (\<forall>a v x x'. cur_reserve E a v x = (Inr (), x') \<longrightarrow>
        unat v \<le> cur_free E x a \<and>
        cur_free E x' = (cur_free E x)(a := cur_free E x a - unat v) \<and>
        cur_reserved E x' = (cur_reserved E x)(a := cur_reserved E x a + unat v) \<and>
        uq_owner E x' = uq_owner E x) \<and>
     (\<forall>a v x. let m = min (unat v) (cur_reserved E x a); x' = cur_unreserve E a v x in
        cur_free E x' = (cur_free E x)(a := cur_free E x a + m) \<and>
        cur_reserved E x' = (cur_reserved E x)(a := cur_reserved E x a - m) \<and>
        uq_owner E x' = uq_owner E x) \<and>
     (\<forall>a b v x x'. cur_transfer E a b v KeepAlive x = (Inr (), x') \<longrightarrow>
        (a \<noteq> b \<longrightarrow> unat v \<le> cur_free E x a \<and>
          cur_free E x' =
            (cur_free E x)(a := cur_free E x a - unat v, b := cur_free E x b + unat v)) \<and>
        cur_reserved E x' = cur_reserved E x \<and>
        uq_owner E x' = uq_owner E x) \<and>
     (\<forall>lk k a x x'. uq_do_transfer E lk k a x = (Inr (), x') \<longrightarrow>
        cur_free E x' = cur_free E x \<and> cur_reserved E x' = cur_reserved E x)"

lemma currency_reserve:
    "currency_laws E \<Longrightarrow> cur_reserve E a v x = (Inr u, x') \<Longrightarrow> unat v \<le> cur_free E x a"
    "currency_laws E \<Longrightarrow> cur_reserve E a v x = (Inr u, x') \<Longrightarrow>
      cur_free E x' = (cur_free E x)(a := cur_free E x a - unat v)"
    "currency_laws E \<Longrightarrow> cur_reserve E a v x = (Inr u, x') \<Longrightarrow>
      cur_reserved E x' = (cur_reserved E x)(a := cur_reserved E x a + unat v)"
    "currency_laws E \<Longrightarrow> cur_reserve E a v x = (Inr u, x') \<Longrightarrow> uq_owner E x' = uq_owner E x"
  and currency_unreserve:
    "currency_laws E \<Longrightarrow> cur_free E (cur_unreserve E a v x) =
      (cur_free E x)(a := cur_free E x a + min (unat v) (cur_reserved E x a))"
    "currency_laws E \<Longrightarrow> cur_reserved E (cur_unreserve E a v x) =
      (cur_reserved E x)(a := cur_reserved E x a - min (unat v) (cur_reserved E x a))"
    "currency_laws E \<Longrightarrow> uq_owner E (cur_unreserve E a v x) = uq_owner E x"
  and currency_transfer:
    "currency_laws E \<Longrightarrow> a \<noteq> b \<Longrightarrow> cur_transfer E a b v KeepAlive x = (Inr u, x') \<Longrightarrow>
      unat v \<le> cur_free E x a"
    "currency_laws E \<Longrightarrow> a \<noteq> b \<Longrightarrow> cur_transfer E a b v KeepAlive x = (Inr u, x') \<Longrightarrow>
      cur_free E x' = (cur_free E x)(a := cur_free E x a - unat v, b := cur_free E x b + unat v)"
    "currency_laws E \<Longrightarrow> cur_transfer E a b v KeepAlive x = (Inr u, x') \<Longrightarrow>
      cur_reserved E x' = cur_reserved E x"
    "currency_laws E \<Longrightarrow> cur_transfer E a b v KeepAlive x = (Inr u, x') \<Longrightarrow>
      uq_owner E x' = uq_owner E x"
  and currency_item:
    "currency_laws E \<Longrightarrow> uq_do_transfer E lk k a x = (Inr u, x') \<Longrightarrow> cur_free E x' = cur_free E x"
    "currency_laws E \<Longrightarrow> uq_do_transfer E lk k a x = (Inr u, x') \<Longrightarrow>
      cur_reserved E x' = cur_reserved E x"
  unfolding currency_laws_def Let_def by (metis old.unit.exhaust)+

section \<open>What the pallets do to the external storage\<close>

text \<open>
  The successful calls of \<^verbatim>\<open>pallet_uniques\<close> and of the currency the pallets make, as relations on the
  external storage: the only ways a call of this repository changes it.
\<close>

inductive uniques_op :: "('a, 'l, 'x) env \<Rightarrow> 'x \<Rightarrow> 'x \<Rightarrow> bool" for E where
  mint: "uq_do_mint E k a x = (Inr (), x') \<Longrightarrow> uniques_op E x x'"
| burn: "uq_do_burn E k x = (Inr (), x') \<Longrightarrow> uniques_op E x x'"
| transfer: "uq_do_transfer E lk k a x = (Inr (), x') \<Longrightarrow> uniques_op E x x'"
| create: "uq_do_create_collection E c a b v f x = (Inr (), x') \<Longrightarrow> uniques_op E x x'"
| destroy: "uq_do_destroy_collection E c w a' x = (Inr (), x') \<Longrightarrow> uniques_op E x x'"
| ownership: "uq_transfer_ownership E org c l x = (Inr (), x') \<Longrightarrow> uniques_op E x x'"

inductive currency_op :: "('a, 'l, 'x) env \<Rightarrow> 'x \<Rightarrow> 'x \<Rightarrow> bool" for E where
  reserve: "cur_reserve E a v x = (Inr (), x') \<Longrightarrow> currency_op E x x'"
| unreserve: "currency_op E x (cur_unreserve E a v x)"
| transfer: "cur_transfer E a b v KeepAlive x = (Inr (), x') \<Longrightarrow> currency_op E x x'"

text \<open>
  \<^verbatim>\<open>pallet_uniques\<close> reserves deposits of its own: \<open>dep\<close> is how much of an account's reserved balance
  they are. As long as all of them are reserved, its calls change the reserved balance by as much as
  the deposits, and the currency calls of the market leave the deposits alone.
\<close>

definition deposit_laws :: "('a, 'l, 'x) env \<Rightarrow> ('x \<Rightarrow> 'a \<Rightarrow> nat) \<Rightarrow> bool" where
  "deposit_laws E dep \<longleftrightarrow>
     (\<forall>x x'. (\<forall>a. dep x a \<le> cur_reserved E x a) \<longrightarrow> uniques_op E x x' \<longrightarrow>
        (\<forall>a. cur_reserved E x' a + dep x a = cur_reserved E x a + dep x' a)) \<and>
     (\<forall>x x'. currency_op E x x' \<longrightarrow> dep x' = dep x)"

section \<open>External storage, events, and lifting external operations\<close>

text \<open>
  The part of the storage every pallet sees: the storage of the external pallets and the log of
  deposited events. The pallets' own storage records extend it.
\<close>

record ('a, 'x) frame =
  ext :: 'x
  events :: "'a runtime_event list"

definition deposit_event ::
  "'a runtime_event \<Rightarrow> (('a, 'x, 'z) frame_scheme, dispatch_error, unit) action" where
  "deposit_event ev = modifyM (\<lambda>s. s\<lparr>events := events s @ [ev]\<rparr>)"

definition externalM :: "'x ext_op \<Rightarrow> (('a, 'x, 'z) frame_scheme, dispatch_error, unit) action" where
  "externalM f = (\<lambda>s. case f (ext s) of (r, x') \<Rightarrow> Some (r, s\<lparr>ext := x'\<rparr>))"

lemma run_deposit_event [run_simps]:
  "deposit_event ev s = Some (Inr (), s\<lparr>events := events s @ [ev]\<rparr>)"
  by (simp add: deposit_event_def run_simps)

lemma success_deposit_event [success]:
  "deposit_event ev s = Some (Inr u, s') \<longleftrightarrow> s' = s\<lparr>events := events s @ [ev]\<rparr>"
  by (auto simp: run_simps)

lemma run_external [run_simps]:
  "externalM f s = (case f (ext s) of (r, x') \<Rightarrow> Some (r, s\<lparr>ext := x'\<rparr>))"
  by (simp add: externalM_def)

lemma success_external [success]:
  "externalM f s = Some (Inr u, s') \<longleftrightarrow> (\<exists>x'. f (ext s) = (Inr (), x') \<and> s' = s\<lparr>ext := x'\<rparr>)"
  by (auto simp: run_simps split: prod.splits)

lemma keeps_deposit_event [keeps_intros]:
  "(\<And>s evs. I s \<Longrightarrow> I (s\<lparr>events := evs\<rparr>)) \<Longrightarrow> keeps I (deposit_event ev)"
  by (auto simp: keeps_def success)

lemma keeps_external:
  "(\<And>s x. I s \<Longrightarrow> f (ext s) = (Inr (), x) \<Longrightarrow> I (s\<lparr>ext := x\<rparr>)) \<Longrightarrow> keeps I (externalM f)"
  by (auto simp: keeps_def success)

lemma keeps_uniques_ops:
  assumes "\<And>s x. I s \<Longrightarrow> uniques_op E (ext s) x \<Longrightarrow> I (s\<lparr>ext := x\<rparr>)"
  shows "keeps I (externalM (uq_do_mint E k a))" "keeps I (externalM (uq_do_burn E k))"
    "keeps I (externalM (uq_do_transfer E lk k a))"
    "keeps I (externalM (uq_do_create_collection E c a b v f))"
    "keeps I (externalM (uq_do_destroy_collection E c w a'))"
    "keeps I (externalM (uq_transfer_ownership E org c l))"
  by (rule keeps_external; auto intro: assms uniques_op.intros)+

lemma keeps_currency_ops:
  assumes "\<And>s x. I s \<Longrightarrow> currency_op E (ext s) x \<Longrightarrow> I (s\<lparr>ext := x\<rparr>)"
  shows "keeps I (externalM (cur_reserve E a v))" "keeps I (externalM (cur_transfer E a b v KeepAlive))"
    "keeps I (modifyM (\<lambda>s. s\<lparr>ext := cur_unreserve E a v (ext s)\<rparr>))"
  by (rule keeps_external keeps_modify; auto intro: assms currency_op.intros)+

end
