(* ===== verification/Accounts.thy ===== *)
theory Accounts
  imports External
begin

text \<open>
  The virtual accounts of rmrk-core (\<^verbatim>\<open>functions.rs\<close>): \<^verbatim>\<open>nft_to_account_id\<close> packs the salt, the
  collection and the NFT identifier into an account identifier, and \<^verbatim>\<open>decode_nft_account_id\<close> says
  which NFT an account identifier stands for, if any.
\<close>

section \<open>Encoding an NFT as an account\<close>

text \<open>The bytes of \<^verbatim>\<open>b"RmrkNft/"\<close>.\<close>

definition SALT_RMRK_NFT :: bytes where
  "SALT_RMRK_NFT = [82, 109, 114, 107, 78, 102, 116, 47]"

text \<open>
  \<^verbatim>\<open>TrailingZeroInput\<close> lets the account decoder read zeros past the sixteen bytes; a fixed-width
  account reads \<open>account_width\<close> bytes, so that many zeros are enough. \<open>None\<close> is the panic of
  \<^verbatim>\<open>expect\<close>.
\<close>

definition nft_to_account_id :: "('a, 'l, 'x) env \<Rightarrow> nft \<Rightarrow> 'a option" where
  "nft_to_account_id E k =
     map_option fst (dec_account E
       (SALT_RMRK_NFT @ enc_u32 E (fst k) @ enc_u32 E (snd k) @ replicate (account_width E) 0))"

definition decode_nft_account_id :: "('a, 'l, 'x) env \<Rightarrow> 'a \<Rightarrow> nft option" where
  "decode_nft_account_id E a =
     (let b = enc_account E a in
      if length b < 8 then None
      else case dec_u32 E (drop 8 b) of
          None \<Rightarrow> None
        | Some (cid, b1) \<Rightarrow> (case dec_u32 E b1 of
            None \<Rightarrow> None
          | Some (nid, suffix) \<Rightarrow>
              if take 8 b = SALT_RMRK_NFT \<and> list_all (\<lambda>x. x = 0) suffix
              then Some (cid, nid) else None))"

section \<open>The two directions\<close>

lemma length_SALT [simp]: "length SALT_RMRK_NFT = 8"
  by (simp add: SALT_RMRK_NFT_def)

text \<open>
  The bytes of a virtual account: salt, identifiers, zeros up to the width of an account.
\<close>

definition virtual_bytes :: "('a, 'l, 'x) env \<Rightarrow> nft \<Rightarrow> bytes" where
  "virtual_bytes E k =
     SALT_RMRK_NFT @ enc_u32 E (fst k) @ enc_u32 E (snd k) @ replicate (account_width E - 16) 0"

lemma length_virtual_bytes:
  "codec_laws E \<Longrightarrow> wide_accounts E \<Longrightarrow> length (virtual_bytes E k) = account_width E"
  by (simp add: virtual_bytes_def codec_u32_length wide_accounts_def)

lemma nft_to_account_id_virtual:
  assumes "codec_laws E" "enc_account E a = virtual_bytes E k"
  shows "nft_to_account_id E k = Some a"
proof -
  have "length (virtual_bytes E k) = account_width E"
    using assms codec_account_length by metis
  then have "16 \<le> account_width E"
    using assms(1) by (simp add: virtual_bytes_def codec_u32_length)
  then have "replicate (account_width E) (0::u8) = replicate (account_width E - 16) 0 @ replicate 16 0"
    by (metis le_add_diff_inverse2 replicate_add)
  then have "SALT_RMRK_NFT @ enc_u32 E (fst k) @ enc_u32 E (snd k) @ replicate (account_width E) 0
      = enc_account E a @ replicate 16 0"
    by (simp add: assms(2) virtual_bytes_def)
  then show ?thesis
    unfolding nft_to_account_id_def by (simp add: codec_account_dec[OF assms(1)])
qed

lemma decode_virtual:
  assumes "codec_laws E" "enc_account E a = virtual_bytes E k"
  shows "decode_nft_account_id E a = Some k"
  using assms
  by (simp add: decode_nft_account_id_def virtual_bytes_def codec_u32_dec list_all_iff Let_def)

lemma decode_Some_bytes:
  assumes "codec_laws E" "decode_nft_account_id E a = Some k"
  shows "enc_account E a = virtual_bytes E k"
proof -
  let ?b = "enc_account E a"
  obtain b1 suffix where d: "dec_u32 E (drop 8 ?b) = Some (fst k, b1)"
      "dec_u32 E b1 = Some (snd k, suffix)" "take 8 ?b = SALT_RMRK_NFT"
      "list_all (\<lambda>x. x = 0) suffix"
    using assms(2) unfolding decode_nft_account_id_def
    by (auto simp: Let_def split: if_splits option.splits prod.splits)
  have tail: "drop 8 ?b = enc_u32 E (fst k) @ enc_u32 E (snd k) @ suffix"
    using d(1,2) codec_u32_enc[OF assms(1)] by metis
  have b: "?b = SALT_RMRK_NFT @ enc_u32 E (fst k) @ enc_u32 E (snd k) @ suffix"
    using append_take_drop_id[of 8 ?b] d(3) tail by simp
  have "length suffix = account_width E - 16"
    using arg_cong[OF b, where f = length]
    by (simp add: codec_account_length[OF assms(1)] codec_u32_length[OF assms(1)])
  then have "suffix = replicate (account_width E - 16) 0"
    using d(4) by (intro replicate_eqI) (auto simp: list_all_iff)
  then show ?thesis using b by (simp add: virtual_bytes_def)
qed

lemma nft_to_account_id_bytes:
  assumes "codec_laws E" "wide_accounts E" "nft_to_account_id E k = Some a"
  shows "enc_account E a = virtual_bytes E k"
proof -
  obtain a' where "virtual_bytes E k = enc_account E a'"
    using codec_account_onto[OF assms(1) length_virtual_bytes[OF assms(1,2)]] by blast
  then show ?thesis
    using nft_to_account_id_virtual[OF assms(1), of a' k] assms(3) by auto
qed

lemma nft_to_account_id_total:
  assumes "codec_laws E" "wide_accounts E"
  obtains a where "nft_to_account_id E k = Some a" "decode_nft_account_id E a = Some k"
proof -
  obtain a where "virtual_bytes E k = enc_account E a"
    using codec_account_onto[OF assms(1) length_virtual_bytes[OF assms]] by blast
  then have "enc_account E a = virtual_bytes E k" by simp
  then show ?thesis
    using that nft_to_account_id_virtual[OF assms(1)] decode_virtual[OF assms(1)] by blast
qed

lemma decode_nft_to_account_id:
  "codec_laws E \<Longrightarrow> wide_accounts E \<Longrightarrow> nft_to_account_id E k = Some a \<Longrightarrow>
    decode_nft_account_id E a = Some k"
  using decode_virtual nft_to_account_id_bytes by metis

lemma nft_to_account_id_decode:
  "codec_laws E \<Longrightarrow> decode_nft_account_id E a = Some k \<Longrightarrow> nft_to_account_id E k = Some a"
  using decode_Some_bytes nft_to_account_id_virtual by metis

end
