(* ===== verification/Ownership.thy ===== *)
theory Ownership
  imports Accounts
begin

text \<open>
  The ownership hierarchy of rmrk-core: an NFT whose owner in \<^verbatim>\<open>pallet_uniques\<close> is the virtual
  account of another NFT is nested in it. \<^verbatim>\<open>lookup_root_owner\<close> and \<^verbatim>\<open>is_x_descendent_of_y\<close>
  walk that hierarchy with a recursion the code does not bound, so both are partial here and
  \<open>None\<close> is a walk that never ends. The \<^verbatim>\<open>unwrap\<close> each of them makes is a branch that panics. The theory relates them to the path relation of the
  hierarchy, says when they return, and how one change of owner acts on it.
\<close>

section \<open>The two walks\<close>

partial_function (option) lookup_root_owner ::
  "('a, 'l, 'x) env \<Rightarrow> 'x \<Rightarrow> nft \<Rightarrow> (dispatch_error + ('a \<times> nft)) option" where
  "lookup_root_owner E x k =
     (if uq_owner E x k = None then Some (Inl (CoreError NoAvailableNftId))
      else case uq_owner E x k of
        None \<Rightarrow> Some (Inl Panic)
      | Some owner \<Rightarrow> (case decode_nft_account_id E owner of
            None \<Rightarrow> Some (Inr (owner, k))
          | Some parent \<Rightarrow> lookup_root_owner E x parent))"

partial_function (option) is_x_descendent_of_y ::
  "('a, 'l, 'x) env \<Rightarrow> 'x \<Rightarrow> nft \<Rightarrow> nft \<Rightarrow> (dispatch_error + bool) option" where
  "is_x_descendent_of_y E x child y =
     (if uq_owner E x child = None then Some (Inr False)
      else case uq_owner E x child of
        None \<Rightarrow> Some (Inl Panic)
      | Some owner \<Rightarrow> (case decode_nft_account_id E owner of
            None \<Rightarrow> Some (Inr False)
          | Some parent \<Rightarrow> if parent = y then Some (Inr True) else is_x_descendent_of_y E x parent y))"

text \<open>The guards come before the \<^verbatim>\<open>unwrap\<close>s, so the branches that panic are never taken.\<close>

lemma lookup_step:
  "lookup_root_owner E x k =
     (case uq_owner E x k of
        None \<Rightarrow> Some (Inl (CoreError NoAvailableNftId))
      | Some owner \<Rightarrow> (case decode_nft_account_id E owner of
            None \<Rightarrow> Some (Inr (owner, k))
          | Some parent \<Rightarrow> lookup_root_owner E x parent))"
  by (subst lookup_root_owner.simps) (simp split: option.split)

lemma descendent_unfold:
  "is_x_descendent_of_y E x child y =
     (case uq_owner E x child of
        None \<Rightarrow> Some (Inr False)
      | Some owner \<Rightarrow> (case decode_nft_account_id E owner of
            None \<Rightarrow> Some (Inr False)
          | Some parent \<Rightarrow> if parent = y then Some (Inr True) else is_x_descendent_of_y E x parent y))"
  by (subst is_x_descendent_of_y.simps) (simp split: option.split)

section \<open>Paths of a parent function\<close>

text \<open>
  \<open>grounded\<close>: the chain of parents from \<open>k\<close> ends. \<open>below\<close>: \<open>p\<close> is reached from \<open>k\<close> by at least one
  step to a parent.
\<close>

inductive grounded :: "('k \<Rightarrow> 'k option) \<Rightarrow> 'k \<Rightarrow> bool" for parent where
  ground: "parent k = None \<Longrightarrow> grounded parent k"
| nested: "parent k = Some p \<Longrightarrow> grounded parent p \<Longrightarrow> grounded parent k"

inductive below :: "('k \<Rightarrow> 'k option) \<Rightarrow> 'k \<Rightarrow> 'k \<Rightarrow> bool" for parent where
  direct: "parent k = Some p \<Longrightarrow> below parent k p"
| step: "parent k = Some q \<Longrightarrow> below parent q p \<Longrightarrow> below parent k p"

inductive_simps below_simps: "below parent k p"
inductive_simps grounded_simps: "grounded parent k"

lemma below_snoc: "below parent k q \<Longrightarrow> parent q = Some p \<Longrightarrow> below parent k p"
  by (induction rule: below.induct) (auto intro: below.intros)

lemma grounded_not_below_self: "grounded parent k \<Longrightarrow> \<not> below parent k k"
proof (induction rule: grounded.induct)
  case (nested k p)
  have "below parent p p" if "below parent k k"
    using that
  proof (cases rule: below.cases)
    case direct
    with nested.hyps(1) show ?thesis by (simp add: below.direct)
  next
    case (step q)
    with nested.hyps(1) have "below parent p k" by simp
    then show ?thesis using nested.hyps(1) by (rule below_snoc)
  qed
  with nested.IH show ?case by blast
next
  case (ground k)
  then show ?case by (auto elim: below.cases)
qed

text \<open>A chain that avoids \<open>k\<close> is not changed by giving \<open>k\<close> another parent.\<close>

lemma grounded_update_off_path:
  "grounded parent p \<Longrightarrow> p \<noteq> k \<Longrightarrow> \<not> below parent p k \<Longrightarrow> grounded (parent(k := q)) p"
proof (induction rule: grounded.induct)
  case (nested p r)
  then show ?case
    by (intro grounded.nested[of _ p r]) (auto simp: below_simps[of parent p])
qed (auto intro: grounded.intros)

text \<open>
  Giving \<open>k\<close> a new parent \<open>p\<close> that is neither \<open>k\<close> nor nested below \<open>k\<close>, or no parent, keeps
  every chain finite.
\<close>

lemma grounded_update:
  assumes all: "\<And>j. grounded parent j"
    and new: "\<And>p. q = Some p \<Longrightarrow> p \<noteq> k \<and> \<not> below parent p k"
  shows "grounded (parent(k := q)) j"
proof -
  have k: "grounded (parent(k := q)) k"
  proof (cases q)
    case (Some p)
    then have "grounded (parent(k := q)) p"
      using grounded_update_off_path[OF all] new by auto
    with Some show ?thesis by (intro grounded.nested[of _ k p]) simp_all
  qed (simp add: grounded.ground)
  from all[of j] show ?thesis
  proof (induction rule: grounded.induct)
    case (nested j p)
    show ?case
    proof (cases "j = k")
      case False
      with nested show ?thesis by (intro grounded.nested[of _ j p]) simp_all
    qed (use k in blast)
  next
    case (ground j)
    show ?case
    proof (cases "j = k")
      case False
      with ground show ?thesis by (intro grounded.ground) simp
    qed (use k in blast)
  qed
qed

section \<open>The interface of a walk to the root\<close>

text \<open>
  What a client of \<^verbatim>\<open>lookup_root_owner\<close> relies on: the equation of one step, and that a result is
  only ever the end of finitely many steps.
\<close>

locale ownership_walk =
  fixes owner :: "'k \<Rightarrow> 'a option"
    and decode :: "'a \<Rightarrow> 'k option"
    and parent :: "'k \<Rightarrow> 'k option"
    and missing :: 'e
    and walk :: "'k \<Rightarrow> ('e + ('a \<times> 'k)) option"
  assumes parent_eq: "parent k = Option.bind (owner k) decode"
    and walk_step: "walk k = (case owner k of None \<Rightarrow> Some (Inl missing)
      | Some a \<Rightarrow> (case decode a of None \<Rightarrow> Some (Inr (a, k)) | Some p \<Rightarrow> walk p))"
    and walk_finite: "walk k = Some r \<Longrightarrow> (\<And>k. owner k = None \<Longrightarrow> P k (Inl missing)) \<Longrightarrow>
      (\<And>k a. owner k = Some a \<Longrightarrow> decode a = None \<Longrightarrow> P k (Inr (a, k))) \<Longrightarrow>
      (\<And>k a p r. owner k = Some a \<Longrightarrow> decode a = Some p \<Longrightarrow> P p r \<Longrightarrow> P k r) \<Longrightarrow> P k r"
begin

lemma walk_None [simp]: "owner k = None \<Longrightarrow> walk k = Some (Inl missing)"
  by (simp add: walk_step)

lemma walk_root [simp]: "owner k = Some a \<Longrightarrow> decode a = None \<Longrightarrow> walk k = Some (Inr (a, k))"
  by (simp add: walk_step)

lemma walk_up: "owner k = Some a \<Longrightarrow> decode a = Some p \<Longrightarrow> walk k = walk p"
  by (simp add: walk_step[of k])

lemma walk_parent: "parent k = Some p \<Longrightarrow> walk k = walk p"
  by (cases "owner k") (auto simp: parent_eq intro: walk_up)

lemma walk_returns: "walk k \<noteq> None \<longleftrightarrow> grounded parent k"
proof
  assume "grounded parent k"
  then show "walk k \<noteq> None"
  proof (induction rule: grounded.induct)
    case (ground k)
    then show ?case by (cases "owner k") (auto simp: parent_eq)
  qed (simp add: walk_parent)
next
  assume "walk k \<noteq> None"
  then obtain r where "walk k = Some r" by blast
  then show "grounded parent k"
    by (rule walk_finite[where P = "\<lambda>k _. grounded parent k"])
      (auto simp: parent_eq intro: grounded.intros)
qed

lemma walk_below: "below parent k r \<Longrightarrow> walk k = walk r"
  by (induction rule: below.induct) (simp_all add: walk_parent)

lemma walk_ends:
  assumes "walk k = Some (Inr (a, r))"
  shows "(k = r \<or> below parent k r) \<and> owner r = Some a \<and> decode a = None"
proof -
  have "case (Inr (a, r) :: 'e + ('a \<times> 'k)) of Inl _ \<Rightarrow> True
      | Inr (a, r) \<Rightarrow> (k = r \<or> below parent k r) \<and> owner r = Some a \<and> decode a = None"
    by (rule walk_finite[OF assms, where P = "\<lambda>k res. case res of Inl _ \<Rightarrow> True
            | Inr (a, r) \<Rightarrow> (k = r \<or> below parent k r) \<and> owner r = Some a \<and> decode a = None"])
      (auto simp: parent_eq split: sum.splits intro: below.intros)
  then show ?thesis by simp
qed

lemma walk_iff: "walk k = Some (Inr (a, r)) \<longleftrightarrow>
    (k = r \<or> below parent k r) \<and> owner r = Some a \<and> decode a = None"
  using walk_ends walk_below walk_root by metis

lemma walk_missing: "walk k = Some (Inl e) \<Longrightarrow> e = missing"
proof -
  assume "walk k = Some (Inl e)"
  then have "\<forall>e'. Inl e = (Inl e' :: 'e + ('a \<times> 'k)) \<longrightarrow> e' = missing"
    by (rule walk_finite[where P = "\<lambda>k res. \<forall>e'. res = Inl e' \<longrightarrow> e' = missing"]) simp_all
  then show ?thesis by simp
qed

lemma walk_cycle: "below parent k k \<Longrightarrow> walk k = None"
  using walk_returns[of k] grounded_not_below_self[of parent k] by auto

end

section \<open>The walks of the code\<close>

text \<open>The NFT an NFT is directly nested in.\<close>

definition nft_parent :: "('a, 'l, 'x) env \<Rightarrow> 'x \<Rightarrow> nft \<Rightarrow> nft option" where
  "nft_parent E x k = Option.bind (uq_owner E x k) (decode_nft_account_id E)"

lemma lookup_finite:
  assumes "lookup_root_owner E x k = Some r"
    and "\<And>k. uq_owner E x k = None \<Longrightarrow> P k (Inl (CoreError NoAvailableNftId))"
    and "\<And>k a. uq_owner E x k = Some a \<Longrightarrow> decode_nft_account_id E a = None \<Longrightarrow> P k (Inr (a, k))"
    and "\<And>k a p r. uq_owner E x k = Some a \<Longrightarrow> decode_nft_account_id E a = Some p \<Longrightarrow> P p r \<Longrightarrow>
      P k r"
  shows "P k r"
proof -
  have "E' = E \<longrightarrow> x' = x \<longrightarrow> P k' r'" if "lookup_root_owner E' x' k' = Some r'" for E' x' k' r'
  proof (rule lookup_root_owner.raw_induct[where xa = "((E', x'), k')" and y = r' and
        P = "\<lambda>E' x' k' r'. E' = E \<longrightarrow> x' = x \<longrightarrow> P k' r'", unfolded prod.case, OF _ that])
    fix f E' x' k' r'
    assume IH: "\<And>E' x' k' r'. f E' x' k' = Some r' \<Longrightarrow> E' = E \<longrightarrow> x' = x \<longrightarrow> P k' r'"
      and eq: "(if uq_owner E' x' k' = None then Some (Inl (CoreError NoAvailableNftId))
        else case uq_owner E' x' k' of None \<Rightarrow> Some (Inl Panic)
        | Some owner \<Rightarrow> (case decode_nft_account_id E' owner of None \<Rightarrow> Some (Inr (owner, k'))
          | Some parent \<Rightarrow> f E' x' parent)) = Some r'"
    show "E' = E \<longrightarrow> x' = x \<longrightarrow> P k' r'"
    proof (intro impI)
      assume same: "E' = E" "x' = x"
      show "P k' r'"
      proof (cases "uq_owner E x k'")
        case None
        then show ?thesis using eq same assms(2)[OF None] by simp
      next
        case (Some a)
        show ?thesis
        proof (cases "decode_nft_account_id E a")
          case None
          then show ?thesis using eq same Some assms(3)[OF Some None] by simp
        next
          case (Some p)
          with eq same \<open>uq_owner E x k' = Some a\<close> have "f E' x' p = Some r'" by simp
          from IH[OF this] same have "P p r'" by blast
          then show ?thesis by (rule assms(4)[OF \<open>uq_owner E x k' = Some a\<close> Some])
        qed
      qed
    qed
  qed
  then show ?thesis using assms(1) by blast
qed

interpretation root: ownership_walk "uq_owner E x" "decode_nft_account_id E" "nft_parent E x"
    "CoreError NoAvailableNftId" "lookup_root_owner E x" for E :: "('a, 'l, 'x) env" and x
proof unfold_locales
  show "nft_parent E x k = Option.bind (uq_owner E x k) (decode_nft_account_id E)" for k
    by (simp add: nft_parent_def)
next
  show "lookup_root_owner E x k = (case uq_owner E x k of None \<Rightarrow> Some (Inl (CoreError NoAvailableNftId))
      | Some a \<Rightarrow> (case decode_nft_account_id E a of None \<Rightarrow> Some (Inr (a, k))
        | Some p \<Rightarrow> lookup_root_owner E x p))" for k
    by (rule lookup_step)
qed (rule lookup_finite)

lemma descendent_step:
  "nft_parent E x k = None \<Longrightarrow> is_x_descendent_of_y E x k y = Some (Inr False)"
  "nft_parent E x k = Some y \<Longrightarrow> is_x_descendent_of_y E x k y = Some (Inr True)"
  "nft_parent E x k = Some p \<Longrightarrow> p \<noteq> y \<Longrightarrow>
    is_x_descendent_of_y E x k y = is_x_descendent_of_y E x p y"
  by (auto simp: nft_parent_def descendent_unfold[of E x k] bind_eq_Some_conv
      split: option.splits)

lemma descendent_returns:
  assumes "grounded (nft_parent E x) k"
  shows "is_x_descendent_of_y E x k y = Some (Inr (below (nft_parent E x) k y))"
  using assms
proof (induction rule: grounded.induct)
  case (nested k p)
  then show ?case
    by (cases "p = y") (auto simp: descendent_step below_simps[of "nft_parent E x" k])
qed (auto simp: descendent_step elim: below.cases)

lemma descendent_False:
  "is_x_descendent_of_y E x k y = Some (Inr False) \<Longrightarrow> \<not> below (nft_parent E x) k y"
proof
  assume "is_x_descendent_of_y E x k y = Some (Inr False)" "below (nft_parent E x) k y"
  from this(2,1) show False
  proof (induction rule: below.induct)
    case (step k q p)
    then show ?case by (cases "q = p") (auto simp: descendent_step)
  qed (simp add: descendent_step)
qed

lemma nft_parent_update:
  "uq_owner E x' = (uq_owner E x)(k := Some a) \<Longrightarrow>
    nft_parent E x' = (nft_parent E x)(k := decode_nft_account_id E a)"
  "uq_owner E x' = (uq_owner E x)(k := None) \<Longrightarrow> nft_parent E x' = (nft_parent E x)(k := None)"
  by (auto simp: nft_parent_def)

text \<open>Every chain of owners ends: what the walks need to return, for every NFT.\<close>

definition nesting_ok :: "('a, 'l, 'x) env \<Rightarrow> 'x \<Rightarrow> bool" where
  "nesting_ok E x \<longleftrightarrow> (\<forall>k. grounded (nft_parent E x) k)"

lemma nesting_okD: "nesting_ok E x \<Longrightarrow> grounded (nft_parent E x) k"
  unfolding nesting_ok_def by blast

lemma nesting_ok_lookup: "nesting_ok E x \<longleftrightarrow> (\<forall>k. lookup_root_owner E x k \<noteq> None)"
  unfolding nesting_ok_def root.walk_returns ..

lemma nesting_ok_owner:
  assumes "nesting_ok E x" "uq_owner E x' = (uq_owner E x)(k := Some a)"
    and "\<And>p. decode_nft_account_id E a = Some p \<Longrightarrow> p \<noteq> k \<and> \<not> below (nft_parent E x) p k"
  shows "nesting_ok E x'"
  unfolding nesting_ok_def nft_parent_update(1)[OF assms(2)]
  using grounded_update[OF nesting_okD[OF assms(1)]] assms(3) by blast

lemma nesting_ok_removed:
  assumes "nesting_ok E x" "uq_owner E x' = (uq_owner E x)(k := None)"
  shows "nesting_ok E x'"
  unfolding nesting_ok_def nft_parent_update(2)[OF assms(2)]
  using grounded_update[OF nesting_okD[OF assms(1)]] by blast

lemma nesting_ok_same: "uq_owner E x' = uq_owner E x \<Longrightarrow> nesting_ok E x' = nesting_ok E x"
  by (simp add: nesting_ok_def nft_parent_def[abs_def])

section \<open>The walks as actions\<close>

text \<open>
  \<^verbatim>\<open>lookup_root_owner(..)?\<close> of a handler. A walk that does not end makes the action not return.
\<close>

definition root_ownerM ::
  "('a, 'l, 'x) env \<Rightarrow> nft \<Rightarrow> (('a, 'x, 'z) frame_scheme, dispatch_error, 'a \<times> nft) action" where
  "root_ownerM E k = (\<lambda>s. case lookup_root_owner E (ext s) k of
       None \<Rightarrow> None
     | Some (Inl e) \<Rightarrow> Some (Inl e, s)
     | Some (Inr r) \<Rightarrow> Some (Inr r, s))"

definition descendentM ::
  "('a, 'l, 'x) env \<Rightarrow> nft \<Rightarrow> nft \<Rightarrow> (('a, 'x, 'z) frame_scheme, dispatch_error, bool) action" where
  "descendentM E child y = (\<lambda>s. case is_x_descendent_of_y E (ext s) child y of
       None \<Rightarrow> None
     | Some r \<Rightarrow> Some (r, s))"

lemma success_root_owner [success]:
  "root_ownerM E k s = Some (Inr r, s') \<longleftrightarrow> lookup_root_owner E (ext s) k = Some (Inr r) \<and> s' = s"
  by (auto simp: root_ownerM_def split: option.splits sum.splits)

lemma success_descendent [success]:
  "descendentM E c y s = Some (Inr b, s') \<longleftrightarrow> is_x_descendent_of_y E (ext s) c y = Some (Inr b) \<and> s' = s"
  by (auto simp: descendentM_def split: option.splits)

lemma descendent_never_panics: "is_x_descendent_of_y E x k y \<noteq> Some (Inl e)"
proof
  have "E' = E \<longrightarrow> x' = x \<longrightarrow> r' \<noteq> Inl e"
    if "is_x_descendent_of_y E' x' k' y' = Some r'" for E' x' k' y' r'
  proof (rule is_x_descendent_of_y.raw_induct[where xa = "(((E', x'), k'), y')" and ya = r' and
        P = "\<lambda>E' x' k' y' r'. E' = E \<longrightarrow> x' = x \<longrightarrow> r' \<noteq> Inl e", unfolded prod.case, OF _ that])
  qed (auto split: if_splits option.splits)
  moreover assume "is_x_descendent_of_y E x k y = Some (Inl e)"
  ultimately show False by blast
qed

lemma keeps_root_owner [keeps_intros]: "keeps I (root_ownerM E k)"
  by (auto simp: keeps_def success)

lemma keeps_descendent [keeps_intros]: "keeps I (descendentM E c y)"
  by (auto simp: keeps_def success)

end
