(* ===== verification/Core_Storage.thy ===== *)
theory Core_Storage
  imports Ownership
begin

text \<open>
  The storage of rmrk-core (\<^verbatim>\<open>lib.rs\<close>) and the helpers of \<^verbatim>\<open>functions.rs\<close> that read and write one
  item of it: the identifier counters, the children of an NFT, the lock, the two checks on an NFT.
\<close>

section \<open>The storage items\<close>

text \<open>
  A \<^verbatim>\<open>StorageMap\<close> with an \<^verbatim>\<open>OptionQuery\<close> is a map, with a \<^verbatim>\<open>ValueQuery\<close> a total function
  (zero and \<^verbatim>\<open>false\<close> are the defaults). \<open>children\<close> gives the second keys of a parent's prefix
  of \<^verbatim>\<open>Children\<close>; the order of the list carries no meaning, an iteration asks \<open>iter_order\<close>.
\<close>

record ('a, 'x) core_state = "('a, 'x) frame" +
  next_nft_id :: "collection_id \<Rightarrow> nft_id"
  collection_index :: collection_id
  next_resource_id :: "nft \<Rightarrow> resource_id"
  collections :: "collection_id \<rightharpoonup> 'a collection_info"
  nfts :: "nft \<rightharpoonup> 'a nft_info"
  priorities :: "nft \<times> resource_id \<rightharpoonup> u32"
  children :: "nft \<Rightarrow> nft list"
  resources :: "nft \<times> resource_id \<rightharpoonup> resource_info"
  equippable_bases :: "nft \<times> base_id \<rightharpoonup> unit"
  equippable_slots :: "nft \<times> resource_id \<times> base_id \<times> slot_id \<rightharpoonup> unit"
  properties :: "collection_id \<times> nft_id option \<times> bytes \<rightharpoonup> bytes"
  lock :: "nft \<Rightarrow> bool"

type_synonym ('a, 'x, 'z, 'r) core_action =
  "(('a, 'x, 'z) core_state_scheme, dispatch_error, 'r) action"

text \<open>\<^verbatim>\<open>remove_prefix\<close>: every key whose first part is \<open>k\<close> goes.\<close>

definition remove_prefix :: "'k \<Rightarrow> ('k \<times> 'r \<rightharpoonup> 'v) \<Rightarrow> ('k \<times> 'r \<rightharpoonup> 'v)" where
  "remove_prefix k m = (\<lambda>(k', r). if k' = k then None else m (k', r))"

lemma remove_prefix_apply [simp]:
  "remove_prefix k m (k', r) = (if k' = k then None else m (k', r))"
  by (simp add: remove_prefix_def)

text \<open>
  \<^verbatim>\<open>try_mutate_exists\<close> with a closure that changes the value if there is one.
\<close>

definition mutate_exists :: "'k \<Rightarrow> ('v \<Rightarrow> 'v) \<Rightarrow> ('k \<rightharpoonup> 'v) \<Rightarrow> ('k \<rightharpoonup> 'v)" where
  "mutate_exists k f m = (case m k of None \<Rightarrow> m | Some v \<Rightarrow> m(k \<mapsto> f v))"

lemma mutate_exists_apply [simp]:
  "mutate_exists k f m k' = (if k' = k then map_option f (m k) else m k')"
  by (simp add: mutate_exists_def split: option.split)

text \<open>\<^verbatim>\<open>get(..).ok_or(e)?\<close>.\<close>

definition get_okM :: "('s \<Rightarrow> 'v option) \<Rightarrow> 'e \<Rightarrow> ('s, 'e, 'v) action" where
  "get_okM f e = bindM (getsM f) (\<lambda>v. ok_orM v e)"

lemma run_get_ok [run_simps]:
  "get_okM f e s = (case f s of None \<Rightarrow> Some (Inl e, s) | Some v \<Rightarrow> Some (Inr v, s))"
  by (simp add: get_okM_def run_simps)

lemma success_get_ok [success]: "get_okM f e s = Some (Inr v, s') \<longleftrightarrow> f s = Some v \<and> s' = s"
  by (auto simp: get_okM_def success)

lemma keeps_get_ok [keeps_intros]: "keeps I (get_okM f e)"
  by (auto simp: keeps_def success)

section \<open>Identifier counters\<close>

definition get_next_nft_id :: "collection_id \<Rightarrow> ('a, 'x, 'z, nft_id) core_action" where
  "get_next_nft_id c =
     bindM (getsM (\<lambda>s. next_nft_id s c)) (\<lambda>current_id.
     bindM (ok_orM (checked_add current_id 1) (CoreError NoAvailableNftId)) (\<lambda>id.
     seqM (modifyM (\<lambda>s. s\<lparr>next_nft_id := (next_nft_id s)(c := id)\<rparr>))
     (returnM current_id)))"

definition get_next_resource_id :: "nft \<Rightarrow> ('a, 'x, 'z, resource_id) core_action" where
  "get_next_resource_id k =
     bindM (getsM (\<lambda>s. next_resource_id s k)) (\<lambda>current_id.
     bindM (ok_orM (checked_add current_id 1) (CoreError NoAvailableResourceId)) (\<lambda>id.
     seqM (modifyM (\<lambda>s. s\<lparr>next_resource_id := (next_resource_id s)(k := id)\<rparr>))
     (returnM current_id)))"

text \<open>The \<^verbatim>\<open>try_mutate\<close> block of \<^verbatim>\<open>collection_create\<close>.\<close>

definition get_next_collection_id :: "('a, 'x, 'z, collection_id) core_action" where
  "get_next_collection_id =
     bindM (getsM collection_index) (\<lambda>id.
     seqM (ensureM (id \<noteq> - 1) (CoreError NoAvailableCollectionId))
     (seqM (modifyM (\<lambda>s. s\<lparr>collection_index := id + 1\<rparr>))
     (returnM id)))"

lemma success_next_nft_id [success]:
  "get_next_nft_id c s = Some (Inr i, s') \<longleftrightarrow>
     i = next_nft_id s c \<and> i \<noteq> - 1 \<and> s' = s\<lparr>next_nft_id := (next_nft_id s)(c := i + 1)\<rparr>"
  by (auto simp: get_next_nft_id_def success)

lemma success_next_resource_id [success]:
  "get_next_resource_id k s = Some (Inr i, s') \<longleftrightarrow>
     i = next_resource_id s k \<and> i \<noteq> - 1 \<and>
     s' = s\<lparr>next_resource_id := (next_resource_id s)(k := i + 1)\<rparr>"
  by (auto simp: get_next_resource_id_def success)

lemma success_next_collection_id [success]:
  "get_next_collection_id s = Some (Inr i, s') \<longleftrightarrow>
     i = collection_index s \<and> i \<noteq> - 1 \<and> s' = s\<lparr>collection_index := i + 1\<rparr>"
  by (auto simp: get_next_collection_id_def success)

interpretation nft_ids: id_allocator "\<lambda>s. next_nft_id s c" "get_next_nft_id c" for c
  by unfold_locales
    (auto simp: get_next_nft_id_def run_simps split: option.splits if_splits)

interpretation resource_ids: id_allocator "\<lambda>s. next_resource_id s k" "get_next_resource_id k" for k
  by unfold_locales
    (auto simp: get_next_resource_id_def run_simps split: option.splits if_splits)

interpretation collection_ids: id_allocator collection_index get_next_collection_id
  by unfold_locales
    (auto simp: get_next_collection_id_def run_simps split: option.splits if_splits)

section \<open>Children, lock, checks\<close>

definition add_child :: "nft \<Rightarrow> nft \<Rightarrow> ('a, 'x, 'z, unit) core_action" where
  "add_child parent child =
     modifyM (\<lambda>s. s\<lparr>children := (children s)(parent := List.insert child (children s parent))\<rparr>)"

definition remove_child :: "nft \<Rightarrow> nft \<Rightarrow> ('a, 'x, 'z, unit) core_action" where
  "remove_child parent child =
     modifyM (\<lambda>s. s\<lparr>children := (children s)(parent := removeAll child (children s parent))\<rparr>)"

definition is_locked :: "('a, 'x, 'z) core_state_scheme \<Rightarrow> nft \<Rightarrow> bool" where
  "is_locked s k = lock s k"

definition set_lock :: "nft \<Rightarrow> bool \<Rightarrow> ('a, 'x, 'z, bool) core_action" where
  "set_lock k lock_status =
     seqM (modifyM (\<lambda>s. s\<lparr>lock := (lock s)(k := lock_status)\<rparr>)) (returnM lock_status)"

definition check_is_transferable :: "'a nft_info \<Rightarrow> ('s, dispatch_error, unit) action" where
  "check_is_transferable nft = ensureM (transferable nft) (CoreError NonTransferable)"

definition check_is_not_equipped :: "'a nft_info \<Rightarrow> ('s, dispatch_error, unit) action" where
  "check_is_not_equipped nft = ensureM (\<not> equipped nft) (CoreError CannotSendEquippedItem)"

text \<open>
  \<^verbatim>\<open>ensure!(!is_locked(..), pallet_uniques::Error::Locked)\<close>, which several handlers make.
\<close>

definition ensure_unlocked :: "nft \<Rightarrow> ('a, 'x, 'z, unit) core_action" where
  "ensure_unlocked k =
     bindM (getsM (\<lambda>s. is_locked s k)) (\<lambda>locked. ensureM (\<not> locked) (UniquesError Locked))"

lemma run_core_helpers [run_simps]:
  "add_child p k s =
    Some (Inr (), s\<lparr>children := (children s)(p := List.insert k (children s p))\<rparr>)"
  "remove_child p k s =
    Some (Inr (), s\<lparr>children := (children s)(p := removeAll k (children s p))\<rparr>)"
  "set_lock k b s = Some (Inr b, s\<lparr>lock := (lock s)(k := b)\<rparr>)"
  "ensure_unlocked k s = (if lock s k then Some (Inl (UniquesError Locked), s) else Some (Inr (), s))"
  by (simp_all add: add_child_def remove_child_def set_lock_def ensure_unlocked_def is_locked_def
      run_simps)

lemma success_core_helpers [success]:
  "add_child p k s = Some (Inr u, s') \<longleftrightarrow>
    s' = s\<lparr>children := (children s)(p := List.insert k (children s p))\<rparr>"
  "remove_child p k s = Some (Inr u, s') \<longleftrightarrow>
    s' = s\<lparr>children := (children s)(p := removeAll k (children s p))\<rparr>"
  "set_lock k b s = Some (Inr v, s') \<longleftrightarrow> v = b \<and> s' = s\<lparr>lock := (lock s)(k := b)\<rparr>"
  "ensure_unlocked k s = Some (Inr u, s') \<longleftrightarrow> \<not> lock s k \<and> s' = s"
  "check_is_transferable nft s = Some (Inr u, s') \<longleftrightarrow> transferable nft \<and> s' = s"
  "check_is_not_equipped nft s = Some (Inr u, s') \<longleftrightarrow> \<not> equipped nft \<and> s' = s"
  by (auto simp: run_simps check_is_transferable_def check_is_not_equipped_def)

lemma keeps_core_helpers [keeps_intros]:
  "(\<And>s ch. I s \<Longrightarrow> I (s\<lparr>children := ch\<rparr>)) \<Longrightarrow> keeps I (add_child p k)"
  "(\<And>s ch. I s \<Longrightarrow> I (s\<lparr>children := ch\<rparr>)) \<Longrightarrow> keeps I (remove_child p k)"
  "(\<And>s l. I s \<Longrightarrow> I (s\<lparr>lock := l\<rparr>)) \<Longrightarrow> keeps I (set_lock k b)"
  "keeps I (ensure_unlocked k)"
  "keeps I (check_is_transferable nft)"
  "keeps I (check_is_not_equipped nft)"
  by (auto simp: keeps_def success)

end
