(* ===== verification/Collections.thy ===== *)
theory Collections
  imports Core_Storage
begin

text \<open>
  The \<^verbatim>\<open>Collection\<close> implementation of rmrk-core (\<^verbatim>\<open>functions.rs\<close>): create, burn, change the
  issuer, lock; and what each of them does to the storage when it succeeds.
\<close>

section \<open>Operations\<close>

definition issuer :: "collection_id \<Rightarrow> 'a option" where
  "issuer collection_id = None"

definition collection_create ::
  "'a \<Rightarrow> bytes \<Rightarrow> u32 option \<Rightarrow> bytes \<Rightarrow> ('a, 'x, 'z, collection_id) core_action" where
  "collection_create sender metadata mx symbol =
     bindM get_next_collection_id (\<lambda>cid.
     seqM (modifyM (\<lambda>s. s\<lparr>collections := (collections s)(cid \<mapsto>
         \<lparr>col_issuer = sender, col_metadata = metadata, col_max = mx, col_symbol = symbol,
          nfts_count = 0\<rparr>)\<rparr>))
     (returnM cid))"

definition collection_burn :: "'a \<Rightarrow> collection_id \<Rightarrow> ('a, 'x, 'z, unit) core_action" where
  "collection_burn sender c =
     bindM (get_okM (\<lambda>s. collections s c) (CoreError CollectionUnknown)) (\<lambda>collection.
     seqM (ensureM (nfts_count collection = 0) (CoreError CollectionNotEmpty))
     (modifyM (\<lambda>s. s\<lparr>collections := (collections s)(c := None)\<rparr>)))"

definition collection_change_issuer ::
  "collection_id \<Rightarrow> 'a \<Rightarrow> ('a, 'x, 'z, 'a \<times> collection_id) core_action" where
  "collection_change_issuer c new_issuer =
     bindM (getsM (\<lambda>s. collections s c \<noteq> None)) (\<lambda>known.
     seqM (ensureM known (CoreError NoAvailableCollectionId))
     (seqM (modifyM (\<lambda>s. s\<lparr>collections :=
         mutate_exists c (\<lambda>col. col\<lparr>col_issuer := new_issuer\<rparr>) (collections s)\<rparr>))
     (returnM (new_issuer, c))))"

definition collection_lock ::
  "'a \<Rightarrow> collection_id \<Rightarrow> ('a, 'x, 'z, collection_id) core_action" where
  "collection_lock sender c =
     bindM (get_okM (\<lambda>s. collections s c) (CoreError CollectionUnknown)) (\<lambda>collection.
     seqM (ensureM (col_issuer collection = sender) (CoreError NoPermission))
     (seqM (modifyM (\<lambda>s. s\<lparr>collections := (collections s)
         (c \<mapsto> collection\<lparr>col_max := Some (nfts_count collection)\<rparr>)\<rparr>))
     (returnM c)))"

section \<open>What a successful operation does\<close>

lemma success_collection_create [success]:
  "collection_create a md mx sy s = Some (Inr c, s') \<longleftrightarrow>
     c = collection_index s \<and> c \<noteq> - 1 \<and>
     s' = s\<lparr>collection_index := c + 1, collections := (collections s)(c \<mapsto>
       \<lparr>col_issuer = a, col_metadata = md, col_max = mx, col_symbol = sy, nfts_count = 0\<rparr>)\<rparr>"
  by (auto simp: collection_create_def success)

lemma success_collection_burn [success]:
  "collection_burn a c s = Some (Inr u, s') \<longleftrightarrow>
     (\<exists>col. collections s c = Some col \<and> nfts_count col = 0) \<and>
     s' = s\<lparr>collections := (collections s)(c := None)\<rparr>"
  by (auto simp: collection_burn_def success)

lemma success_collection_change_issuer [success]:
  "collection_change_issuer c a s = Some (Inr r, s') \<longleftrightarrow>
     r = (a, c) \<and> collections s c \<noteq> None \<and>
     s' = s\<lparr>collections :=
       mutate_exists c (\<lambda>col. col\<lparr>col_issuer := a\<rparr>) (collections s)\<rparr>"
  by (auto simp: collection_change_issuer_def success)

lemma success_collection_lock [success]:
  "collection_lock a c s = Some (Inr r, s') \<longleftrightarrow>
     r = c \<and> (\<exists>col. collections s c = Some col \<and> col_issuer col = a \<and>
       s' = s\<lparr>collections := (collections s)(c \<mapsto> col\<lparr>col_max := Some (nfts_count col)\<rparr>)\<rparr>)"
  by (auto simp: collection_lock_def success)

end
