(* ===== verification/Nfts.thy ===== *)
theory Nfts
  imports Core_Storage
begin

text \<open>
  The \<^verbatim>\<open>Nft\<close> implementation of rmrk-core (\<^verbatim>\<open>functions.rs\<close>): mint to an account or to an NFT,
  burn with the nested children, send, accept, reject; and what each does when it succeeds.
\<close>

section \<open>Minting\<close>

text \<open>A royalty amount without a recipient goes to the default account.\<close>

definition mint_royalty :: "'a \<Rightarrow> 'a option \<Rightarrow> permill option \<Rightarrow> 'a royalty_info option" where
  "mint_royalty dflt royalty_recipient amount = (case amount of
       None \<Rightarrow> None
     | Some am \<Rightarrow> (case royalty_recipient of
           Some rcp \<Rightarrow> Some \<lparr>recipient = rcp, royalty_amount = am\<rparr>
         | None \<Rightarrow> Some \<lparr>recipient = dflt, royalty_amount = am\<rparr>))"

text \<open>\<^verbatim>\<open>if let Some(max) = collection.max { ensure!(nft_id < max, ..) }\<close>.\<close>

definition ensure_not_full :: "'a collection_info \<Rightarrow> nft_id \<Rightarrow> ('s, dispatch_error, unit) action" where
  "ensure_not_full collection n = (case col_max collection of
       None \<Rightarrow> returnM ()
     | Some mx \<Rightarrow> ensureM (n < mx) (CoreError CollectionFullOrLocked))"

text \<open>
  The counter update at the end of both mints: the new count is computed from the collection read
  at the start, and written to the collection read again.
\<close>

definition increment_nfts_count ::
  "'a collection_info \<Rightarrow> collection_id \<Rightarrow> ('a, 'x, 'z, unit) core_action" where
  "increment_nfts_count collection c =
     bindM (ok_orM (checked_add (nfts_count collection) 1) ArithmeticOverflow) (\<lambda>count.
     bindM (get_okM (\<lambda>s. collections s c) (CoreError CollectionUnknown)) (\<lambda>col.
     modifyM (\<lambda>s. s\<lparr>collections := (collections s)(c \<mapsto> col\<lparr>nfts_count := count\<rparr>)\<rparr>)))"

definition nft_mint ::
  "'a \<Rightarrow> 'a \<Rightarrow> collection_id \<Rightarrow> 'a option \<Rightarrow> permill option \<Rightarrow> bytes \<Rightarrow> bool \<Rightarrow>
    ('a, 'x, 'z, nft) core_action" where
  "nft_mint sender owner c royalty_recipient amount metadata transf =
     bindM (get_next_nft_id c) (\<lambda>n.
     bindM (get_okM (\<lambda>s. collections s c) (CoreError CollectionUnknown)) (\<lambda>collection.
     seqM (ensure_not_full collection n)
     (seqM (modifyM (\<lambda>s. s\<lparr>nfts := (nfts s)((c, n) \<mapsto>
         \<lparr>nft_owner = AccountId owner,
          royalty = mint_royalty sender royalty_recipient amount,
          nft_metadata = metadata, equipped = False, nft_pending = (owner \<noteq> sender),
          transferable = transf\<rparr>)\<rparr>))
     (seqM (increment_nfts_count collection c)
     (returnM (c, n))))))"

definition nft_mint_directly_to_nft ::
  "('a, 'l, 'x) env \<Rightarrow> 'a \<Rightarrow> nft \<Rightarrow> collection_id \<Rightarrow> 'a option \<Rightarrow> permill option \<Rightarrow> bytes \<Rightarrow> bool \<Rightarrow>
    ('a, 'x, 'z, nft) core_action" where
  "nft_mint_directly_to_nft E sender owner c royalty_recipient amount metadata transf =
     bindM (get_next_nft_id c) (\<lambda>n.
     bindM (get_okM (\<lambda>s. collections s c) (CoreError CollectionUnknown)) (\<lambda>collection.
     seqM (ensure_not_full collection n)
     (bindM (root_ownerM E owner) (\<lambda>(rootowner, _).
     seqM (modifyM (\<lambda>s. s\<lparr>nfts := (nfts s)((c, n) \<mapsto>
         \<lparr>nft_owner = CollectionAndNftTuple (fst owner) (snd owner),
          royalty = mint_royalty rootowner royalty_recipient amount,
          nft_metadata = metadata, equipped = False, nft_pending = (rootowner \<noteq> sender),
          transferable = transf\<rparr>)\<rparr>))
     (seqM (increment_nfts_count collection c)
     (returnM (c, n)))))))"

section \<open>Burning\<close>

text \<open>Removing an NFT from the children of the NFT its own record names as owner.\<close>

definition unlink_from_owner :: "nft \<Rightarrow> ('a, 'x, 'z, unit) core_action" where
  "unlink_from_owner k =
     bindM (getsM (\<lambda>s. nfts s k)) (\<lambda>nft. case nft of
       None \<Rightarrow> returnM ()
     | Some info \<Rightarrow> (case nft_owner info of
         AccountId _ \<Rightarrow> returnM ()
       | CollectionAndNftTuple c n \<Rightarrow> remove_child (c, n) k))"

definition decrement_nfts_count :: "collection_id \<Rightarrow> ('a, 'x, 'z, unit) core_action" where
  "decrement_nfts_count c =
     bindM (get_okM (\<lambda>s. collections s c) (CoreError CollectionUnknown)) (\<lambda>col.
     modifyM (\<lambda>s. s\<lparr>collections := (collections s)
       (c \<mapsto> col\<lparr>nfts_count := saturating_dec (nfts_count col)\<rparr>)\<rparr>))"

text \<open>
  \<^verbatim>\<open>for (child, _) in Children::drain_prefix(parent) { body(child)? }\<close>. The iterator looks for the
  next key only when the loop asks for it and removes it before the body runs, so a child that
  the body of an earlier one removed is skipped.
\<close>

primrec drain_children ::
  "(nft \<Rightarrow> ('a, 'x, 'z, unit) core_action) \<Rightarrow> nft \<Rightarrow> nft list \<Rightarrow> ('a, 'x, 'z, unit) core_action" where
  "drain_children body parent [] = returnM ()"
| "drain_children body parent (k # ks) =
     bindM (getsM (\<lambda>s. k \<in> set (children s parent))) (\<lambda>present.
     seqM (if present then seqM (remove_child parent k) (body k) else returnM ())
     (drain_children body parent ks))"

text \<open>
  The recursion of \<^verbatim>\<open>nft_burn\<close> is on \<^verbatim>\<open>max_recursions\<close>, a 32-bit number that every level lowers
  by one; a level at zero fails.
\<close>

primrec nft_burn_rec ::
  "('a, 'l, 'x) env \<Rightarrow> nat \<Rightarrow> nft \<Rightarrow> ('a, 'x, 'z, unit) core_action" where
  "nft_burn_rec E 0 k = failM (CoreError TooManyRecursions)"
| "nft_burn_rec E (Suc d) k =
     seqM (unlink_from_owner k)
     (seqM (modifyM (\<lambda>s. s\<lparr>nfts := (nfts s)(k := None)\<rparr>))
     (seqM (modifyM (\<lambda>s. s\<lparr>resources := remove_prefix k (resources s)\<rparr>))
     (seqM (bindM (getsM (\<lambda>s. iter_order E (children s k))) (drain_children (nft_burn_rec E d) k))
     (decrement_nfts_count (fst k)))))"

definition nft_burn :: "('a, 'l, 'x) env \<Rightarrow> nft \<Rightarrow> u32 \<Rightarrow> ('a, 'x, 'z, nft) core_action" where
  "nft_burn E k max_recs = seqM (nft_burn_rec E (unat max_recs) k) (returnM k)"

section \<open>Sending, accepting, rejecting\<close>

text \<open>
  The checks \<^verbatim>\<open>nft_send\<close> and \<^verbatim>\<open>nft_accept\<close> make on an NFT as the new owner: it exists, it is not
  the NFT itself, and it is not nested below it.
\<close>

definition check_nft_target ::
  "('a, 'l, 'x) env \<Rightarrow> nft \<Rightarrow> nft \<Rightarrow> ('a, 'x, 'z, unit) core_action" where
  "check_nft_target E k target =
     bindM (getsM (\<lambda>s. nfts s target \<noteq> None)) (\<lambda>known.
     seqM (ensureM known (CoreError NoAvailableNftId))
     (seqM (ensureM (k \<noteq> target) (CoreError CannotSendToDescendentOrSelf))
     (bindM (descendentM E target k) (\<lambda>nested.
     ensureM (\<not> nested) (CoreError CannotSendToDescendentOrSelf)))))"

definition to_virtual_account ::
  "('a, 'l, 'x) env \<Rightarrow> nft \<Rightarrow> ('s, dispatch_error, 'a) action" where
  "to_virtual_account E k = ok_orM (nft_to_account_id E k) Panic"

text \<open>The \<^verbatim>\<open>match new_owner.clone()\<close> of \<^verbatim>\<open>nft_send\<close>: the new owner's account, and whether the
  transfer needs approval.\<close>

definition send_target ::
  "('a, 'l, 'x) env \<Rightarrow> nft \<Rightarrow> 'a \<Rightarrow> 'a account_id_or_nft \<Rightarrow> ('a, 'x, 'z, 'a \<times> bool) core_action" where
  "send_target E k root_owner new_owner = (case new_owner of
       AccountId a \<Rightarrow> returnM (a, False)
     | CollectionAndNftTuple cid nid \<Rightarrow>
         seqM (check_nft_target E k (cid, nid))
         (bindM (root_ownerM E (cid, nid)) (\<lambda>(recipient_root_owner, _).
         bindM (to_virtual_account E (cid, nid)) (\<lambda>acc.
         returnM (acc, recipient_root_owner \<noteq> root_owner)))))"

text \<open>Moving an NFT between the children of the NFTs two accounts stand for, if they do.\<close>

definition move_child ::
  "('a, 'l, 'x) env \<Rightarrow> nft \<Rightarrow> 'a \<Rightarrow> 'a \<Rightarrow> ('a, 'x, 'z, unit) core_action" where
  "move_child E k current_owner new_owner_account =
     seqM (case decode_nft_account_id E current_owner of
         None \<Rightarrow> returnM () | Some p \<Rightarrow> remove_child p k)
     (case decode_nft_account_id E new_owner_account of
         None \<Rightarrow> returnM () | Some p \<Rightarrow> add_child p k)"

text \<open>
  The write of \<^verbatim>\<open>nft_send\<close>: a transfer that needs approval only sets the pending flag of the stored
  record; otherwise the record with the new owner is stored.
\<close>

definition store_sent ::
  "nft \<Rightarrow> 'a nft_info \<Rightarrow> 'a account_id_or_nft \<Rightarrow> bool \<Rightarrow> ('a, 'x, 'z, unit) core_action" where
  "store_sent k sending_nft new_owner approval_required =
     (if approval_required
      then modifyM (\<lambda>s. s\<lparr>nfts := mutate_exists k (\<lambda>nft. nft\<lparr>nft_pending := True\<rparr>) (nfts s)\<rparr>)
      else modifyM (\<lambda>s. s\<lparr>nfts := (nfts s)(k \<mapsto> sending_nft\<lparr>nft_owner := new_owner\<rparr>)\<rparr>))"

definition nft_send ::
  "('a, 'l, 'x) env \<Rightarrow> 'a \<Rightarrow> nft \<Rightarrow> 'a account_id_or_nft \<Rightarrow> ('a, 'x, 'z, 'a \<times> bool) core_action" where
  "nft_send E sender k new_owner =
     bindM (get_okM (\<lambda>s. uq_owner E (ext s) k) (CoreError NoAvailableNftId)) (\<lambda>current_owner.
     bindM (root_ownerM E k) (\<lambda>(root_owner, _).
     seqM (ensureM (sender = root_owner) (CoreError NoPermission))
     (bindM (get_okM (\<lambda>s. nfts s k) (CoreError NoAvailableNftId)) (\<lambda>sending_nft.
     seqM (check_is_transferable sending_nft)
     (seqM (check_is_not_equipped sending_nft)
     (bindM (send_target E k root_owner new_owner) (\<lambda>(new_owner_account, approval_required).
     seqM (store_sent k sending_nft new_owner approval_required)
     (seqM (move_child E k current_owner new_owner_account)
     (returnM (new_owner_account, approval_required))))))))))"

definition nft_accept ::
  "('a, 'l, 'x) env \<Rightarrow> 'a \<Rightarrow> nft \<Rightarrow> 'a account_id_or_nft \<Rightarrow> ('a, 'x, 'z, 'a \<times> nft) core_action" where
  "nft_accept E sender k new_owner =
     bindM (root_ownerM E k) (\<lambda>(root_owner, _).
     seqM (ensureM (sender = root_owner) (CoreError NoPermission))
     (bindM (get_okM (\<lambda>s. nfts s k) (CoreError NoAvailableNftId)) (\<lambda>_.
     bindM (case new_owner of
         AccountId a \<Rightarrow> returnM a
       | CollectionAndNftTuple cid nid \<Rightarrow>
           seqM (check_nft_target E k (cid, nid))
           (bindM (root_ownerM E (cid, nid)) (\<lambda>(recipient_root_owner, _).
           seqM (ensureM (recipient_root_owner = root_owner) (CoreError CannotAcceptNonOwnedNft))
           (to_virtual_account E (cid, nid))))) (\<lambda>new_owner_account.
     seqM (modifyM (\<lambda>s. s\<lparr>nfts :=
         mutate_exists k (\<lambda>nft. nft\<lparr>nft_pending := False\<rparr>) (nfts s)\<rparr>))
     (returnM (new_owner_account, k))))))"

text \<open>
  Removing an NFT from the children of the NFT its account in \<^verbatim>\<open>pallet_uniques\<close> stands for.
\<close>

definition unlink_from_account :: "('a, 'l, 'x) env \<Rightarrow> nft \<Rightarrow> ('a, 'x, 'z, unit) core_action" where
  "unlink_from_account E k =
     bindM (getsM (\<lambda>s. uq_owner E (ext s) k)) (\<lambda>owner. case owner of
       None \<Rightarrow> returnM ()
     | Some parent_account_id \<Rightarrow> (case decode_nft_account_id E parent_account_id of
         None \<Rightarrow> returnM () | Some parent \<Rightarrow> remove_child parent k))"

definition nft_reject ::
  "('a, 'l, 'x) env \<Rightarrow> 'a \<Rightarrow> nft \<Rightarrow> u32 \<Rightarrow> ('a, 'x, 'z, 'a \<times> nft) core_action" where
  "nft_reject E sender k max_recs =
     bindM (root_ownerM E k) (\<lambda>(root_owner, _).
     bindM (get_okM (\<lambda>s. nfts s k) (CoreError NoAvailableNftId)) (\<lambda>nft.
     seqM (ensureM (nft_pending nft) (CoreError CannotRejectNonPendingNft))
     (seqM (ensureM (sender = root_owner) (CoreError CannotRejectNonOwnedNft))
     (seqM (unlink_from_account E k)
     (bindM (get_okM (\<lambda>s. nfts s k) (CoreError NoAvailableNftId)) (\<lambda>_.
     seqM (nft_burn E k max_recs)
     (returnM (sender, k))))))))"

section \<open>What a successful operation does\<close>

lemma success_ensure_not_full [success]:
  "ensure_not_full col n s = Some (Inr u, s') \<longleftrightarrow> (\<forall>mx. col_max col = Some mx \<longrightarrow> n < mx) \<and> s' = s"
  by (auto simp: ensure_not_full_def success split: option.splits)

lemma success_increment_nfts_count [success]:
  "increment_nfts_count col c s = Some (Inr u, s') \<longleftrightarrow>
     nfts_count col \<noteq> - 1 \<and> (\<exists>col'. collections s c = Some col' \<and>
       s' = s\<lparr>collections := (collections s)(c \<mapsto> col'\<lparr>nfts_count := nfts_count col + 1\<rparr>)\<rparr>)"
  by (auto simp: increment_nfts_count_def success)

lemma success_nft_mint [success]:
  "nft_mint a owner c rcp am md tr s = Some (Inr k, s') \<longleftrightarrow>
     k = (c, next_nft_id s c) \<and> snd k \<noteq> - 1 \<and>
     (\<exists>col. collections s c = Some col \<and> (\<forall>mx. col_max col = Some mx \<longrightarrow> snd k < mx) \<and>
       nfts_count col \<noteq> - 1 \<and>
       s' = s\<lparr>next_nft_id := (next_nft_id s)(c := snd k + 1),
              collections := (collections s)(c \<mapsto> col\<lparr>nfts_count := nfts_count col + 1\<rparr>),
              nfts := (nfts s)(k \<mapsto> \<lparr>nft_owner = AccountId owner, royalty = mint_royalty a rcp am,
                nft_metadata = md, equipped = False, nft_pending = (owner \<noteq> a),
                transferable = tr\<rparr>)\<rparr>)"
  by (cases k) (auto simp: nft_mint_def success)

lemma success_nft_mint_directly [success]:
  "nft_mint_directly_to_nft E a p c rcp am md tr s = Some (Inr k, s') \<longleftrightarrow>
     k = (c, next_nft_id s c) \<and> snd k \<noteq> - 1 \<and>
     (\<exists>col owner root. collections s c = Some col \<and>
       (\<forall>mx. col_max col = Some mx \<longrightarrow> snd k < mx) \<and> nfts_count col \<noteq> - 1 \<and>
       lookup_root_owner E (ext s) p = Some (Inr (owner, root)) \<and>
       s' = s\<lparr>next_nft_id := (next_nft_id s)(c := snd k + 1),
              collections := (collections s)(c \<mapsto> col\<lparr>nfts_count := nfts_count col + 1\<rparr>),
              nfts := (nfts s)(k \<mapsto> \<lparr>nft_owner = CollectionAndNftTuple (fst p) (snd p),
                royalty = mint_royalty owner rcp am, nft_metadata = md, equipped = False,
                nft_pending = (owner \<noteq> a), transferable = tr\<rparr>)\<rparr>)"
  by (cases k) (auto simp: nft_mint_directly_to_nft_def success)

lemma success_decrement [success]:
  "decrement_nfts_count c s = Some (Inr u, s') \<longleftrightarrow> (\<exists>col. collections s c = Some col \<and>
     s' = s\<lparr>collections := (collections s)
       (c \<mapsto> col\<lparr>nfts_count := saturating_dec (nfts_count col)\<rparr>)\<rparr>)"
  by (auto simp: decrement_nfts_count_def success)

lemma success_nft_burn [success]:
  "nft_burn E k m s = Some (Inr k', s') \<longleftrightarrow>
    k' = k \<and> nft_burn_rec E (unat m) k s = Some (Inr (), s')"
  by (auto simp: nft_burn_def success)

lemma success_to_virtual_account [success]:
  "to_virtual_account E k s = Some (Inr a, s') \<longleftrightarrow> nft_to_account_id E k = Some a \<and> s' = s"
  by (auto simp: to_virtual_account_def success)

lemma success_check_nft_target [success]:
  "check_nft_target E k t s = Some (Inr u, s') \<longleftrightarrow>
     nfts s t \<noteq> None \<and> k \<noteq> t \<and> is_x_descendent_of_y E (ext s) t k = Some (Inr False) \<and> s' = s"
  by (auto simp: check_nft_target_def success)

lemma success_send_target_account [success]:
  "send_target E k root (AccountId a) s = Some (Inr r, s') \<longleftrightarrow> r = (a, False) \<and> s' = s"
  by (auto simp: send_target_def success)

lemma success_send_target_nft [success]:
  "send_target E k root (CollectionAndNftTuple c n) s = Some (Inr r, s') \<longleftrightarrow>
     nfts s (c, n) \<noteq> None \<and> k \<noteq> (c, n) \<and> is_x_descendent_of_y E (ext s) (c, n) k = Some (Inr False) \<and>
     (\<exists>owner t acc. lookup_root_owner E (ext s) (c, n) = Some (Inr (owner, t)) \<and>
       nft_to_account_id E (c, n) = Some acc \<and> r = (acc, owner \<noteq> root)) \<and> s' = s"
  by (auto simp: send_target_def success split: prod.splits)

text \<open>The children after an NFT moved.\<close>

definition moved_children ::
  "('a, 'l, 'x) env \<Rightarrow> nft \<Rightarrow> 'a \<Rightarrow> 'a \<Rightarrow> (nft \<Rightarrow> nft list) \<Rightarrow> (nft \<Rightarrow> nft list)" where
  "moved_children E k from to ch =
     (let ch1 = (case decode_nft_account_id E from of None \<Rightarrow> ch
            | Some p \<Rightarrow> ch(p := removeAll k (ch p)))
      in case decode_nft_account_id E to of None \<Rightarrow> ch1
           | Some p \<Rightarrow> ch1(p := List.insert k (ch1 p)))"

lemma run_move_child [run_simps]:
  "move_child E k from to s = Some (Inr (), s\<lparr>children := moved_children E k from to (children s)\<rparr>)"
  by (auto simp: move_child_def moved_children_def run_simps Let_def split: option.splits)

lemma success_move_child [success]:
  "move_child E k from to s = Some (Inr u, s') \<longleftrightarrow>
    s' = s\<lparr>children := moved_children E k from to (children s)\<rparr>"
  by (auto simp: run_simps)

text \<open>The record of an NFT that was sent.\<close>

definition sent_record :: "'a account_id_or_nft \<Rightarrow> bool \<Rightarrow> 'a nft_info \<Rightarrow> 'a nft_info" where
  "sent_record new_owner ask nft =
     (if ask then nft\<lparr>nft_pending := True\<rparr> else nft\<lparr>nft_owner := new_owner\<rparr>)"

lemma success_store_sent:
  "nfts s k = Some nft \<Longrightarrow> store_sent k nft new_owner ask s = Some (Inr u, s') \<longleftrightarrow>
    s' = s\<lparr>nfts := (nfts s)(k \<mapsto> sent_record new_owner ask nft)\<rparr>"
  by (auto simp: store_sent_def sent_record_def success mutate_exists_def)

lemma send_target_state:
  "send_target E k root new_owner s = Some (Inr r, t) \<Longrightarrow> t = s"
  by (cases new_owner) (auto simp: success)

lemma nft_send_success:
  assumes "nft_send E a k new_owner s = Some (Inr (acc, ask), s')"
  obtains cur root nft where "uq_owner E (ext s) k = Some cur"
    "lookup_root_owner E (ext s) k = Some (Inr (a, root))"
    "nfts s k = Some nft" "transferable nft" "\<not> equipped nft"
    "send_target E k a new_owner s = Some (Inr (acc, ask), s)"
    "s' = s\<lparr>nfts := (nfts s)(k \<mapsto> sent_record new_owner ask nft),
           children := moved_children E k cur acc (children s)\<rparr>"
proof -
  obtain cur root nft t u where run: "uq_owner E (ext s) k = Some cur"
      "lookup_root_owner E (ext s) k = Some (Inr (a, root))"
      "nfts s k = Some nft" "transferable nft" "\<not> equipped nft"
      "send_target E k a new_owner s = Some (Inr (acc, ask), t)"
      "store_sent k nft new_owner ask t = Some (Inr (), u)"
      "s' = u\<lparr>children := moved_children E k cur acc (children u)\<rparr>"
    using assms by (auto simp: nft_send_def success)
  have "t = s" by (rule send_target_state[OF run(6)])
  with run show ?thesis by (intro that) (simp_all add: success_store_sent)
qed

lemma nft_send_succeeds:
  assumes "uq_owner E (ext s) k = Some cur"
    "lookup_root_owner E (ext s) k = Some (Inr (a, root))"
    "nfts s k = Some nft" "transferable nft" "\<not> equipped nft"
    "send_target E k a new_owner s = Some (Inr (acc, ask), s)"
  shows "nft_send E a k new_owner s = Some (Inr (acc, ask),
    s\<lparr>nfts := (nfts s)(k \<mapsto> sent_record new_owner ask nft),
      children := moved_children E k cur acc (children s)\<rparr>)"
  using assms unfolding nft_send_def success split_paired_Ex prod.case
  by (auto simp: success_store_sent)

text \<open>The storage after an NFT left the children of its direct owner.\<close>

definition unlinked :: "('a, 'l, 'x) env \<Rightarrow> nft \<Rightarrow> ('a, 'x, 'z) core_state_scheme \<Rightarrow>
    ('a, 'x, 'z) core_state_scheme" where
  "unlinked E k s = (case nft_parent E (ext s) k of None \<Rightarrow> s
     | Some p \<Rightarrow> s\<lparr>children := (children s)(p := removeAll k (children s p))\<rparr>)"

lemma run_unlink_from_account [run_simps]:
  "unlink_from_account E k s = Some (Inr (), unlinked E k s)"
  by (auto simp: unlink_from_account_def unlinked_def nft_parent_def run_simps split: option.splits)

lemma success_unlink_from_account [success]:
  "unlink_from_account E k s = Some (Inr u, s') \<longleftrightarrow> s' = unlinked E k s"
  by (auto simp: run_simps)

lemma unlinked_frame [simp]:
  "nfts (unlinked E k s) = nfts s" "ext (unlinked E k s) = ext s"
  "collections (unlinked E k s) = collections s" "resources (unlinked E k s) = resources s"
  "events (unlinked E k s) = events s" "lock (unlinked E k s) = lock s"
  by (simp_all add: unlinked_def split: option.split)

lemma success_nft_reject [success]:
  "nft_reject E a k m s = Some (Inr (a', k'), s') \<longleftrightarrow>
     a' = a \<and> k' = k \<and>
     (\<exists>root nft. lookup_root_owner E (ext s) k = Some (Inr (a, root)) \<and>
       nfts s k = Some nft \<and> nft_pending nft \<and>
       nft_burn_rec E (unat m) k (unlinked E k s) = Some (Inr (), s'))"
  by (auto simp: nft_reject_def success split: prod.splits)

lemma success_nft_accept [success]:
  "nft_accept E a k new_owner s = Some (Inr (acc, k'), s') \<longleftrightarrow>
     k' = k \<and> (\<exists>root nft. lookup_root_owner E (ext s) k = Some (Inr (a, root)) \<and>
       nfts s k = Some nft \<and> send_target E k a new_owner s = Some (Inr (acc, False), s) \<and>
       s' = s\<lparr>nfts := (nfts s)(k \<mapsto> nft\<lparr>nft_pending := False\<rparr>)\<rparr>)"
  by (cases new_owner)
    (auto simp: nft_accept_def success mutate_exists_def split: prod.splits option.splits)

end
