(* ===== verification/Resources.thy ===== *)
theory Resources
  imports Core_Storage
begin

text \<open>
  The \<^verbatim>\<open>Priority\<close>, \<^verbatim>\<open>Property\<close> and \<^verbatim>\<open>Resource\<close> implementations of rmrk-core
  (\<^verbatim>\<open>functions.rs\<close>): the priorities of an NFT's resources, the properties of a collection or an
  NFT, and the life of a resource (added, accepted, asked to be removed, removed).
\<close>

section \<open>Priorities\<close>

text \<open>The loop of \<^verbatim>\<open>priority_set\<close> with its running index.\<close>

primrec insert_priorities ::
  "nft \<Rightarrow> resource_id list \<Rightarrow> u32 \<Rightarrow> ('a, 'x, 'z, unit) core_action" where
  "insert_priorities k [] priority_index = returnM ()"
| "insert_priorities k (r # rs) priority_index =
     seqM (modifyM (\<lambda>s. s\<lparr>priorities := (priorities s)((k, r) \<mapsto> priority_index)\<rparr>))
     (insert_priorities k rs (priority_index + 1))"

definition priority_set ::
  "('a, 'l, 'x) env \<Rightarrow> 'a \<Rightarrow> nft \<Rightarrow> resource_id list \<Rightarrow> ('a, 'x, 'z, unit) core_action" where
  "priority_set E sender k prios =
     bindM (root_ownerM E k) (\<lambda>(root_owner, _).
     seqM (ensureM (sender = root_owner) (CoreError NoPermission))
     (seqM (ensure_unlocked k)
     (seqM (modifyM (\<lambda>s. s\<lparr>priorities := remove_prefix k (priorities s)\<rparr>))
     (seqM (insert_priorities k prios 0)
     (deposit_event (CoreEvent (PrioritySet (fst k) (snd k))))))))"

section \<open>Properties\<close>

definition property_set ::
  "('a, 'l, 'x) env \<Rightarrow> 'a \<Rightarrow> collection_id \<Rightarrow> nft_id option \<Rightarrow> bytes \<Rightarrow> bytes \<Rightarrow>
    ('a, 'x, 'z, unit) core_action" where
  "property_set E sender c maybe_nft_id key val =
     bindM (get_okM (\<lambda>s. collections s c) (CoreError CollectionUnknown)) (\<lambda>collection.
     seqM (ensureM (col_issuer collection = sender) (CoreError NoPermission))
     (seqM (case maybe_nft_id of
         None \<Rightarrow> returnM ()
       | Some n \<Rightarrow>
           seqM (ensure_unlocked (c, n))
           (bindM (root_ownerM E (c, n)) (\<lambda>(root_owner, _).
           ensureM (root_owner = col_issuer collection) (CoreError NoPermission))))
     (modifyM (\<lambda>s. s\<lparr>properties := (properties s)((c, maybe_nft_id, key) \<mapsto> val)\<rparr>))))"

section \<open>Resources\<close>

text \<open>The \<^verbatim>\<open>match\<close> of \<^verbatim>\<open>resource_add\<close> that records where a resource can be equipped.\<close>

definition register_equippable ::
  "nft \<Rightarrow> resource_id \<Rightarrow> resource_types \<Rightarrow> ('a, 'x, 'z, unit) core_action" where
  "register_equippable k r res = (case res of
       Basic _ \<Rightarrow> returnM ()
     | Composable cr \<Rightarrow>
         seqM (modifyM (\<lambda>s. s\<lparr>equippable_bases :=
           (equippable_bases s)((k, composable_base cr) \<mapsto> ())\<rparr>))
         (case composable_slot cr of
            None \<Rightarrow> returnM ()
          | Some (base, slot) \<Rightarrow> modifyM (\<lambda>s. s\<lparr>equippable_slots :=
              (equippable_slots s)((k, r, base, slot) \<mapsto> ())\<rparr>))
     | Slot sr \<Rightarrow> modifyM (\<lambda>s. s\<lparr>equippable_slots :=
         (equippable_slots s)((k, r, slot_base sr, slot_slot sr) \<mapsto> ())\<rparr>))"

definition resource_add ::
  "('a, 'l, 'x) env \<Rightarrow> 'a \<Rightarrow> nft \<Rightarrow> resource_types \<Rightarrow> bool \<Rightarrow>
    ('a, 'x, 'z, resource_id) core_action" where
  "resource_add E sender k res adding_on_mint =
     bindM (get_okM (\<lambda>s. collections s (fst k)) (CoreError CollectionUnknown)) (\<lambda>collection.
     bindM (get_next_resource_id k) (\<lambda>rid.
     seqM (ensureM (col_issuer collection = sender) (CoreError NoPermission))
     (bindM (root_ownerM E k) (\<lambda>(root_owner, _).
     seqM (ensure_unlocked k)
     (seqM (register_equippable k rid res)
     (seqM (modifyM (\<lambda>s. s\<lparr>resources := (resources s)((k, rid) \<mapsto>
         \<lparr>res_id = rid, resource = res, res_pending = (root_owner \<noteq> sender \<and> \<not> adding_on_mint),
          pending_removal = False\<rparr>)\<rparr>))
     (returnM rid)))))))"

text \<open>The trait function \<^verbatim>\<open>accept\<close>; the extrinsic \<^verbatim>\<open>accept_resource\<close> does not call it.\<close>

definition accept ::
  "('a, 'l, 'x) env \<Rightarrow> 'a \<Rightarrow> nft \<Rightarrow> resource_id \<Rightarrow> ('a, 'x, 'z, unit) core_action" where
  "accept E sender k r =
     bindM (root_ownerM E k) (\<lambda>(root_owner, _).
     seqM (ensureM (root_owner = sender) (CoreError NoPermission))
     (seqM (ensure_unlocked k)
     (seqM (modifyM (\<lambda>s. s\<lparr>resources :=
         mutate_exists (k, r) (\<lambda>res. res\<lparr>res_pending := False\<rparr>) (resources s)\<rparr>))
     (deposit_event (CoreEvent (ResourceAccepted (snd k) r))))))"

definition resource_remove ::
  "('a, 'l, 'x) env \<Rightarrow> 'a \<Rightarrow> nft \<Rightarrow> resource_id \<Rightarrow> ('a, 'x, 'z, unit) core_action" where
  "resource_remove E sender k r =
     bindM (get_okM (\<lambda>s. collections s (fst k)) (CoreError CollectionUnknown)) (\<lambda>collection.
     bindM (root_ownerM E k) (\<lambda>(root_owner, _).
     seqM (ensureM (col_issuer collection = sender) (CoreError NoPermission))
     (bindM (getsM (\<lambda>s. resources s (k, r) \<noteq> None)) (\<lambda>known.
     seqM (ensureM known (CoreError ResourceDoesntExist))
     (if root_owner = sender
      then modifyM (\<lambda>s. s\<lparr>resources := (resources s)((k, r) := None)\<rparr>)
      else modifyM (\<lambda>s. s\<lparr>resources :=
         mutate_exists (k, r) (\<lambda>res. res\<lparr>pending_removal := True\<rparr>) (resources s)\<rparr>))))))"

definition accept_removal ::
  "('a, 'l, 'x) env \<Rightarrow> 'a \<Rightarrow> nft \<Rightarrow> resource_id \<Rightarrow> ('a, 'x, 'z, unit) core_action" where
  "accept_removal E sender k r =
     bindM (root_ownerM E k) (\<lambda>(root_owner, _).
     seqM (ensureM (root_owner = sender) (CoreError NoPermission))
     (bindM (get_okM (\<lambda>s. resources s (k, r)) (CoreError ResourceDoesntExist)) (\<lambda>res.
     seqM (ensureM (pending_removal res) (CoreError ResourceNotPending))
     (modifyM (\<lambda>s. s\<lparr>resources := (resources s)((k, r) := None)\<rparr>)))))"

section \<open>What a successful operation does\<close>

text \<open>The priorities a list of resources gets: the index of its last occurrence.\<close>

primrec priority_map ::
  "nft \<Rightarrow> resource_id list \<Rightarrow> u32 \<Rightarrow> (nft \<times> resource_id \<rightharpoonup> u32) \<Rightarrow> (nft \<times> resource_id \<rightharpoonup> u32)" where
  "priority_map k [] i m = m"
| "priority_map k (r # rs) i m = priority_map k rs (i + 1) (m((k, r) \<mapsto> i))"

lemma priority_map_other:
  "x \<notin> {(k, r) | r. r \<in> set rs} \<Longrightarrow> priority_map k rs i m x = m x"
  by (induction rs arbitrary: i m) auto

lemma run_insert_priorities [run_simps]:
  "insert_priorities k rs i s = Some (Inr (), s\<lparr>priorities := priority_map k rs i (priorities s)\<rparr>)"
  by (induction rs arbitrary: i s) (simp_all add: run_simps)

lemma success_insert_priorities [success]:
  "insert_priorities k rs i s = Some (Inr u, s') \<longleftrightarrow>
    s' = s\<lparr>priorities := priority_map k rs i (priorities s)\<rparr>"
  by (auto simp: run_simps)

lemma success_priority_set [success]:
  "priority_set E a k rs s = Some (Inr u, s') \<longleftrightarrow>
     (\<exists>r. lookup_root_owner E (ext s) k = Some (Inr (a, r))) \<and> \<not> lock s k \<and>
     s' = s\<lparr>priorities := priority_map k rs 0 (remove_prefix k (priorities s)),
            events := events s @ [CoreEvent (PrioritySet (fst k) (snd k))]\<rparr>"
  by (auto simp: priority_set_def success split: prod.splits)

lemma success_property_set [success]:
  "property_set E a c n key val s = Some (Inr u, s') \<longleftrightarrow>
     (\<exists>col. collections s c = Some col \<and> col_issuer col = a) \<and>
     (\<forall>i. n = Some i \<longrightarrow> \<not> lock s (c, i) \<and>
        (\<exists>r. lookup_root_owner E (ext s) (c, i) = Some (Inr (a, r)))) \<and>
     s' = s\<lparr>properties := (properties s)((c, n, key) \<mapsto> val)\<rparr>"
  by (cases n) (auto simp: property_set_def success split: prod.splits)

text \<open>The equippable slots and bases a resource brings.\<close>

definition resource_bases :: "resource_types \<Rightarrow> base_id list" where
  "resource_bases res = (case res of Composable cr \<Rightarrow> [composable_base cr] | _ \<Rightarrow> [])"

definition resource_slots :: "resource_types \<Rightarrow> (base_id \<times> slot_id) list" where
  "resource_slots res = (case res of
       Basic _ \<Rightarrow> []
     | Composable cr \<Rightarrow> (case composable_slot cr of None \<Rightarrow> [] | Some bs \<Rightarrow> [bs])
     | Slot sr \<Rightarrow> [(slot_base sr, slot_slot sr)])"

lemma success_register_equippable [success]:
  "register_equippable k r res s = Some (Inr u, s') \<longleftrightarrow>
     s' = s\<lparr>equippable_bases := fold (\<lambda>b m. m((k, b) \<mapsto> ())) (resource_bases res) (equippable_bases s),
            equippable_slots := fold (\<lambda>(b, sl) m. m((k, r, b, sl) \<mapsto> ())) (resource_slots res)
              (equippable_slots s)\<rparr>"
  by (auto simp: register_equippable_def resource_bases_def resource_slots_def success
      split: resource_types.splits option.splits)

lemma keeps_register_equippable [keeps_intros]:
  "(\<And>s b. I s \<Longrightarrow> I (s\<lparr>equippable_bases := b\<rparr>)) \<Longrightarrow>
   (\<And>s b. I s \<Longrightarrow> I (s\<lparr>equippable_slots := b\<rparr>)) \<Longrightarrow> keeps I (register_equippable k r res)"
  unfolding register_equippable_def
  by (auto intro!: keeps_intros split: resource_types.split option.split)

lemma success_resource_add [success]:
  "resource_add E a k res on_mint s = Some (Inr r, s') \<longleftrightarrow>
     (\<exists>col owner root t.
        collections s (fst k) = Some col \<and> col_issuer col = a \<and>
        r = next_resource_id s k \<and> r \<noteq> - 1 \<and>
        lookup_root_owner E (ext s) k = Some (Inr (owner, root)) \<and> \<not> lock s k \<and>
        register_equippable k r res (s\<lparr>next_resource_id := (next_resource_id s)(k := r + 1)\<rparr>)
          = Some (Inr (), t) \<and>
        s' = t\<lparr>resources := (resources s)((k, r) \<mapsto>
          \<lparr>res_id = r, resource = res, res_pending = (owner \<noteq> a \<and> \<not> on_mint),
           pending_removal = False\<rparr>)\<rparr>)"
  by (auto simp: resource_add_def success split: prod.splits)

lemma success_accept [success]:
  "accept E a k r s = Some (Inr u, s') \<longleftrightarrow>
     (\<exists>root. lookup_root_owner E (ext s) k = Some (Inr (a, root))) \<and> \<not> lock s k \<and>
     s' = s\<lparr>resources := mutate_exists (k, r) (\<lambda>res. res\<lparr>res_pending := False\<rparr>) (resources s),
            events := events s @ [CoreEvent (ResourceAccepted (snd k) r)]\<rparr>"
  by (auto simp: accept_def success split: prod.splits)

lemma success_resource_remove [success]:
  "resource_remove E a k r s = Some (Inr u, s') \<longleftrightarrow>
     (\<exists>col owner root. collections s (fst k) = Some col \<and> col_issuer col = a \<and>
        lookup_root_owner E (ext s) k = Some (Inr (owner, root)) \<and> resources s (k, r) \<noteq> None \<and>
        s' = s\<lparr>resources := (if owner = a then (resources s)((k, r) := None)
          else mutate_exists (k, r) (\<lambda>res. res\<lparr>pending_removal := True\<rparr>) (resources s))\<rparr>)"
  by (auto simp: resource_remove_def success split: prod.splits if_splits)

lemma success_accept_removal [success]:
  "accept_removal E a k r s = Some (Inr u, s') \<longleftrightarrow>
     (\<exists>root. lookup_root_owner E (ext s) k = Some (Inr (a, root))) \<and>
     (\<exists>res. resources s (k, r) = Some res \<and> pending_removal res) \<and>
     s' = s\<lparr>resources := (resources s)((k, r) := None)\<rparr>"
  by (auto simp: accept_removal_def success split: prod.splits)

end
