(* ===== verification/Core_Calls.thy ===== *)
theory Core_Calls
  imports Collections Nfts Resources
begin

text \<open>
  The dispatchable functions of rmrk-core (\<^verbatim>\<open>lib.rs\<close>), each \<^verbatim>\<open>#[transactional]\<close>: they check the
  origin, run the operation on the RMRK storage, call \<^verbatim>\<open>pallet_uniques\<close> and deposit an event. The
  type of calls and \<open>core_dispatch\<close> put them behind one function.
\<close>

section \<open>Minting\<close>

text \<open>
  The check both mints make: the collection exists in \<^verbatim>\<open>pallet_uniques\<close> and the sender owns it there.
\<close>

definition ensure_collection_owner ::
  "('a, 'l, 'x) env \<Rightarrow> 'a \<Rightarrow> collection_id \<Rightarrow> ('a, 'x, 'z, unit) core_action" where
  "ensure_collection_owner E sender c =
     bindM (getsM (\<lambda>s. uq_collection_owner E (ext s) c)) (\<lambda>owner. case owner of
       Some collection_issuer \<Rightarrow> ensureM (collection_issuer = sender) (CoreError NoPermission)
     | None \<Rightarrow> failM (CoreError CollectionUnknown))"

text \<open>\<^verbatim>\<open>if let Some(resources) = resources { for res in resources { .. } }\<close>.\<close>

definition add_mint_resources ::
  "('a, 'l, 'x) env \<Rightarrow> 'a \<Rightarrow> nft \<Rightarrow> resource_types list option \<Rightarrow> ('a, 'x, 'z, unit) core_action" where
  "add_mint_resources E sender k ress = (case ress of
       None \<Rightarrow> returnM ()
     | Some rs \<Rightarrow> forM rs (\<lambda>res. seqM (resource_add E sender k res True) (returnM ())))"

definition mint_nft ::
  "('a, 'l, 'x) env \<Rightarrow> 'a raw_origin \<Rightarrow> 'a option \<Rightarrow> collection_id \<Rightarrow> 'a option \<Rightarrow> permill option \<Rightarrow>
    bytes \<Rightarrow> bool \<Rightarrow> resource_types list option \<Rightarrow> ('a, 'x, 'z, unit) core_action" where
  "mint_nft E org owner c royalty_recipient amount metadata transf ress = transactionalM (
     bindM (ensure_signed org) (\<lambda>sender.
     seqM (ensure_collection_owner E sender c)
     (let new_owner = (case owner of Some ow \<Rightarrow> ow | None \<Rightarrow> sender) in
     bindM (nft_mint sender new_owner c royalty_recipient amount metadata transf) (\<lambda>k.
     seqM (externalM (uq_do_mint E k new_owner))
     (seqM (add_mint_resources E sender k ress)
     (deposit_event (CoreEvent (NftMinted (AccountId new_owner) (fst k) (snd k)))))))))"

definition mint_nft_directly_to_nft ::
  "('a, 'l, 'x) env \<Rightarrow> 'a raw_origin \<Rightarrow> nft \<Rightarrow> collection_id \<Rightarrow> 'a option \<Rightarrow> permill option \<Rightarrow>
    bytes \<Rightarrow> bool \<Rightarrow> resource_types list option \<Rightarrow> ('a, 'x, 'z, unit) core_action" where
  "mint_nft_directly_to_nft E org owner c royalty_recipient amount metadata transf ress =
     transactionalM (
     bindM (ensure_signed org) (\<lambda>sender.
     seqM (ensure_collection_owner E sender c)
     (bindM (nft_mint_directly_to_nft E sender owner c royalty_recipient amount metadata transf)
       (\<lambda>k.
     bindM (to_virtual_account E owner) (\<lambda>uniques_owner.
     seqM (externalM (uq_do_mint E k uniques_owner))
     (seqM (add_mint_resources E sender k ress)
     (deposit_event (CoreEvent (NftMinted
       (CollectionAndNftTuple (fst owner) (snd owner)) (fst k) (snd k))))))))))"

section \<open>Collections\<close>

definition create_collection ::
  "('a, 'l, 'x) env \<Rightarrow> 'a raw_origin \<Rightarrow> bytes \<Rightarrow> u32 option \<Rightarrow> bytes \<Rightarrow>
    ('a, 'x, 'z, unit) core_action" where
  "create_collection E org metadata mx symbol = transactionalM (
     bindM (ensure_signed org) (\<lambda>sender.
     bindM (collection_create sender metadata mx symbol) (\<lambda>c.
     seqM (externalM (uq_do_create_collection E c sender sender (collection_deposit E) False))
     (deposit_event (CoreEvent (CollectionCreated sender c))))))"

definition destroy_collection ::
  "('a, 'l, 'x) env \<Rightarrow> 'a raw_origin \<Rightarrow> collection_id \<Rightarrow> ('a, 'x, 'z, unit) core_action" where
  "destroy_collection E org c = transactionalM (
     bindM (ensure_signed org) (\<lambda>sender.
     seqM (collection_burn sender c)
     (bindM (get_okM (\<lambda>s. uq_get_destroy_witness E (ext s) c) (CoreError NoWitness)) (\<lambda>witness.
     seqM (ensureM (witness_items witness = 0) (CoreError CollectionNotEmpty))
     (seqM (externalM (uq_do_destroy_collection E c witness (Some sender)))
     (deposit_event (CoreEvent (CollectionDestroyed sender c))))))))"

text \<open>\<^verbatim>\<open>T::Lookup::lookup(..)?\<close>.\<close>

definition lookupM :: "('a, 'l, 'x) env \<Rightarrow> 'l \<Rightarrow> ('s, dispatch_error, 'a) action" where
  "lookupM E l = (case account_lookup E l of Inl e \<Rightarrow> failM e | Inr a \<Rightarrow> returnM a)"

definition change_collection_issuer ::
  "('a, 'l, 'x) env \<Rightarrow> 'a raw_origin \<Rightarrow> collection_id \<Rightarrow> 'l \<Rightarrow> ('a, 'x, 'z, unit) core_action" where
  "change_collection_issuer E org c new_issuer = transactionalM (
     bindM (ensure_signed org) (\<lambda>sender.
     bindM (get_okM (\<lambda>s. collections s c) (CoreError CollectionUnknown)) (\<lambda>collection.
     seqM (ensureM (col_issuer collection = sender) (CoreError NoPermission))
     (bindM (lookupM E new_issuer) (\<lambda>new_owner.
     bindM (getsM (\<lambda>s. collections s c \<noteq> None)) (\<lambda>known.
     seqM (ensureM known (CoreError NoAvailableCollectionId))
     (bindM (collection_change_issuer c new_owner) (\<lambda>(new_owner', c').
     seqM (externalM (uq_transfer_ownership E org c' new_issuer))
     (deposit_event (CoreEvent (IssuerChanged sender new_owner' c')))))))))))"

definition lock_collection ::
  "'a raw_origin \<Rightarrow> collection_id \<Rightarrow> ('a, 'x, 'z, unit) core_action" where
  "lock_collection org c = transactionalM (
     bindM (ensure_signed org) (\<lambda>sender.
     bindM (collection_lock sender c) (\<lambda>c'.
     deposit_event (CoreEvent (CollectionLocked sender c')))))"

section \<open>Burning, sending, accepting, rejecting\<close>

definition burn_nft ::
  "('a, 'l, 'x) env \<Rightarrow> 'a raw_origin \<Rightarrow> nft \<Rightarrow> u32 \<Rightarrow> ('a, 'x, 'z, unit) core_action" where
  "burn_nft E org k max_burns = transactionalM (
     bindM (ensure_signed org) (\<lambda>sender.
     bindM (root_ownerM E k) (\<lambda>(root_owner, _).
     seqM (ensureM (sender = root_owner) (CoreError NoPermission))
     (bindM (nft_burn E k max_burns) (\<lambda>k'.
     seqM (externalM (uq_do_burn E (fst k, snd k')))
     (deposit_event (CoreEvent (NFTBurned sender (snd k')))))))))"

text \<open>
  \<^verbatim>\<open>pallet_uniques::do_transfer(..)\<close> with the \<^verbatim>\<open>Locker\<close> of rmrk-core.
\<close>

definition uniques_transfer ::
  "('a, 'l, 'x) env \<Rightarrow> nft \<Rightarrow> 'a \<Rightarrow> ('a, 'x, 'z, unit) core_action" where
  "uniques_transfer E k a =
     bindM (getsM (\<lambda>s. is_locked s)) (\<lambda>locker. externalM (uq_do_transfer E locker k a))"

definition send ::
  "('a, 'l, 'x) env \<Rightarrow> 'a raw_origin \<Rightarrow> nft \<Rightarrow> 'a account_id_or_nft \<Rightarrow>
    ('a, 'x, 'z, unit) core_action" where
  "send E org k new_owner = transactionalM (
     bindM (ensure_signed org) (\<lambda>sender.
     bindM (nft_send E sender k new_owner) (\<lambda>(new_owner_account, approval_required).
     seqM (uniques_transfer E k new_owner_account)
     (deposit_event (CoreEvent (NFTSent sender new_owner (fst k) (snd k) approval_required))))))"

definition accept_nft ::
  "('a, 'l, 'x) env \<Rightarrow> 'a raw_origin \<Rightarrow> nft \<Rightarrow> 'a account_id_or_nft \<Rightarrow>
    ('a, 'x, 'z, unit) core_action" where
  "accept_nft E org k new_owner = transactionalM (
     bindM (ensure_signed org) (\<lambda>sender.
     bindM (nft_accept E sender k new_owner) (\<lambda>(new_owner_account, k').
     seqM (uniques_transfer E k' new_owner_account)
     (deposit_event (CoreEvent (NFTAccepted sender new_owner (fst k') (snd k')))))))"

definition reject_nft ::
  "('a, 'l, 'x) env \<Rightarrow> 'a raw_origin \<Rightarrow> nft \<Rightarrow> ('a, 'x, 'z, unit) core_action" where
  "reject_nft E org k = transactionalM (
     bindM (ensure_signed org) (\<lambda>sender.
     bindM (nft_reject E sender k (max_recursions E)) (\<lambda>(sender', k').
     deposit_event (CoreEvent (NFTRejected sender' (fst k') (snd k'))))))"

section \<open>Properties, resources, priorities\<close>

definition set_property ::
  "('a, 'l, 'x) env \<Rightarrow> 'a raw_origin \<Rightarrow> collection_id \<Rightarrow> nft_id option \<Rightarrow> bytes \<Rightarrow> bytes \<Rightarrow>
    ('a, 'x, 'z, unit) core_action" where
  "set_property E org c maybe_nft_id key val = transactionalM (
     bindM (ensure_signed org) (\<lambda>sender.
     seqM (property_set E sender c maybe_nft_id key val)
     (deposit_event (CoreEvent (PropertySet c maybe_nft_id key val)))))"

definition add_resource ::
  "('a, 'l, 'x) env \<Rightarrow> 'a raw_origin \<Rightarrow> nft \<Rightarrow> resource_types \<Rightarrow> ('a, 'x, 'z, unit) core_action" where
  "add_resource E org k res = transactionalM (
     bindM (ensure_signed org) (\<lambda>sender.
     bindM (resource_add E sender k res False) (\<lambda>rid.
     deposit_event (CoreEvent (ResourceAdded (snd k) rid)))))"

definition add_basic_resource ::
  "('a, 'l, 'x) env \<Rightarrow> 'a raw_origin \<Rightarrow> nft \<Rightarrow> basic_resource \<Rightarrow> ('a, 'x, 'z, unit) core_action" where
  "add_basic_resource E org k res = add_resource E org k (Basic res)"

definition add_composable_resource ::
  "('a, 'l, 'x) env \<Rightarrow> 'a raw_origin \<Rightarrow> nft \<Rightarrow> composable_resource \<Rightarrow>
    ('a, 'x, 'z, unit) core_action" where
  "add_composable_resource E org k res = add_resource E org k (Composable res)"

definition add_slot_resource ::
  "('a, 'l, 'x) env \<Rightarrow> 'a raw_origin \<Rightarrow> nft \<Rightarrow> slot_resource \<Rightarrow> ('a, 'x, 'z, unit) core_action" where
  "add_slot_resource E org k res = add_resource E org k (Slot res)"

definition accept_resource ::
  "('a, 'l, 'x) env \<Rightarrow> 'a raw_origin \<Rightarrow> nft \<Rightarrow> resource_id \<Rightarrow> ('a, 'x, 'z, unit) core_action" where
  "accept_resource E org k r = transactionalM (
     bindM (ensure_signed org) (\<lambda>sender.
     bindM (get_okM (\<lambda>s. resources s (k, r)) (CoreError ResourceDoesntExist)) (\<lambda>res.
     bindM (root_ownerM E k) (\<lambda>(owner, _).
     seqM (ensureM (owner = sender) (CoreError NoPermission))
     (seqM (ensureM (res_pending res) (CoreError ResourceNotPending))
     (seqM (modifyM (\<lambda>s. s\<lparr>resources :=
         (resources s)((k, r) \<mapsto> res\<lparr>res_pending := False\<rparr>)\<rparr>))
     (deposit_event (CoreEvent (ResourceAccepted (snd k) r)))))))))"

definition remove_resource ::
  "('a, 'l, 'x) env \<Rightarrow> 'a raw_origin \<Rightarrow> nft \<Rightarrow> resource_id \<Rightarrow> ('a, 'x, 'z, unit) core_action" where
  "remove_resource E org k r = transactionalM (
     bindM (ensure_signed org) (\<lambda>sender.
     seqM (resource_remove E sender k r)
     (deposit_event (CoreEvent (ResourceRemoval (snd k) r)))))"

definition accept_resource_removal ::
  "('a, 'l, 'x) env \<Rightarrow> 'a raw_origin \<Rightarrow> nft \<Rightarrow> resource_id \<Rightarrow> ('a, 'x, 'z, unit) core_action" where
  "accept_resource_removal E org k r = transactionalM (
     bindM (ensure_signed org) (\<lambda>sender.
     seqM (accept_removal E sender k r)
     (deposit_event (CoreEvent (ResourceRemovalAccepted (snd k) r)))))"

definition set_priority ::
  "('a, 'l, 'x) env \<Rightarrow> 'a raw_origin \<Rightarrow> nft \<Rightarrow> resource_id list \<Rightarrow> ('a, 'x, 'z, unit) core_action" where
  "set_priority E org k prios = transactionalM (
     bindM (ensure_signed org) (\<lambda>sender.
     seqM (priority_set E sender k prios)
     (deposit_event (CoreEvent (PrioritySet (fst k) (snd k))))))"

section \<open>Calls\<close>

datatype (plugins only: code size) ('a, 'l) core_call =
    MintNft "'a option" collection_id "'a option" "permill option" bytes bool
      "resource_types list option"
  | MintNftDirectlyToNft nft collection_id "'a option" "permill option" bytes bool
      "resource_types list option"
  | CreateCollection bytes "u32 option" bytes
  | BurnNft nft u32
  | DestroyCollection collection_id
  | Send nft "'a account_id_or_nft"
  | AcceptNft nft "'a account_id_or_nft"
  | RejectNft nft
  | ChangeCollectionIssuer collection_id 'l
  | SetProperty collection_id "nft_id option" bytes bytes
  | LockCollection collection_id
  | AddBasicResource nft basic_resource
  | AddComposableResource nft composable_resource
  | AddSlotResource nft slot_resource
  | AcceptResource nft resource_id
  | RemoveResource nft resource_id
  | AcceptResourceRemoval nft resource_id
  | SetPriority nft "resource_id list"

fun core_dispatch ::
  "('a, 'l, 'x) env \<Rightarrow> 'a raw_origin \<Rightarrow> ('a, 'l) core_call \<Rightarrow> ('a, 'x, 'z, unit) core_action" where
  "core_dispatch E org (MintNft ow c rcp am md tr rs) = mint_nft E org ow c rcp am md tr rs"
| "core_dispatch E org (MintNftDirectlyToNft p c rcp am md tr rs) =
     mint_nft_directly_to_nft E org p c rcp am md tr rs"
| "core_dispatch E org (CreateCollection md mx sy) = create_collection E org md mx sy"
| "core_dispatch E org (BurnNft k m) = burn_nft E org k m"
| "core_dispatch E org (DestroyCollection c) = destroy_collection E org c"
| "core_dispatch E org (Send k ow) = send E org k ow"
| "core_dispatch E org (AcceptNft k ow) = accept_nft E org k ow"
| "core_dispatch E org (RejectNft k) = reject_nft E org k"
| "core_dispatch E org (ChangeCollectionIssuer c l) = change_collection_issuer E org c l"
| "core_dispatch E org (SetProperty c n key val) = set_property E org c n key val"
| "core_dispatch E org (LockCollection c) = lock_collection org c"
| "core_dispatch E org (AddBasicResource k r) = add_basic_resource E org k r"
| "core_dispatch E org (AddComposableResource k r) = add_composable_resource E org k r"
| "core_dispatch E org (AddSlotResource k r) = add_slot_resource E org k r"
| "core_dispatch E org (AcceptResource k r) = accept_resource E org k r"
| "core_dispatch E org (RemoveResource k r) = remove_resource E org k r"
| "core_dispatch E org (AcceptResourceRemoval k r) = accept_resource_removal E org k r"
| "core_dispatch E org (SetPriority k rs) = set_priority E org k rs"

text \<open>The unfolding of every call, for the proofs that go through all of them.\<close>

lemmas core_call_defs =
  mint_nft_def mint_nft_directly_to_nft_def create_collection_def destroy_collection_def
  change_collection_issuer_def lock_collection_def burn_nft_def send_def accept_nft_def
  reject_nft_def set_property_def add_resource_def add_basic_resource_def
  add_composable_resource_def add_slot_resource_def accept_resource_def remove_resource_def
  accept_resource_removal_def set_priority_def

text \<open>Every call of rmrk-core is transactional: a failing one leaves the storage as it was.\<close>

interpretation core: atomic_calls "\<lambda>(org, call). core_dispatch E org call"
  for E :: "('a, 'l, 'x) env"
proof unfold_locales
  fix c :: "'a raw_origin \<times> ('a, 'l) core_call" and s s' :: "('a, 'x, 'z) core_state_scheme" and e
  assume run: "(case c of (org, call) \<Rightarrow> core_dispatch E org call) s = Some (Inl e, s')"
  obtain org call where "c = (org, call)" by fastforce
  with run show "s' = s"
    by (cases call) (auto simp: core_call_defs transactional_error)
qed

end
