(* ===== verification/Equip.thy ===== *)
theory Equip
  imports Core_Calls "HOL-Library.AList"
begin

text \<open>
  rmrk-equip (\<^verbatim>\<open>lib.rs\<close> and \<^verbatim>\<open>functions.rs\<close>): bases with their parts and themes, and the slots
  of a base an NFT of rmrk-core equips with the resources of its children. The dispatchable
  functions are not \<^verbatim>\<open>#[transactional]\<close>; that a failing one still leaves no trace is the
  interpretation at the end.
\<close>

section \<open>The storage items\<close>

text \<open>
  \<open>themes\<close> gives, for a base and a theme name, the property keys and values under that prefix;
  the order carries no meaning.
\<close>

record ('a, 'x) equip_state = "('a, 'x) core_state" +
  bases :: "base_id \<rightharpoonup> 'a base_info"
  parts :: "base_id \<times> part_id \<rightharpoonup> part_type"
  next_base_id :: base_id
  next_part_id :: "base_id \<Rightarrow> part_id"
  equippings :: "nft \<times> base_id \<times> slot_id \<rightharpoonup> resource_id"
  themes :: "base_id \<times> bytes \<Rightarrow> (bytes \<times> bytes) list"

type_synonym ('a, 'x, 'z, 'r) equip_action =
  "(('a, 'x, 'z) equip_state_scheme, dispatch_error, 'r) action"

section \<open>Identifier counters\<close>

definition get_next_base_id :: "('a, 'x, 'z, base_id) equip_action" where
  "get_next_base_id =
     bindM (getsM next_base_id) (\<lambda>current_id.
     bindM (ok_orM (checked_add current_id 1) (EquipError NoAvailableBaseId)) (\<lambda>id.
     seqM (modifyM (\<lambda>s. s\<lparr>next_base_id := id\<rparr>))
     (returnM current_id)))"

definition get_next_part_id :: "base_id \<Rightarrow> ('a, 'x, 'z, part_id) equip_action" where
  "get_next_part_id b =
     bindM (getsM (\<lambda>s. next_part_id s b)) (\<lambda>current_id.
     bindM (ok_orM (checked_add current_id 1) (EquipError NoAvailablePartId)) (\<lambda>id.
     seqM (modifyM (\<lambda>s. s\<lparr>next_part_id := (next_part_id s)(b := id)\<rparr>))
     (returnM current_id)))"

lemma success_next_base_id [success]:
  "get_next_base_id s = Some (Inr i, s') \<longleftrightarrow>
     i = next_base_id s \<and> i \<noteq> - 1 \<and> s' = s\<lparr>next_base_id := i + 1\<rparr>"
  by (auto simp: get_next_base_id_def success)

interpretation base_ids: id_allocator next_base_id get_next_base_id
  by unfold_locales
    (auto simp: get_next_base_id_def run_simps split: option.splits if_splits)

interpretation part_ids: id_allocator "\<lambda>s. next_part_id s b" "get_next_part_id b" for b
  by unfold_locales
    (auto simp: get_next_part_id_def run_simps split: option.splits if_splits)

section \<open>Bases\<close>

text \<open>The identifier a part is stored under.\<close>

definition id_of_part :: "part_type \<Rightarrow> part_id" where
  "id_of_part part = (case part of SlotPart p \<Rightarrow> slot_part_id p | FixedPart p \<Rightarrow> fixed_id p)"

definition base_create ::
  "'a \<Rightarrow> bytes \<Rightarrow> bytes \<Rightarrow> part_type list \<Rightarrow> ('a, 'x, 'z, base_id) equip_action" where
  "base_create sender btype symbol ps =
     bindM get_next_base_id (\<lambda>b.
     seqM (forM ps (\<lambda>part. case part of
         SlotPart p \<Rightarrow> modifyM (\<lambda>s. s\<lparr>parts := (parts s)((b, slot_part_id p) \<mapsto> part)\<rparr>)
       | FixedPart p \<Rightarrow> modifyM (\<lambda>s. s\<lparr>parts := (parts s)((b, fixed_id p) \<mapsto> part)\<rparr>)))
     (seqM (modifyM (\<lambda>s. s\<lparr>bases := (bases s)(b \<mapsto>
         \<lparr>base_issuer = sender, base_type = btype, base_symbol = symbol, base_parts = ps\<rparr>)\<rparr>))
     (returnM b)))"

definition base_change_issuer ::
  "base_id \<Rightarrow> 'a \<Rightarrow> ('a, 'x, 'z, 'a \<times> base_id) equip_action" where
  "base_change_issuer b new_issuer =
     bindM (getsM (\<lambda>s. bases s b \<noteq> None)) (\<lambda>known.
     seqM (ensureM known (EquipError NoAvailableBaseId))
     (seqM (modifyM (\<lambda>s. s\<lparr>bases :=
         mutate_exists b (\<lambda>base. base\<lparr>base_issuer := new_issuer\<rparr>) (bases s)\<rparr>))
     (returnM (new_issuer, b))))"

text \<open>
  The checks \<^verbatim>\<open>do_equippable\<close> and \<^verbatim>\<open>add_theme\<close> start with: the base exists and the caller issued
  it.
\<close>

definition ensure_base_issuer :: "'a \<Rightarrow> base_id \<Rightarrow> ('a, 'x, 'z, unit) equip_action" where
  "ensure_base_issuer sender b =
     bindM (getsM (\<lambda>s. bases s b \<noteq> None)) (\<lambda>base_exists.
     seqM (ensureM base_exists (EquipError BaseDoesntExist))
     (bindM (get_okM (\<lambda>s. bases s b) Panic) (\<lambda>base.
     ensureM (base_issuer base = sender) (EquipError PermissionError))))"

definition do_equippable ::
  "'a \<Rightarrow> base_id \<Rightarrow> part_id \<Rightarrow> equippable_list \<Rightarrow> ('a, 'x, 'z, base_id \<times> slot_id) equip_action" where
  "do_equippable sender b p equippables =
     seqM (ensure_base_issuer sender b)
     (bindM (getsM (\<lambda>s. parts s (b, p) \<noteq> None)) (\<lambda>part_exists.
     seqM (ensureM part_exists (EquipError PartDoesntExist))
     (bindM (get_okM (\<lambda>s. parts s (b, p)) Panic) (\<lambda>part. case part of
         FixedPart _ \<Rightarrow> failM (EquipError NoEquippableOnFixedPart)
       | SlotPart slot_part \<Rightarrow>
           seqM (modifyM (\<lambda>s. s\<lparr>parts := (parts s)
             ((b, p) \<mapsto> SlotPart (slot_part\<lparr>slot_equippable := equippables\<rparr>))\<rparr>))
           (returnM (b, p))))))"

text \<open>The bytes of \<^verbatim>\<open>"default"\<close>; they must fit the \<^verbatim>\<open>StringLimit\<close>, else the conversion panics.\<close>

definition default_bytes :: bytes where
  "default_bytes = [100, 101, 102, 97, 117, 108, 116]"

definition add_theme ::
  "('a, 'l, 'x) env \<Rightarrow> 'a \<Rightarrow> base_id \<Rightarrow> theme \<Rightarrow> ('a, 'x, 'z, unit) equip_action" where
  "add_theme E sender b th =
     seqM (ensure_base_issuer sender b)
     (seqM (ensureM (length default_bytes \<le> string_limit E) Panic)
     (bindM (getsM (\<lambda>s. length (themes s (b, default_bytes)))) (\<lambda>def_count.
     seqM (ensureM (1 \<le> def_count \<or> theme_name th = default_bytes)
       (EquipError NeedsDefaultThemeFirst))
     (forM (theme_properties th) (\<lambda>prop. modifyM (\<lambda>s. s\<lparr>themes := (themes s)
       ((b, theme_name th) := AList.update (prop_key prop) (prop_value prop)
         (themes s (b, theme_name th)))\<rparr>))))))"

section \<open>Equipping\<close>

definition set_equipped :: "nft \<Rightarrow> bool \<Rightarrow> ('a, 'x, 'z, unit) core_action" where
  "set_equipped item flag =
     modifyM (\<lambda>s. s\<lparr>nfts := mutate_exists item (\<lambda>nft. nft\<lparr>equipped := flag\<rparr>) (nfts s)\<rparr>)"

text \<open>
  What \<^verbatim>\<open>do_equip\<close> returns: the item's identifiers, the base and slot, and whether it equipped.
\<close>

type_synonym equip_outcome = "collection_id \<times> nft_id \<times> base_id \<times> slot_id \<times> bool"

definition unequip_slot ::
  "nft \<Rightarrow> nft \<Rightarrow> base_id \<Rightarrow> slot_id \<Rightarrow> ('a, 'x, 'z, equip_outcome) equip_action" where
  "unequip_slot item equipper b slot =
     seqM (modifyM (\<lambda>s. s\<lparr>equippings := (equippings s)((equipper, b, slot) := None)\<rparr>))
     (seqM (set_equipped item False)
     (returnM (fst item, snd item, b, slot, False)))"

text \<open>The end of \<^verbatim>\<open>do_equip\<close>: the \<^verbatim>\<open>match\<close> on the part, and the two writes.\<close>

definition equip_into_part ::
  "nft \<Rightarrow> nft \<Rightarrow> resource_id \<Rightarrow> base_id \<Rightarrow> slot_id \<Rightarrow> part_type \<Rightarrow>
    ('a, 'x, 'z, equip_outcome) equip_action" where
  "equip_into_part item equipper rid b slot part = (case part of
       FixedPart _ \<Rightarrow> failM (EquipError CantEquipFixedPart)
     | SlotPart slot_part \<Rightarrow>
         seqM (case slot_equippable slot_part of
             Empty \<Rightarrow> failM (EquipError CollectionNotEquippable)
           | All \<Rightarrow> returnM ()
           | Custom eq \<Rightarrow> ensureM (fst item \<in> set eq) (EquipError CollectionNotEquippable))
         (seqM (modifyM (\<lambda>s. s\<lparr>equippings := (equippings s)((equipper, b, slot) \<mapsto> rid)\<rparr>))
         (seqM (set_equipped item True)
         (returnM (fst item, snd item, b, slot, True)))))"

text \<open>The checks between the unequip cases and the \<^verbatim>\<open>match\<close>; they give the part.\<close>

definition check_equip ::
  "'a \<Rightarrow> nft \<Rightarrow> nft \<Rightarrow> resource_id \<Rightarrow> base_id \<Rightarrow> slot_id \<Rightarrow> bool \<Rightarrow> 'a \<Rightarrow> 'a \<Rightarrow>
    ('a, 'x, 'z, part_type) equip_action" where
  "check_equip sender item equipper rid b slot item_exists item_owner equipper_owner =
     bindM (getsM (\<lambda>s. nfts s equipper \<noteq> None)) (\<lambda>equipper_exists.
     seqM (ensureM equipper_exists (EquipError EquipperDoesntExist))
     (seqM (ensureM item_exists (EquipError ItemDoesntExist))
     (bindM (get_okM (\<lambda>s. nfts s item) Panic) (\<lambda>nft.
     seqM (ensureM (\<not> equipped nft) (EquipError AlreadyEquipped))
     (seqM (ensureM (equipper_owner = sender) (EquipError PermissionError))
     (seqM (ensureM (item_owner = sender) (EquipError PermissionError))
     (bindM (get_okM (\<lambda>s. nfts s item) Panic) (\<lambda>nft.
     seqM (ensureM (nft_owner nft = CollectionAndNftTuple (fst equipper) (snd equipper))
       (EquipError MustBeDirectParent))
     (bindM (getsM (\<lambda>s. equippable_bases s (equipper, b) \<noteq> None)) (\<lambda>has_base.
     seqM (ensureM has_base (EquipError NoResourceForThisBaseFoundOnNft))
     (bindM (getsM (\<lambda>s. equippable_slots s (item, rid, b, slot) \<noteq> None)) (\<lambda>has_slot.
     seqM (ensureM has_slot (EquipError ItemHasNoResourceToEquipThere))
     (bindM (getsM (\<lambda>s. parts s (b, slot) \<noteq> None)) (\<lambda>part_exists.
     seqM (ensureM part_exists (EquipError PartDoesntExist))
     (get_okM (\<lambda>s. parts s (b, slot)) Panic)))))))))))))))"

definition do_equip ::
  "('a, 'l, 'x) env \<Rightarrow> 'a \<Rightarrow> nft \<Rightarrow> nft \<Rightarrow> resource_id \<Rightarrow> base_id \<Rightarrow> slot_id \<Rightarrow>
    ('a, 'x, 'z, equip_outcome) equip_action" where
  "do_equip E sender item equipper rid b slot =
     seqM (ensure_unlocked item)
     (seqM (ensure_unlocked equipper)
     (bindM (getsM (\<lambda>s. equippings s (equipper, b, slot) \<noteq> None)) (\<lambda>item_is_equipped.
     bindM (getsM (\<lambda>s. nfts s item \<noteq> None)) (\<lambda>item_exists.
     if \<not> item_exists \<and> item_is_equipped
     then unequip_slot item equipper b slot
     else bindM (root_ownerM E item) (\<lambda>(item_owner, _).
     bindM (root_ownerM E equipper) (\<lambda>(equipper_owner, _).
     if item_is_equipped \<and> (item_owner = sender \<or> equipper_owner = sender)
     then unequip_slot item equipper b slot
     else bindM (check_equip sender item equipper rid b slot item_exists item_owner equipper_owner)
       (equip_into_part item equipper rid b slot)))))))"

section \<open>Calls\<close>

definition change_base_issuer ::
  "('a, 'l, 'x) env \<Rightarrow> 'a raw_origin \<Rightarrow> base_id \<Rightarrow> 'l \<Rightarrow> ('a, 'x, 'z, unit) equip_action" where
  "change_base_issuer E org b new_issuer =
     bindM (ensure_signed org) (\<lambda>sender.
     bindM (get_okM (\<lambda>s. bases s b) (EquipError BaseDoesntExist)) (\<lambda>base.
     seqM (ensureM (base_issuer base = sender) (EquipError PermissionError))
     (bindM (lookupM E new_issuer) (\<lambda>new_owner.
     bindM (getsM (\<lambda>s. bases s b \<noteq> None)) (\<lambda>known.
     seqM (ensureM known (EquipError NoAvailableBaseId))
     (bindM (base_change_issuer b new_owner) (\<lambda>(new_owner', b').
     deposit_event (EquipEvent (BaseIssuerChanged sender new_owner' b')))))))))"

definition equip ::
  "('a, 'l, 'x) env \<Rightarrow> 'a raw_origin \<Rightarrow> nft \<Rightarrow> nft \<Rightarrow> resource_id \<Rightarrow> base_id \<Rightarrow> slot_id \<Rightarrow>
    ('a, 'x, 'z, unit) equip_action" where
  "equip E org item equipper rid b slot =
     bindM (ensure_signed org) (\<lambda>sender.
     bindM (do_equip E sender item equipper rid b slot) (\<lambda>(c, n, b', slot', now_equipped).
     if now_equipped then deposit_event (EquipEvent (SlotEquipped c n b' slot'))
     else deposit_event (EquipEvent (SlotUnequipped c n b' slot'))))"

definition equippable ::
  "'a raw_origin \<Rightarrow> base_id \<Rightarrow> slot_id \<Rightarrow> equippable_list \<Rightarrow> ('a, 'x, 'z, unit) equip_action" where
  "equippable org b slot equippables =
     bindM (ensure_signed org) (\<lambda>sender.
     bindM (do_equippable sender b slot equippables) (\<lambda>(b', slot').
     deposit_event (EquipEvent (EquippablesUpdated b' slot'))))"

text \<open>\<^verbatim>\<open>len().try_into().unwrap()\<close> into a \<^verbatim>\<open>u32\<close>.\<close>

definition length_u32M :: "'v list \<Rightarrow> ('s, dispatch_error, u32) action" where
  "length_u32M xs = seqM (ensureM (length xs < 2 ^ 32) Panic) (returnM (of_nat (length xs)))"

definition theme_add ::
  "('a, 'l, 'x) env \<Rightarrow> 'a raw_origin \<Rightarrow> base_id \<Rightarrow> theme \<Rightarrow> ('a, 'x, 'z, unit) equip_action" where
  "theme_add E org b th =
     bindM (ensure_signed org) (\<lambda>sender.
     bindM (length_u32M (theme_properties th)) (\<lambda>number_of_properties.
     seqM (ensureM (number_of_properties \<le> max_properties_per_theme E) (EquipError TooManyProperties))
     (add_theme E sender b th)))"

definition create_base ::
  "'a raw_origin \<Rightarrow> bytes \<Rightarrow> bytes \<Rightarrow> part_type list \<Rightarrow> ('a, 'x, 'z, unit) equip_action" where
  "create_base org btype symbol ps =
     bindM (ensure_signed org) (\<lambda>sender.
     bindM (length_u32M ps) (\<lambda>_.
     bindM (base_create sender btype symbol ps) (\<lambda>b.
     deposit_event (EquipEvent (BaseCreated sender b)))))"

datatype (plugins only: code size) 'l equip_call =
    ChangeBaseIssuer base_id 'l
  | EquipCall nft nft resource_id base_id slot_id
  | EquippableCall base_id slot_id equippable_list
  | ThemeAdd base_id theme
  | CreateBase bytes bytes "part_type list"

fun equip_dispatch ::
  "('a, 'l, 'x) env \<Rightarrow> 'a raw_origin \<Rightarrow> 'l equip_call \<Rightarrow> ('a, 'x, 'z, unit) equip_action" where
  "equip_dispatch E org (ChangeBaseIssuer b l) = change_base_issuer E org b l"
| "equip_dispatch E org (EquipCall item equipper r b slot) = equip E org item equipper r b slot"
| "equip_dispatch E org (EquippableCall b slot eqs) = equippable org b slot eqs"
| "equip_dispatch E org (ThemeAdd b th) = theme_add E org b th"
| "equip_dispatch E org (CreateBase ty sy ps) = create_base org ty sy ps"

section \<open>What a successful operation does\<close>

lemma success_ensure_base_issuer [success]:
  "ensure_base_issuer a b s = Some (Inr u, s') \<longleftrightarrow>
     (\<exists>base. bases s b = Some base \<and> base_issuer base = a) \<and> s' = s"
  by (auto simp: ensure_base_issuer_def success)

text \<open>The parts after those of a new base are stored, in the order of the list.\<close>

definition store_parts ::
  "base_id \<Rightarrow> part_type list \<Rightarrow> (base_id \<times> part_id \<rightharpoonup> part_type) \<Rightarrow> (base_id \<times> part_id \<rightharpoonup> part_type)" where
  "store_parts b ps m = fold (\<lambda>part m. m((b, id_of_part part) \<mapsto> part)) ps m"

lemma run_store_parts:
  "forM ps (\<lambda>part. case part of
       SlotPart p \<Rightarrow> modifyM (\<lambda>s. s\<lparr>parts := (parts s)((b, slot_part_id p) \<mapsto> part)\<rparr>)
     | FixedPart p \<Rightarrow> modifyM (\<lambda>s. s\<lparr>parts := (parts s)((b, fixed_id p) \<mapsto> part)\<rparr>)) s
   = Some (Inr (), s\<lparr>parts := store_parts b ps (parts s)\<rparr>)"
  by (induction ps arbitrary: s)
    (auto simp: run_simps store_parts_def id_of_part_def split: part_type.split)

lemma store_parts_other: "b' \<noteq> b \<Longrightarrow> store_parts b ps m (b', i) = m (b', i)"
  unfolding store_parts_def by (induction ps arbitrary: m) auto

lemma store_parts_same:
  "store_parts b ps m (b, i) = (case find (\<lambda>p. id_of_part p = i) (rev ps) of
     None \<Rightarrow> m (b, i) | Some p \<Rightarrow> Some p)"
  unfolding store_parts_def
  by (induction ps arbitrary: m rule: rev_induct) auto

lemma store_parts_id:
  "store_parts b ps m (b, i) = Some p \<Longrightarrow> m (b, i) = Some p \<or> p \<in> set ps \<and> id_of_part p = i"
  unfolding store_parts_def
  by (induction ps arbitrary: m rule: rev_induct) (auto split: if_splits)

lemma success_base_create [success]:
  "base_create a ty sy ps s = Some (Inr b, s') \<longleftrightarrow>
     b = next_base_id s \<and> b \<noteq> - 1 \<and>
     s' = s\<lparr>next_base_id := b + 1, parts := store_parts b ps (parts s),
            bases := (bases s)(b \<mapsto> \<lparr>base_issuer = a, base_type = ty, base_symbol = sy,
              base_parts = ps\<rparr>)\<rparr>"
  by (auto simp: base_create_def success run_store_parts)

lemma success_base_change_issuer [success]:
  "base_change_issuer b a s = Some (Inr r, s') \<longleftrightarrow> r = (a, b) \<and> bases s b \<noteq> None \<and>
     s' = s\<lparr>bases := mutate_exists b (\<lambda>base. base\<lparr>base_issuer := a\<rparr>) (bases s)\<rparr>"
  by (auto simp: base_change_issuer_def success)

lemma success_case_part:
  "(case part of FixedPart x \<Rightarrow> f x | SlotPart y \<Rightarrow> g y) s = Some (Inr r, s') \<longleftrightarrow>
     (\<exists>x. part = FixedPart x \<and> f x s = Some (Inr r, s')) \<or>
     (\<exists>y. part = SlotPart y \<and> g y s = Some (Inr r, s'))"
  by (cases part) auto

lemma success_do_equippable [success]:
  "do_equippable a b p eqs s = Some (Inr r, s') \<longleftrightarrow> r = (b, p) \<and>
     (\<exists>base. bases s b = Some base \<and> base_issuer base = a) \<and>
     (\<exists>sp. parts s (b, p) = Some (SlotPart sp) \<and>
       s' = s\<lparr>parts := (parts s)((b, p) \<mapsto> SlotPart (sp\<lparr>slot_equippable := eqs\<rparr>))\<rparr>)"
  by (auto simp: do_equippable_def success success_case_part)

definition store_theme :: "theme_property list \<Rightarrow> (bytes \<times> bytes) list \<Rightarrow> (bytes \<times> bytes) list" where
  "store_theme props al = fold (\<lambda>p. AList.update (prop_key p) (prop_value p)) props al"

lemma run_store_theme:
  "forM props (\<lambda>prop. modifyM (\<lambda>s. s\<lparr>themes := (themes s)
     ((b, n) := AList.update (prop_key prop) (prop_value prop) (themes s (b, n)))\<rparr>)) s
   = Some (Inr (), s\<lparr>themes := (themes s)((b, n) := store_theme props (themes s (b, n)))\<rparr>)"
  by (induction props arbitrary: s) (simp_all add: run_simps store_theme_def)

lemma success_add_theme [success]:
  "add_theme E a b th s = Some (Inr u, s') \<longleftrightarrow>
     (\<exists>base. bases s b = Some base \<and> base_issuer base = a) \<and> 7 \<le> string_limit E \<and>
     (themes s (b, default_bytes) \<noteq> [] \<or> theme_name th = default_bytes) \<and>
     s' = s\<lparr>themes := (themes s)((b, theme_name th) :=
       store_theme (theme_properties th) (themes s (b, theme_name th)))\<rparr>"
  by (auto simp: add_theme_def success run_store_theme default_bytes_def Suc_le_eq)

lemma success_unequip_slot [success]:
  "unequip_slot item equipper b slot s = Some (Inr r, s') \<longleftrightarrow>
     r = (fst item, snd item, b, slot, False) \<and>
     s' = s\<lparr>nfts := mutate_exists item (\<lambda>nft. nft\<lparr>equipped := False\<rparr>) (nfts s),
            equippings := (equippings s)((equipper, b, slot) := None)\<rparr>"
  by (auto simp: unequip_slot_def set_equipped_def success)

text \<open>Whether a slot takes an item of a collection.\<close>

definition slot_takes :: "slot_part \<Rightarrow> collection_id \<Rightarrow> bool" where
  "slot_takes sp c = (case slot_equippable sp of
     Empty \<Rightarrow> False | All \<Rightarrow> True | Custom eq \<Rightarrow> c \<in> set eq)"

lemma success_equip_into_part [success]:
  "equip_into_part item equipper rid b slot part s = Some (Inr r, s') \<longleftrightarrow>
     (\<exists>sp. part = SlotPart sp \<and> slot_takes sp (fst item)) \<and>
     r = (fst item, snd item, b, slot, True) \<and>
     s' = s\<lparr>nfts := mutate_exists item (\<lambda>nft. nft\<lparr>equipped := True\<rparr>) (nfts s),
            equippings := (equippings s)((equipper, b, slot) \<mapsto> rid)\<rparr>"
  by (auto simp: equip_into_part_def set_equipped_def slot_takes_def success
      split: part_type.splits equippable_list.splits)

lemma success_check_equip [success]:
  "check_equip a item equipper rid b slot ex io eo s = Some (Inr part, s') \<longleftrightarrow>
     nfts s equipper \<noteq> None \<and> ex \<and> eo = a \<and> io = a \<and>
     (\<exists>nft. nfts s item = Some nft \<and> \<not> equipped nft \<and>
       nft_owner nft = CollectionAndNftTuple (fst equipper) (snd equipper)) \<and>
     equippable_bases s (equipper, b) \<noteq> None \<and> equippable_slots s (item, rid, b, slot) \<noteq> None \<and>
     parts s (b, slot) = Some part \<and> s' = s"
  by (auto simp: check_equip_def success)

lemma success_length_u32 [success]:
  "length_u32M xs s = Some (Inr n, s') \<longleftrightarrow> length xs < 2 ^ 32 \<and> n = of_nat (length xs) \<and> s' = s"
  by (auto simp: length_u32M_def success)

section \<open>A failing call leaves no trace\<close>

lemma reads_parts [clean_intros]:
  "reads (get_okM f e)" "reads (ensure_signed org)" "reads (ensure_unlocked k)"
  "reads (root_ownerM E k)" "reads (lookupM E l)" "reads (length_u32M xs)"
  "reads (ensure_base_issuer a b)" "reads (check_equip a item equipper rid b slot ex io eo)"
  unfolding get_okM_def ensure_signed_def ensure_unlocked_def lookupM_def length_u32M_def
    ensure_base_issuer_def check_equip_def
  by (auto intro!: clean_intros split: raw_origin.split sum.split)
    (auto simp: reads_def root_ownerM_def split: option.splits sum.splits)

lemma surely_parts [clean_intros]:
  "surely (deposit_event ev)" "surely (set_equipped k f)" "surely (unequip_slot k p b slot)"
  unfolding deposit_event_def set_equipped_def unequip_slot_def by (intro clean_intros)+

lemma surely_store_parts [clean_intros]:
  "surely (forM ps (\<lambda>part. case part of
       SlotPart p \<Rightarrow> modifyM (\<lambda>s. s\<lparr>parts := (parts s)((b, slot_part_id p) \<mapsto> part)\<rparr>)
     | FixedPart p \<Rightarrow> modifyM (\<lambda>s. s\<lparr>parts := (parts s)((b, fixed_id p) \<mapsto> part)\<rparr>)))"
  by (simp add: surely_def run_store_parts)

lemma clean_next_base_id [clean_intros]: "clean get_next_base_id"
  using base_ids.alloc_full by (auto simp: clean_def)

lemma clean_base_create [clean_intros]: "clean (base_create a ty sy ps)"
  unfolding base_create_def by (intro clean_writes clean_intros)

lemma clean_base_change_issuer [clean_intros]: "clean (base_change_issuer b a)"
  unfolding base_change_issuer_def
  by (intro clean_checks(1) clean_checks(2)[where n = "seqM _ _"] clean_intros clean_writes)

lemma surely_clean: "surely m \<Longrightarrow> clean m"
  by (auto simp: surely_def clean_def)

lemma clean_do_equippable [clean_intros]: "clean (do_equippable a b p eqs)"
proof -
  have "clean (case part of FixedPart _ \<Rightarrow> failM (EquipError NoEquippableOnFixedPart)
      | SlotPart slot_part \<Rightarrow>
          seqM (modifyM (\<lambda>s :: ('a, 'b, 'c) equip_state_scheme. s\<lparr>parts := (parts s)
             ((b, p) \<mapsto> SlotPart (slot_part\<lparr>slot_equippable := eqs\<rparr>))\<rparr>)) (returnM (b, p)))" for part
  proof (cases part)
    case (SlotPart sp)
    then show ?thesis by (simp, intro surely_clean clean_intros)
  qed (simp, intro clean_intros)
  then show ?thesis
    unfolding do_equippable_def by (intro clean_checks reads_parts reads_basic)
qed

lemma clean_add_theme [clean_intros]: "clean (add_theme E a b th)"
  unfolding add_theme_def
  by (intro clean_checks reads_parts reads_basic surely_clean[OF surely_for] surely_basic)

lemma clean_equip_into_part [clean_intros]: "clean (equip_into_part item equipper rid b slot part)"
proof (cases part)
  case (SlotPart sp)
  then show ?thesis
    unfolding equip_into_part_def
    by (auto intro!: clean_writes(2) intro: clean_intros split: equippable_list.split)
qed (auto simp: equip_into_part_def intro: clean_intros)

lemma clean_do_equip [clean_intros]: "clean (do_equip E a item equipper rid b slot)"
  unfolding do_equip_def
  by (auto intro!: clean_checks clean_if reads_parts reads_basic surely_clean[OF surely_parts(3)]
      clean_equip_into_part split: prod.split)

interpretation equip_calls: atomic_calls "\<lambda>(org, call). equip_dispatch E org call"
  for E :: "('a, 'l, 'x) env"
proof unfold_locales
  fix c :: "'a raw_origin \<times> 'l equip_call" and s s' :: "('a, 'x, 'z) equip_state_scheme" and e
  assume run: "(case c of (org, call) \<Rightarrow> equip_dispatch E org call) s = Some (Inl e, s')"
  obtain org call where c: "c = (org, call)" by fastforce
  have "clean (equip_dispatch E org call :: ('a, 'x, 'z, unit) equip_action)"
  proof (cases call)
    case (ChangeBaseIssuer b l)
    then show ?thesis
      by (auto simp: change_base_issuer_def intro!: clean_checks reads_parts reads_basic
          clean_writes(1)[OF clean_base_change_issuer] surely_parts split: prod.split)
  next
    case (EquipCall item equipper r b slot)
    then show ?thesis
      by (auto simp: equip_def intro!: clean_checks(1)[OF reads_parts(2)]
          clean_writes(1)[OF clean_do_equip] surely_parts split: prod.split)
  next
    case (EquippableCall b slot eqs)
    then show ?thesis
      by (auto simp: equippable_def intro!: clean_checks(1)[OF reads_parts(2)]
          clean_writes(1)[OF clean_do_equippable] surely_parts split: prod.split)
  next
    case (ThemeAdd b th)
    then show ?thesis
      by (auto simp: theme_add_def intro!: clean_checks reads_parts reads_basic clean_add_theme)
  next
    case (CreateBase ty sy ps)
    then show ?thesis
      by (auto simp: create_base_def intro!: clean_checks(1)[OF reads_parts(2)]
          clean_checks(1)[OF reads_parts(6)] clean_writes(1)[OF clean_base_create] surely_parts)
  qed
  then show "s' = s" using run c by (auto dest: cleanD)
qed

end
