(* ===== verification/Market.thy ===== *)
theory Market
  imports Equip
begin

text \<open>
  rmrk-market (\<^verbatim>\<open>lib.rs\<close>, \<^verbatim>\<open>types.rs\<close>): list and unlist an NFT, buy a listed one, make, withdraw and
  accept an offer. A sale runs the extrinsic \<^verbatim>\<open>send\<close> of rmrk-core on behalf of the owner. Its
  storage record extends the one of rmrk-equip because a runtime has one storage; no operation
  here touches the items of rmrk-equip.
\<close>

section \<open>The storage items\<close>

record ('a, 'x) market_state = "('a, 'x) equip_state" +
  listed_nfts :: "nft \<rightharpoonup> 'a list_info"
  offers :: "nft \<times> 'a \<rightharpoonup> 'a offer"

type_synonym ('a, 'x, 'z, 'r) market_action =
  "(('a, 'x, 'z) market_state_scheme, dispatch_error, 'r) action"

section \<open>Helpers\<close>

definition is_nft_listed :: "('a, 'x, 'z) market_state_scheme \<Rightarrow> nft \<Rightarrow> bool" where
  "is_nft_listed s k \<longleftrightarrow> listed_nfts s k \<noteq> None"

definition has_active_offer :: "('a, 'x, 'z) market_state_scheme \<Rightarrow> nft \<Rightarrow> 'a \<Rightarrow> bool" where
  "has_active_offer s k sender \<longleftrightarrow> offers s (k, sender) \<noteq> None"

definition is_nft_owned_by_nft ::
  "('a, 'l, 'x) env \<Rightarrow> ('a, 'x, 'z) market_state_scheme \<Rightarrow> nft \<Rightarrow> bool" where
  "is_nft_owned_by_nft E s k = (case uq_owner E (ext s) k of
       None \<Rightarrow> False
     | Some current_owner \<Rightarrow> (case decode_nft_account_id E current_owner of
         None \<Rightarrow> False | Some _ \<Rightarrow> True))"

text \<open>\<^verbatim>\<open>pallet_uniques::owner(..).ok_or(TokenDoesNotExist)?\<close>.\<close>

definition uniques_ownerM :: "('a, 'l, 'x) env \<Rightarrow> nft \<Rightarrow> ('a, 'x, 'z, 'a) market_action" where
  "uniques_ownerM E k = get_okM (\<lambda>s. uq_owner E (ext s) k) (MarketError TokenDoesNotExist)"

section \<open>Buying\<close>

text \<open>The price of an offer: read from \<^verbatim>\<open>Offers\<close>.\<close>

definition offer_price :: "nft \<Rightarrow> 'a \<Rightarrow> ('a, 'x, 'z, balance) market_action" where
  "offer_price k buyer =
     bindM (getsM (\<lambda>s. map_option offer_amount (offers s (k, buyer)))) (\<lambda>amount.
     ok_orM amount (MarketError UnknownOffer))"

text \<open>The price of a listing: taken out of \<^verbatim>\<open>ListedNfts\<close>, then checked.\<close>

definition listing_price ::
  "('a, 'l, 'x) env \<Rightarrow> nft \<Rightarrow> 'a \<Rightarrow> ('a, 'x, 'z, balance) market_action" where
  "listing_price E k owner =
     bindM (get_okM (\<lambda>s. listed_nfts s k) (MarketError TokenNotForSale)) (\<lambda>list_info.
     seqM (modifyM (\<lambda>s. s\<lparr>listed_nfts := (listed_nfts s)(k := None)\<rparr>))
     (seqM (ensureM (listed_by list_info = owner) (MarketError TokenNotForSale))
     (seqM (case list_expires list_info of
         None \<Rightarrow> returnM ()
       | Some expires \<Rightarrow> bindM (getsM (\<lambda>s. block_now E (ext s))) (\<lambda>now.
           ensureM (expires > now) (MarketError ListingHasExpired)))
     (returnM (list_amount list_info)))))"

definition do_buy ::
  "('a, 'l, 'x) env \<Rightarrow> 'a \<Rightarrow> nft \<Rightarrow> balance option \<Rightarrow> bool \<Rightarrow> ('a, 'x, 'z, unit) market_action" where
  "do_buy E buyer k amount is_offer =
     bindM (uniques_ownerM E k) (\<lambda>owner.
     seqM (ensureM (buyer \<noteq> owner) (MarketError CannotBuyOwnToken))
     (bindM (if is_offer then offer_price k buyer else listing_price E k owner) (\<lambda>list_price.
     seqM (case amount of
         None \<Rightarrow> returnM ()
       | Some am \<Rightarrow> ensureM (list_price = am) (MarketError PriceDiffersFromExpected))
     (seqM (set_lock k False)
     (seqM (externalM (cur_transfer E buyer owner list_price KeepAlive))
     (seqM (send E (Signed owner) k (AccountId buyer))
     (deposit_event (MarketEvent (TokenSold owner buyer (fst k) (snd k) list_price)))))))))"

definition buy ::
  "('a, 'l, 'x) env \<Rightarrow> 'a raw_origin \<Rightarrow> nft \<Rightarrow> balance option \<Rightarrow> ('a, 'x, 'z, unit) market_action" where
  "buy E org k amount = transactionalM (
     bindM (ensure_signed org) (\<lambda>sender. do_buy E sender k amount False))"

section \<open>Listings\<close>

definition list_nft ::
  "('a, 'l, 'x) env \<Rightarrow> 'a raw_origin \<Rightarrow> nft \<Rightarrow> balance \<Rightarrow> block_number option \<Rightarrow>
    ('a, 'x, 'z, unit) market_action" where
  "list_nft E org k amount expires = transactionalM (
     bindM (ensure_signed org) (\<lambda>sender.
     bindM (uniques_ownerM E k) (\<lambda>owner.
     bindM (getsM (\<lambda>s. is_nft_owned_by_nft E s k)) (\<lambda>nested.
     seqM (ensureM (\<not> nested) (MarketError CannotListNftOwnedByNft))
     (seqM (ensureM (sender = owner) (MarketError MarketNoPermission))
     (bindM (get_okM (\<lambda>s. nfts s k) (MarketError TokenDoesNotExist)) (\<lambda>nft.
     seqM (check_is_transferable nft)
     (seqM (set_lock k True)
     (bindM (getsM (\<lambda>s. is_nft_listed s k)) (\<lambda>listed.
     seqM (if listed then modifyM (\<lambda>s. s\<lparr>listed_nfts := (listed_nfts s)(k := None)\<rparr>)
           else returnM ())
     (seqM (modifyM (\<lambda>s. s\<lparr>listed_nfts := (listed_nfts s)
         (k \<mapsto> \<lparr>listed_by = sender, list_amount = amount, list_expires = expires\<rparr>)\<rparr>))
     (deposit_event (MarketEvent (TokenListed owner (fst k) (snd k) amount))))))))))))))"

definition unlist ::
  "('a, 'l, 'x) env \<Rightarrow> 'a raw_origin \<Rightarrow> nft \<Rightarrow> ('a, 'x, 'z, unit) market_action" where
  "unlist E org k = transactionalM (
     bindM (ensure_signed org) (\<lambda>sender.
     bindM (getsM (\<lambda>s. is_nft_listed s k)) (\<lambda>listed.
     seqM (ensureM listed (MarketError CannotUnlistToken))
     (bindM (uniques_ownerM E k) (\<lambda>owner.
     seqM (ensureM (sender = owner) (MarketError MarketNoPermission))
     (seqM (set_lock k False)
     (seqM (modifyM (\<lambda>s. s\<lparr>listed_nfts := (listed_nfts s)(k := None)\<rparr>))
     (deposit_event (MarketEvent (TokenUnlisted owner (fst k) (snd k)))))))))))"

section \<open>Offers\<close>

definition make_offer ::
  "('a, 'l, 'x) env \<Rightarrow> 'a raw_origin \<Rightarrow> nft \<Rightarrow> balance \<Rightarrow> block_number option \<Rightarrow>
    ('a, 'x, 'z, unit) market_action" where
  "make_offer E org k amount expires = transactionalM (
     bindM (ensure_signed org) (\<lambda>sender.
     seqM (ensureM (amount \<ge> minimum_offer_amount E) (MarketError OfferTooLow))
     (bindM (uniques_ownerM E k) (\<lambda>owner.
     seqM (ensureM (sender \<noteq> owner) (MarketError CannotOfferOnOwnToken))
     (bindM (getsM (\<lambda>s. has_active_offer s k sender)) (\<lambda>active.
     seqM (ensureM (\<not> active) (MarketError AlreadyOffered))
     (seqM (externalM (cur_reserve E sender amount))
     (seqM (modifyM (\<lambda>s. s\<lparr>offers := (offers s)
         ((k, sender) \<mapsto> \<lparr>maker = sender, offer_amount = amount, offer_expires = expires\<rparr>)\<rparr>))
     (deposit_event (MarketEvent (OfferPlaced sender (fst k) (snd k) amount)))))))))))"

text \<open>
  \<^verbatim>\<open>Offers::try_mutate_exists(k, a, |maybe_offer| { let offer = maybe_offer.take()..?; body(offer) })\<close>:
  the closure gets a copy of the entry, the storage keeps the entry while the closure runs, and the
  entry (emptied by \<^verbatim>\<open>take\<close>) is written back when the closure succeeded.
\<close>

definition take_offer ::
  "nft \<Rightarrow> 'a \<Rightarrow> ('a offer \<Rightarrow> ('a, 'x, 'z, unit) market_action) \<Rightarrow> ('a, 'x, 'z, unit) market_action" where
  "take_offer k a body =
     bindM (get_okM (\<lambda>s. offers s (k, a)) (MarketError UnknownOffer)) (\<lambda>offer.
     seqM (body offer)
     (modifyM (\<lambda>s. s\<lparr>offers := (offers s)((k, a) := None)\<rparr>)))"

definition unreserveM :: "('a, 'l, 'x) env \<Rightarrow> 'a \<Rightarrow> balance \<Rightarrow> ('a, 'x, 'z, unit) market_action" where
  "unreserveM E a v = modifyM (\<lambda>s. s\<lparr>ext := cur_unreserve E a v (ext s)\<rparr>)"

definition withdraw_offer ::
  "('a, 'l, 'x) env \<Rightarrow> 'a raw_origin \<Rightarrow> nft \<Rightarrow> ('a, 'x, 'z, unit) market_action" where
  "withdraw_offer E org k = transactionalM (
     bindM (ensure_signed org) (\<lambda>sender.
     take_offer k sender (\<lambda>offer.
     bindM (uniques_ownerM E k) (\<lambda>owner.
     seqM (ensureM (sender = owner \<or> sender = maker offer) (MarketError CannotWithdrawOffer))
     (seqM (unreserveM E (maker offer) (offer_amount offer))
     (deposit_event (MarketEvent (OfferWithdrawn sender (fst k) (snd k)))))))))"

definition accept_offer ::
  "('a, 'l, 'x) env \<Rightarrow> 'a raw_origin \<Rightarrow> nft \<Rightarrow> 'a \<Rightarrow> ('a, 'x, 'z, unit) market_action" where
  "accept_offer E org k offerer = transactionalM (
     bindM (ensure_signed org) (\<lambda>sender.
     bindM (uniques_ownerM E k) (\<lambda>owner.
     seqM (ensureM (sender = owner) (MarketError MarketNoPermission))
     (take_offer k offerer (\<lambda>offer.
     seqM (case offer_expires offer of
         None \<Rightarrow> returnM ()
       | Some expires \<Rightarrow> bindM (getsM (\<lambda>s. block_now E (ext s))) (\<lambda>now.
           if expires \<le> now then failM (MarketError OfferHasExpired) else returnM ()))
     (seqM (unreserveM E (maker offer) (offer_amount offer))
     (seqM (do_buy E (maker offer) k None True)
     (deposit_event (MarketEvent (OfferAccepted owner offerer (fst k) (snd k)))))))))))"

section \<open>Calls\<close>

datatype (plugins only: code size) 'a market_call =
    Buy nft "balance option"
  | ListNft nft balance "block_number option"
  | Unlist nft
  | MakeOffer nft balance "block_number option"
  | WithdrawOffer nft
  | AcceptOffer nft 'a

fun market_dispatch ::
  "('a, 'l, 'x) env \<Rightarrow> 'a raw_origin \<Rightarrow> 'a market_call \<Rightarrow> ('a, 'x, 'z, unit) market_action" where
  "market_dispatch E org (Buy k am) = buy E org k am"
| "market_dispatch E org (ListNft k am ex) = list_nft E org k am ex"
| "market_dispatch E org (Unlist k) = unlist E org k"
| "market_dispatch E org (MakeOffer k am ex) = make_offer E org k am ex"
| "market_dispatch E org (WithdrawOffer k) = withdraw_offer E org k"
| "market_dispatch E org (AcceptOffer k a) = accept_offer E org k a"

lemmas market_call_defs =
  buy_def list_nft_def unlist_def make_offer_def withdraw_offer_def accept_offer_def

text \<open>Every call of rmrk-market is transactional.\<close>

interpretation market_calls: atomic_calls "\<lambda>(org, call). market_dispatch E org call"
  for E :: "('a, 'l, 'x) env"
proof unfold_locales
  fix c :: "'a raw_origin \<times> 'a market_call" and s s' :: "('a, 'x, 'z) market_state_scheme" and e
  assume run: "(case c of (org, call) \<Rightarrow> market_dispatch E org call) s = Some (Inl e, s')"
  obtain org call where "c = (org, call)" by fastforce
  with run show "s' = s"
    by (cases call) (auto simp: market_call_defs transactional_error)
qed

section \<open>What a successful operation does\<close>

lemma success_uniques_owner [success]:
  "uniques_ownerM E k s = Some (Inr a, s') \<longleftrightarrow> uq_owner E (ext s) k = Some a \<and> s' = s"
  by (auto simp: uniques_ownerM_def success)

lemma success_unreserve [success]:
  "unreserveM E a v s = Some (Inr u, s') \<longleftrightarrow> s' = s\<lparr>ext := cur_unreserve E a v (ext s)\<rparr>"
  by (auto simp: unreserveM_def success)

lemma nested_iff: "is_nft_owned_by_nft E s k \<longleftrightarrow> nft_parent E (ext s) k \<noteq> None"
  by (auto simp: is_nft_owned_by_nft_def nft_parent_def split: option.splits)

lemma success_offer_price [success]:
  "offer_price k a s = Some (Inr v, s') \<longleftrightarrow>
     (\<exists>off. offers s (k, a) = Some off \<and> v = offer_amount off) \<and> s' = s"
  by (auto simp: offer_price_def success)

lemma success_listing_price [success]:
  "listing_price E k a s = Some (Inr v, s') \<longleftrightarrow>
     (\<exists>li. listed_nfts s k = Some li \<and> listed_by li = a \<and> v = list_amount li \<and>
       (\<forall>ex. list_expires li = Some ex \<longrightarrow> block_now E (ext s) < ex)) \<and>
     s' = s\<lparr>listed_nfts := (listed_nfts s)(k := None)\<rparr>"
  by (auto simp: listing_price_def success split: option.splits)

lemma success_take_offer [success]:
  "take_offer k a body s = Some (Inr u, s') \<longleftrightarrow>
     (\<exists>off t. offers s (k, a) = Some off \<and> body off s = Some (Inr (), t) \<and>
       s' = t\<lparr>offers := (offers t)((k, a) := None)\<rparr>)"
  by (auto simp: take_offer_def success)

end
