(* ===== verification/Template.thy ===== *)
theory Template
  imports Market
begin

text \<open>
  The pallet-template of the repository (\<^verbatim>\<open>lib.rs\<close>), which the runtime includes: one stored
  number, a call that sets it and one that increments it. Its storage record closes the storage
  of the runtime.
\<close>

record ('a, 'x) runtime_state = "('a, 'x) market_state" +
  something :: "u32 option"

type_synonym ('a, 'x, 'z, 'r) runtime_action =
  "(('a, 'x, 'z) runtime_state_scheme, dispatch_error, 'r) action"

definition do_something :: "'a raw_origin \<Rightarrow> u32 \<Rightarrow> ('a, 'x, 'z, unit) runtime_action" where
  "do_something org new_value =
     bindM (ensure_signed org) (\<lambda>who.
     seqM (modifyM (\<lambda>s. s\<lparr>something := Some new_value\<rparr>))
     (deposit_event (TemplateEvent (SomethingStored new_value who))))"

definition cause_error :: "'a raw_origin \<Rightarrow> ('a, 'x, 'z, unit) runtime_action" where
  "cause_error org =
     bindM (ensure_signed org) (\<lambda>who.
     bindM (getsM something) (\<lambda>stored. case stored of
       None \<Rightarrow> failM (TemplateError TemplateNoneValue)
     | Some old \<Rightarrow>
         bindM (ok_orM (checked_add old 1) (TemplateError TemplateStorageOverflow)) (\<lambda>new.
         modifyM (\<lambda>s. s\<lparr>something := Some new\<rparr>))))"

datatype template_call = DoSomething u32 | CauseError

fun template_dispatch :: "'a raw_origin \<Rightarrow> template_call \<Rightarrow> ('a, 'x, 'z, unit) runtime_action" where
  "template_dispatch org (DoSomething v) = do_something org v"
| "template_dispatch org CauseError = cause_error org"

lemma clean_template: "clean (template_dispatch org call)"
proof (cases call)
  case (DoSomething v)
  then show ?thesis
    by (auto simp: do_something_def intro!: clean_checks(1)[OF reads_parts(2)]
        clean_writes(2)[OF clean_modify] surely_parts)
next
  case CauseError
  have step: "clean (case stored of None \<Rightarrow> failM (TemplateError TemplateNoneValue)
     | Some old \<Rightarrow>
         bindM (ok_orM (checked_add old 1) (TemplateError TemplateStorageOverflow)) (\<lambda>new.
         modifyM (\<lambda>s :: ('a, 'b, 'c) runtime_state_scheme. s\<lparr>something := Some new\<rparr>)))" for stored
    by (cases stored) (auto intro!: clean_checks(1)[OF reads_basic(5)] clean_modify
        intro: clean_intros)
  show ?thesis
    using CauseError step by (auto simp: cause_error_def intro!: clean_checks(1) reads_parts reads_basic)
qed

interpretation template_calls: atomic_calls "\<lambda>(org, call). template_dispatch org call"
  by unfold_locales (auto dest: cleanD[OF clean_template])

end
