(* ===== verification/Runtime.thy ===== *)
theory Runtime
  imports Template
begin

text \<open>
  The runtime (\<^verbatim>\<open>runtime/src\<close>): its money and time constants, the constants it configures the
  pallets with, the filter on calls, the dispatch of a call to its pallet, and the step relation
  of the chain's storage. The invariants of the chain are proved against that relation.
\<close>

section \<open>Constants\<close>

definition MILLICENTS :: balance where "MILLICENTS = 1000000000"
definition CENTS :: balance where "CENTS = 1000 * MILLICENTS"
definition DOLLARS :: balance where "DOLLARS = 100 * CENTS"
definition UNITS :: balance where "UNITS = 1000000000000"

definition deposit :: "u32 \<Rightarrow> u32 \<Rightarrow> balance" where
  "deposit items bytes = ucast items * 15 * CENTS + ucast bytes * 6 * CENTS"

text \<open>
  The block time is written down twice: \<^verbatim>\<open>constants::time\<close> (the \<open>time_\<close> constants here, which nothing
  in the repository uses) and \<^verbatim>\<open>lib.rs\<close>, which configures the runtime.
\<close>

type_synonym moment = "64 word"

definition time_MILLISECS_PER_BLOCK :: moment where "time_MILLISECS_PER_BLOCK = 3000"
definition SECS_PER_BLOCK :: moment where "SECS_PER_BLOCK = time_MILLISECS_PER_BLOCK div 1000"
definition time_SLOT_DURATION :: moment where "time_SLOT_DURATION = time_MILLISECS_PER_BLOCK"
definition time_MINUTES :: block_number where "time_MINUTES = 60 div ucast SECS_PER_BLOCK"
definition time_HOURS :: block_number where "time_HOURS = time_MINUTES * 60"
definition time_DAYS :: block_number where "time_DAYS = time_HOURS * 24"
definition EPOCH_DURATION_IN_BLOCKS :: block_number where
  "EPOCH_DURATION_IN_BLOCKS = 10 * time_MINUTES"

definition MILLISECS_PER_BLOCK :: moment where "MILLISECS_PER_BLOCK = 6000"
definition SLOT_DURATION :: moment where "SLOT_DURATION = MILLISECS_PER_BLOCK"
definition MINUTES :: block_number where "MINUTES = 60000 div ucast MILLISECS_PER_BLOCK"
definition HOURS :: block_number where "HOURS = MINUTES * 60"
definition DAYS :: block_number where "DAYS = HOURS * 24"
definition MinimumPeriod :: moment where "MinimumPeriod = SLOT_DURATION div 2"
definition ExistentialDeposit :: balance where "ExistentialDeposit = 500"

text \<open>The configuration of the RMRK pallets.\<close>

definition MaxRecursions :: u32 where "MaxRecursions = 10"
definition MinimumOfferAmount :: balance where "MinimumOfferAmount = UNITS div 10000"
definition CollectionDeposit :: balance where "CollectionDeposit = 10 * CENTS"
definition UniquesStringLimit :: u32 where "UniquesStringLimit = 128"
definition MaxPropertiesPerTheme :: u32 where "MaxPropertiesPerTheme = 100"

text \<open>The bounds of the types in calls and storage; \<open>Limits\<close> says what they bound.\<close>

definition PartsLimit :: u32 where "PartsLimit = 25"
definition MaxPriorities :: u32 where "MaxPriorities = 25"
definition CollectionSymbolLimit :: u32 where "CollectionSymbolLimit = 100"
definition MaxResourcesOnMint :: u32 where "MaxResourcesOnMint = 100"
definition KeyLimit :: u32 where "KeyLimit = 32"
definition ValueLimit :: u32 where "ValueLimit = 256"
definition MaxCollectionsEquippablePerPart :: u32 where "MaxCollectionsEquippablePerPart = 100"

lemmas limit_constants =
  UniquesStringLimit_def MaxPropertiesPerTheme_def PartsLimit_def MaxPriorities_def
  CollectionSymbolLimit_def MaxResourcesOnMint_def KeyLimit_def ValueLimit_def
  MaxCollectionsEquippablePerPart_def

text \<open>An environment with the constants of this runtime.\<close>

definition runtime_config :: "('a, 'l, 'x) env \<Rightarrow> bool" where
  "runtime_config E \<longleftrightarrow>
     max_recursions E = MaxRecursions \<and> collection_deposit E = CollectionDeposit \<and>
     string_limit E = unat UniquesStringLimit \<and>
     max_properties_per_theme E = MaxPropertiesPerTheme \<and>
     minimum_offer_amount E = MinimumOfferAmount"

section \<open>The filter on calls\<close>

text \<open>
  The calls of \<^verbatim>\<open>pallet_uniques\<close>: the ones the filter names, and any other by a number.
\<close>

datatype (plugins only: code size) uniques_call =
    ApproveTransfer | BurnItem | CancelApproval | ClearCollectionMetadata | ClearMetadata
  | CreateClass | DestroyClass | ForceItemStatus | ForceCreate | FreezeCollection | MintItem
  | Redeposit | SetCollectionMetadata | ThawCollection | TransferItem | TransferOwnership
  | OtherUniquesCall nat

datatype (plugins only: code size) ('a, 'l) runtime_call =
    RmrkCore "('a, 'l) core_call"
  | RmrkEquip "'l equip_call"
  | RmrkMarket "'a market_call"
  | TemplateModule template_call
  | Uniques uniques_call
  | OtherPallet nat

definition base_filter :: "('a, 'l) runtime_call \<Rightarrow> bool" where
  "base_filter call = (case call of
       Uniques u \<Rightarrow> (case u of OtherUniquesCall _ \<Rightarrow> True | _ \<Rightarrow> False)
     | _ \<Rightarrow> True)"

section \<open>Dispatch and steps\<close>

text \<open>
  The calls of the four pallets of the repository. \<open>None\<close>: the call belongs to a pallet outside it.
\<close>

fun runtime_dispatch ::
  "('a, 'l, 'x) env \<Rightarrow> 'a raw_origin \<Rightarrow> ('a, 'l) runtime_call \<Rightarrow>
    ('a, 'x, 'z, unit) runtime_action option" where
  "runtime_dispatch E org (RmrkCore call) = Some (core_dispatch E org call)"
| "runtime_dispatch E org (RmrkEquip call) = Some (equip_dispatch E org call)"
| "runtime_dispatch E org (RmrkMarket call) = Some (market_dispatch E org call)"
| "runtime_dispatch E org (TemplateModule call) = Some (template_dispatch org call)"
| "runtime_dispatch E org (Uniques call) = None"
| "runtime_dispatch E org (OtherPallet i) = None"

text \<open>
  A step is a call of the repository's pallets that returned, or a change of the storage of the
  external pallets by the rest of the chain (other extrinsics, the block number), restricted by
  the relation \<open>F\<close>.
\<close>

inductive runtime_step ::
  "('a, 'l, 'x) env \<Rightarrow> ('x \<Rightarrow> 'x \<Rightarrow> bool) \<Rightarrow>
    ('a, 'x, 'z) runtime_state_scheme \<Rightarrow> ('a, 'x, 'z) runtime_state_scheme \<Rightarrow> bool"
  for E F where
  call: "base_filter c \<Longrightarrow> runtime_dispatch E org c = Some m \<Longrightarrow> m s = Some (r, s') \<Longrightarrow>
    runtime_step E F s s'"
| foreign: "F (ext s) x \<Longrightarrow> runtime_step E F s (s\<lparr>ext := x\<rparr>)"

inductive_cases runtime_stepE: "runtime_step E F s s'"
inductive_simps runtime_step_simps: "runtime_step E F s s'"

lemma core_step: "core_dispatch E org c s = Some (r, s') \<Longrightarrow> runtime_step E F s s'"
  by (rule runtime_step.call[where c = "RmrkCore c" and m = "core_dispatch E org c"])
    (simp_all add: base_filter_def)

lemma market_step: "market_dispatch E org c s = Some (r, s') \<Longrightarrow> runtime_step E F s s'"
  by (rule runtime_step.call[where c = "RmrkMarket c" and m = "market_dispatch E org c"])
    (simp_all add: base_filter_def)

lemma equip_step: "equip_dispatch E org c s = Some (r, s') \<Longrightarrow> runtime_step E F s s'"
  by (rule runtime_step.call[where c = "RmrkEquip c" and m = "equip_dispatch E org c"])
    (simp_all add: base_filter_def)

text \<open>A call that fails is no step of its own: it leaves the storage as it was.\<close>

lemma dispatch_error_unchanged:
  assumes "runtime_dispatch E org c = Some m" "m s = Some (Inl e, s')"
  shows "s' = s"
proof (cases c)
  case (RmrkCore call)
  then show ?thesis using assms core.error_unchanged[of E "(org, call)"] by auto
next
  case (RmrkEquip call)
  then show ?thesis using assms equip_calls.error_unchanged[of E "(org, call)"] by auto
next
  case (RmrkMarket call)
  then show ?thesis using assms market_calls.error_unchanged[of E "(org, call)"] by auto
next
  case (TemplateModule call)
  then show ?thesis using assms template_calls.error_unchanged[of "(org, call)"] by auto
qed (use assms in simp_all)

text \<open>
  What every successful call of the pallets keeps, and every foreign change allowed by \<open>F\<close>, every
  step keeps.
\<close>

lemma step_keepsI:
  fixes I :: "('a, 'x, 'z) runtime_state_scheme \<Rightarrow> bool"
  assumes core: "\<And>org c. keeps I (core_dispatch E org c)"
    and equips: "\<And>org c. keeps I (equip_dispatch E org c)"
    and market: "\<And>org c. keeps I (market_dispatch E org c)"
    and template: "\<And>org c. keeps I (template_dispatch org c)"
    and outside: "\<And>s x. F (ext s) x \<Longrightarrow> I s \<Longrightarrow> I (s\<lparr>ext := x\<rparr>)"
    and "I s" "runtime_step E F s s'"
  shows "I s'"
  using assms(7)
proof (cases rule: runtime_step.cases)
  case (call c org m r)
  show ?thesis
  proof (cases r)
    case (Inl e)
    with call have "s' = s" using dispatch_error_unchanged by blast
    with \<open>I s\<close> show ?thesis by simp
  next
    case (Inr u)
    have "keeps I m"
      using call(2) core equips market template by (cases c) auto
    with call(3) Inr \<open>I s\<close> show ?thesis by (auto dest: keepsD)
  qed
next
  case (foreign x)
  with outside \<open>I s\<close> show ?thesis by blast
qed

end
