(* ===== verification/Core_Effects.thy ===== *)
theory Core_Effects
  imports Core_Calls
begin

text \<open>
  What the calls of rmrk-core do to the storage when they succeed, one lemma per call: the facts
  the properties and the invariants of the chain are derived from.
\<close>

section \<open>Structural rules for burning and for the resources of a mint\<close>

lemma keeps_unlink_from_owner:
  "(\<And>s ch. I s \<Longrightarrow> I (s\<lparr>children := ch\<rparr>)) \<Longrightarrow> keeps I (unlink_from_owner k)"
  unfolding unlink_from_owner_def
  by (intro keeps_intros) (auto split: account_id_or_nft.split intro!: keeps_intros)

lemma keeps_drain_children:
  assumes "\<And>s ch. I s \<Longrightarrow> I (s\<lparr>children := ch\<rparr>)" "\<And>k. keeps I (body k)"
  shows "keeps I (drain_children body p ks)"
  by (induction ks) (auto intro!: keeps_intros assms)

lemma keeps_nft_burn_rec:
  assumes children: "\<And>s ch. I s \<Longrightarrow> I (s\<lparr>children := ch\<rparr>)"
    and nfts: "\<And>s k. I s \<Longrightarrow> I (s\<lparr>nfts := (nfts s)(k := None)\<rparr>)"
    and resources: "\<And>s k. I s \<Longrightarrow> I (s\<lparr>resources := remove_prefix k (resources s)\<rparr>)"
    and count: "\<And>s c col. I s \<Longrightarrow> collections s c = Some col \<Longrightarrow>
      I (s\<lparr>collections := (collections s)(c \<mapsto> col\<lparr>nfts_count := saturating_dec (nfts_count col)\<rparr>)\<rparr>)"
  shows "keeps I (nft_burn_rec E d k)"
proof (induction d arbitrary: k)
  case (Suc d)
  have "keeps I (decrement_nfts_count c)" for c
    by (rule keepsI) (auto simp: success intro: count)
  with Suc.IH show ?case
    by (auto intro!: keeps_intros keeps_unlink_from_owner keeps_drain_children children nfts resources)
qed (auto intro: keeps_intros)

lemma keeps_nft_burn:
  "keeps I (nft_burn_rec E (unat m) k) \<Longrightarrow> keeps I (nft_burn E k m)"
  unfolding nft_burn_def by (intro keeps_intros)

lemma keeps_resource_add:
  assumes "\<And>s m. I s \<Longrightarrow> I (s\<lparr>next_resource_id := m\<rparr>)" "\<And>s m. I s \<Longrightarrow> I (s\<lparr>resources := m\<rparr>)"
    "\<And>s m. I s \<Longrightarrow> I (s\<lparr>equippable_bases := m\<rparr>)" "\<And>s m. I s \<Longrightarrow> I (s\<lparr>equippable_slots := m\<rparr>)"
  shows "keeps I (resource_add E a k res b)"
  unfolding resource_add_def get_next_resource_id_def
  by (intro keeps_intros) (auto intro: assms)

lemma keeps_add_mint_resources:
  assumes "\<And>s m. I s \<Longrightarrow> I (s\<lparr>next_resource_id := m\<rparr>)" "\<And>s m. I s \<Longrightarrow> I (s\<lparr>resources := m\<rparr>)"
    "\<And>s m. I s \<Longrightarrow> I (s\<lparr>equippable_bases := m\<rparr>)" "\<And>s m. I s \<Longrightarrow> I (s\<lparr>equippable_slots := m\<rparr>)"
  shows "keeps I (add_mint_resources E a k ress)"
  unfolding add_mint_resources_def
  by (intro keeps_intros keeps_resource_add) (auto intro: assms)

text \<open>The parts of the storage the resources of a mint and a burn do not touch.\<close>

lemma add_mint_resources_frame:
  assumes "add_mint_resources E a k ress s = Some (Inr u, s')"
  shows "ext s' = ext s" "nfts s' = nfts s" "collections s' = collections s"
    "children s' = children s" "next_nft_id s' = next_nft_id s" "events s' = events s"
    "lock s' = lock s" "collection_index s' = collection_index s"
  by (rule keepsD[OF keeps_add_mint_resources assms]; simp)+

lemma nft_burn_rec_frame:
  assumes "nft_burn_rec E d k s = Some (Inr u, s')"
  shows "ext s' = ext s" "next_nft_id s' = next_nft_id s" "events s' = events s"
    "lock s' = lock s" "collection_index s' = collection_index s"
    "next_resource_id s' = next_resource_id s"
  by (rule keepsD[OF keeps_nft_burn_rec assms]; simp)+

section \<open>Owners of items\<close>

lemma success_ensure_collection_owner [success]:
  "ensure_collection_owner E a c s = Some (Inr u, s') \<longleftrightarrow>
     uq_collection_owner E (ext s) c = Some a \<and> s' = s"
  by (auto simp: ensure_collection_owner_def success split: option.splits)

lemma success_uniques_transfer [success]:
  "uniques_transfer E k a s = Some (Inr u, s') \<longleftrightarrow>
     (\<exists>x. uq_do_transfer E (is_locked s) k a (ext s) = (Inr (), x) \<and> s' = s\<lparr>ext := x\<rparr>)"
  by (auto simp: uniques_transfer_def success)

lemma success_lookup [success]:
  "lookupM E l s = Some (Inr a, s') \<longleftrightarrow> account_lookup E l = Inr a \<and> s' = s"
  by (auto simp: lookupM_def success split: sum.splits)

text \<open>The account a mint gives a new NFT.\<close>

definition mint_owner :: "'a \<Rightarrow> 'a option \<Rightarrow> 'a" where
  "mint_owner sender owner = (case owner of Some ow \<Rightarrow> ow | None \<Rightarrow> sender)"

lemma mint_nft_effect:
  assumes "mint_nft E org owner c rcp am md tr ress s = Some (Inr u, s')"
  obtains a n col x t where "org = Signed a" "n = next_nft_id s c" "n \<noteq> - 1"
    "uq_collection_owner E (ext s) c = Some a"
    "collections s c = Some col" "\<And>mx. col_max col = Some mx \<Longrightarrow> n < mx" "nfts_count col \<noteq> - 1"
    "uq_do_mint E (c, n) (mint_owner a owner) (ext s) = (Inr (), x)"
    "add_mint_resources E a (c, n) ress
      (s\<lparr>next_nft_id := (next_nft_id s)(c := n + 1),
         collections := (collections s)(c \<mapsto> col\<lparr>nfts_count := nfts_count col + 1\<rparr>),
         nfts := (nfts s)((c, n) \<mapsto> \<lparr>nft_owner = AccountId (mint_owner a owner),
           royalty = mint_royalty a rcp am, nft_metadata = md, equipped = False,
           nft_pending = (mint_owner a owner \<noteq> a), transferable = tr\<rparr>), ext := x\<rparr>)
      = Some (Inr (), t)"
    "s' = t\<lparr>events := events s @ [CoreEvent (NftMinted (AccountId (mint_owner a owner)) c n)]\<rparr>"
proof -
  obtain a k col x t where run: "org = Signed a" "uq_collection_owner E (ext s) c = Some a"
    "k = (c, next_nft_id s c)" "snd k \<noteq> - 1" "collections s c = Some col"
    "\<forall>mx. col_max col = Some mx \<longrightarrow> snd k < mx" "nfts_count col \<noteq> - 1"
    "uq_do_mint E k (mint_owner a owner) (ext s) = (Inr (), x)"
    "add_mint_resources E a k ress
      (s\<lparr>next_nft_id := (next_nft_id s)(c := snd k + 1),
         collections := (collections s)(c \<mapsto> col\<lparr>nfts_count := nfts_count col + 1\<rparr>),
         nfts := (nfts s)(k \<mapsto> \<lparr>nft_owner = AccountId (mint_owner a owner),
           royalty = mint_royalty a rcp am, nft_metadata = md, equipped = False,
           nft_pending = (mint_owner a owner \<noteq> a), transferable = tr\<rparr>), ext := x\<rparr>)
       = Some (Inr (), t)"
    "s' = t\<lparr>events := events t @ [CoreEvent (NftMinted (AccountId (mint_owner a owner))
       (fst k) (snd k))]\<rparr>"
    using assms unfolding mint_nft_def Let_def mint_owner_def[symmetric]
    by (auto simp: success)
  have "events t = events s"
    using add_mint_resources_frame(6)[OF run(9)] by simp
  with run show ?thesis by (intro that) simp_all
qed

lemma mint_directly_effect:
  assumes "mint_nft_directly_to_nft E org p c rcp am md tr ress s = Some (Inr u, s')"
  obtains a n col owner r acc x t where "org = Signed a" "n = next_nft_id s c" "n \<noteq> - 1"
    "uq_collection_owner E (ext s) c = Some a"
    "collections s c = Some col" "\<And>mx. col_max col = Some mx \<Longrightarrow> n < mx" "nfts_count col \<noteq> - 1"
    "lookup_root_owner E (ext s) p = Some (Inr (owner, r))" "nft_to_account_id E p = Some acc"
    "uq_do_mint E (c, n) acc (ext s) = (Inr (), x)"
    "add_mint_resources E a (c, n) ress
      (s\<lparr>next_nft_id := (next_nft_id s)(c := n + 1),
         collections := (collections s)(c \<mapsto> col\<lparr>nfts_count := nfts_count col + 1\<rparr>),
         nfts := (nfts s)((c, n) \<mapsto> \<lparr>nft_owner = CollectionAndNftTuple (fst p) (snd p),
           royalty = mint_royalty owner rcp am, nft_metadata = md, equipped = False,
           nft_pending = (owner \<noteq> a), transferable = tr\<rparr>), ext := x\<rparr>)
      = Some (Inr (), t)"
    "s' = t\<lparr>events := events s @
       [CoreEvent (NftMinted (CollectionAndNftTuple (fst p) (snd p)) c n)]\<rparr>"
proof -
  obtain a k col owner r acc x t where run: "org = Signed a"
    "uq_collection_owner E (ext s) c = Some a"
    "k = (c, next_nft_id s c)" "snd k \<noteq> - 1" "collections s c = Some col"
    "\<forall>mx. col_max col = Some mx \<longrightarrow> snd k < mx" "nfts_count col \<noteq> - 1"
    "lookup_root_owner E (ext s) p = Some (Inr (owner, r))" "nft_to_account_id E p = Some acc"
    "uq_do_mint E k acc (ext s) = (Inr (), x)"
    "add_mint_resources E a k ress
      (s\<lparr>next_nft_id := (next_nft_id s)(c := snd k + 1),
         collections := (collections s)(c \<mapsto> col\<lparr>nfts_count := nfts_count col + 1\<rparr>),
         nfts := (nfts s)(k \<mapsto> \<lparr>nft_owner = CollectionAndNftTuple (fst p) (snd p),
           royalty = mint_royalty owner rcp am, nft_metadata = md, equipped = False,
           nft_pending = (owner \<noteq> a), transferable = tr\<rparr>), ext := x\<rparr>) = Some (Inr (), t)"
    "s' = t\<lparr>events := events t @ [CoreEvent (NftMinted (CollectionAndNftTuple (fst p) (snd p))
       (fst k) (snd k))]\<rparr>"
    using assms unfolding mint_nft_directly_to_nft_def
    by (auto simp: success)
  have "events t = events s"
    using add_mint_resources_frame(6)[OF run(11)] by simp
  with run show ?thesis by (intro that) simp_all
qed

lemma burn_nft_effect:
  assumes "burn_nft E org k m s = Some (Inr u, s')"
  obtains a root t x where "org = Signed a"
    "lookup_root_owner E (ext s) k = Some (Inr (a, root))"
    "nft_burn_rec E (unat m) k s = Some (Inr (), t)" "uq_do_burn E k (ext s) = (Inr (), x)"
    "s' = t\<lparr>ext := x, events := events s @ [CoreEvent (NFTBurned a (snd k))]\<rparr>"
proof -
  obtain a root t x where run: "org = Signed a"
    "lookup_root_owner E (ext s) k = Some (Inr (a, root))"
    "nft_burn_rec E (unat m) k s = Some (Inr (), t)" "uq_do_burn E k (ext t) = (Inr (), x)"
    "s' = t\<lparr>ext := x, events := events t @ [CoreEvent (NFTBurned a (snd k))]\<rparr>"
    using assms unfolding burn_nft_def by (auto simp: success split: prod.splits)
  with nft_burn_rec_frame[OF run(3)] show ?thesis by (intro that) simp_all
qed

lemma send_effect:
  assumes "send E org k new_owner s = Some (Inr u, s')"
  obtains a root cur nft acc ask x where "org = Signed a"
    "lookup_root_owner E (ext s) k = Some (Inr (a, root))" "uq_owner E (ext s) k = Some cur"
    "nfts s k = Some nft" "transferable nft" "\<not> equipped nft"
    "send_target E k a new_owner s = Some (Inr (acc, ask), s)"
    "uq_do_transfer E (lock s) k acc (ext s) = (Inr (), x)"
    "s' = s\<lparr>nfts := (nfts s)(k \<mapsto> sent_record new_owner ask nft),
           children := moved_children E k cur acc (children s), ext := x,
           events := events s @ [CoreEvent (NFTSent a new_owner (fst k) (snd k) ask)]\<rparr>"
proof -
  obtain a acc ask t where a: "org = Signed a" and
    t: "nft_send E a k new_owner s = Some (Inr (acc, ask), t)" and
    rest: "seqM (uniques_transfer E k acc)
      (deposit_event (CoreEvent (NFTSent a new_owner (fst k) (snd k) ask))) t = Some (Inr (), s')"
    using assms unfolding send_def by (auto simp: success)
  from t show ?thesis
  proof (rule nft_send_success)
    fix cur root nft
    assume sent: "uq_owner E (ext s) k = Some cur"
      "lookup_root_owner E (ext s) k = Some (Inr (a, root))"
      "nfts s k = Some nft" "transferable nft" "\<not> equipped nft"
      "send_target E k a new_owner s = Some (Inr (acc, ask), s)"
      "t = s\<lparr>nfts := (nfts s)(k \<mapsto> sent_record new_owner ask nft),
             children := moved_children E k cur acc (children s)\<rparr>"
    have "is_locked t = lock s" by (rule ext) (simp add: is_locked_def sent(7))
    with rest sent(7) obtain x where "uq_do_transfer E (lock s) k acc (ext s) = (Inr (), x)"
      "s' = t\<lparr>ext := x, events := events s @ [CoreEvent (NFTSent a new_owner (fst k) (snd k) ask)]\<rparr>"
      by (auto simp: success)
    with a sent show ?thesis by (intro that) simp_all
  qed
qed

lemma accept_nft_effect:
  assumes "accept_nft E org k new_owner s = Some (Inr u, s')"
  obtains a root nft acc x where "org = Signed a"
    "lookup_root_owner E (ext s) k = Some (Inr (a, root))" "nfts s k = Some nft"
    "send_target E k a new_owner s = Some (Inr (acc, False), s)"
    "uq_do_transfer E (lock s) k acc (ext s) = (Inr (), x)"
    "s' = s\<lparr>nfts := (nfts s)(k \<mapsto> nft\<lparr>nft_pending := False\<rparr>), ext := x,
           events := events s @ [CoreEvent (NFTAccepted a new_owner (fst k) (snd k))]\<rparr>"
proof -
  obtain a acc k' t where a: "org = Signed a" and
    t: "nft_accept E a k new_owner s = Some (Inr (acc, k'), t)" and
    rest: "seqM (uniques_transfer E k' acc)
      (deposit_event (CoreEvent (NFTAccepted a new_owner (fst k') (snd k')))) t = Some (Inr (), s')"
    using assms unfolding accept_nft_def by (auto simp: success)
  obtain root nft where acc: "k' = k" "lookup_root_owner E (ext s) k = Some (Inr (a, root))"
    "nfts s k = Some nft" "send_target E k a new_owner s = Some (Inr (acc, False), s)"
    "t = s\<lparr>nfts := (nfts s)(k \<mapsto> nft\<lparr>nft_pending := False\<rparr>)\<rparr>"
    using t unfolding success_nft_accept by blast
  have "is_locked t = lock s" by (rule ext) (simp add: is_locked_def acc(5))
  with rest acc(1,5) obtain x where "uq_do_transfer E (lock s) k acc (ext s) = (Inr (), x)"
    "s' = t\<lparr>ext := x, events := events s @ [CoreEvent (NFTAccepted a new_owner (fst k) (snd k))]\<rparr>"
    by (auto simp: success)
  with a acc show ?thesis by (intro that) simp_all
qed

lemma reject_nft_effect:
  assumes "reject_nft E org k s = Some (Inr u, s')"
  obtains a root nft t where "org = Signed a"
    "lookup_root_owner E (ext s) k = Some (Inr (a, root))" "nfts s k = Some nft" "nft_pending nft"
    "nft_burn_rec E (unat (max_recursions E)) k (unlinked E k s) = Some (Inr (), t)"
    "s' = t\<lparr>events := events s @ [CoreEvent (NFTRejected a (fst k) (snd k))]\<rparr>"
proof -
  obtain a root nft t where run: "org = Signed a"
    "lookup_root_owner E (ext s) k = Some (Inr (a, root))" "nfts s k = Some nft" "nft_pending nft"
    "nft_burn_rec E (unat (max_recursions E)) k (unlinked E k s) = Some (Inr (), t)"
    "s' = t\<lparr>events := events t @ [CoreEvent (NFTRejected a (fst k) (snd k))]\<rparr>"
    using assms unfolding reject_nft_def by (auto simp: success)
  with nft_burn_rec_frame(3)[OF run(5)] show ?thesis by (intro that) simp_all
qed

text \<open>
  The accounts a call can make the owner of an NFT, other than the virtual account of an NFT it
  names as such.
\<close>

fun handed_to :: "'a raw_origin \<Rightarrow> ('a, 'l) core_call \<Rightarrow> 'a list" where
  "handed_to (Signed a) (MintNft ow c rcp am md tr rs) = (case ow of None \<Rightarrow> [a] | Some b \<Rightarrow> [b])"
| "handed_to org (Send k (AccountId b)) = [b]"
| "handed_to org (AcceptNft k (AccountId b)) = [b]"
| "handed_to org call = []"

text \<open>
  What a successful call of rmrk-core does to the owners of items: nothing, or one item is minted,
  burned or moved: minted under the next identifier of its collection, the last two only by the
  account that root-owns it and the last only when it is not locked.
\<close>

inductive owner_change ::
  "('a, 'l, 'x) env \<Rightarrow> 'a raw_origin \<Rightarrow> ('a, 'l) core_call \<Rightarrow> ('a, 'x, 'z) core_state_scheme \<Rightarrow>
    'x \<Rightarrow> bool" for E org c s where
  kept: "uq_owner E x = uq_owner E (ext s) \<Longrightarrow> owner_change E org c s x"
| minted: "uq_owner E (ext s) k = None \<Longrightarrow> uq_owner E x = (uq_owner E (ext s))(k := Some b) \<Longrightarrow>
    b \<in> set (handed_to org c) \<or>
      (\<exists>p r. nft_to_account_id E p = Some b \<and> lookup_root_owner E (ext s) p = Some (Inr r)) \<Longrightarrow>
    snd k = next_nft_id s (fst k) \<Longrightarrow> owner_change E org c s x"
| burned: "org = Signed a \<Longrightarrow> lookup_root_owner E (ext s) k = Some (Inr (a, root)) \<Longrightarrow>
    c = BurnNft k m \<Longrightarrow> uq_owner E x = (uq_owner E (ext s))(k := None) \<Longrightarrow>
    owner_change E org c s x"
| moved: "org = Signed a \<Longrightarrow> lookup_root_owner E (ext s) k = Some (Inr (a, root)) \<Longrightarrow> \<not> lock s k \<Longrightarrow>
    uq_owner E x = (uq_owner E (ext s))(k := Some b) \<Longrightarrow>
    b \<in> set (handed_to org c) \<or>
      (\<exists>p. nft_to_account_id E p = Some b \<and> p \<noteq> k \<and>
        is_x_descendent_of_y E (ext s) p k = Some (Inr False)) \<Longrightarrow>
    owner_change E org c s x"

text \<open>The calls that touch neither an item nor a collection of \<^verbatim>\<open>pallet_uniques\<close>.\<close>

lemma keeps_ext_other:
  "keeps (\<lambda>s. ext s = x) (lock_collection org c)"
  "keeps (\<lambda>s. ext s = x) (set_property E org c mn key val)"
  "keeps (\<lambda>s. ext s = x) (add_resource E org k res)"
  "keeps (\<lambda>s. ext s = x) (accept_resource E org k r)"
  "keeps (\<lambda>s. ext s = x) (remove_resource E org k r)"
  "keeps (\<lambda>s. ext s = x) (accept_resource_removal E org k r)"
  "keeps (\<lambda>s. ext s = x) (set_priority E org k rs)"
  by (auto simp: keeps_def core_call_defs success split: prod.splits)

lemma send_target_owner:
  assumes "send_target E k a new_owner s = Some (Inr (acc, ask), s)"
  shows "new_owner = AccountId acc \<or>
    (\<exists>p. nft_to_account_id E p = Some acc \<and> p \<noteq> k \<and> is_x_descendent_of_y E (ext s) p k = Some (Inr False))"
  using assms by (cases new_owner) (auto simp: success)

lemma core_call_owners:
  fixes E :: "('a, 'l, 'x) env" and s s' :: "('a, 'x, 'z) core_state_scheme"
  assumes laws: "uniques_laws E" and run: "core_dispatch E org c s = Some (Inr u, s')"
  shows "owner_change E org c s (ext s')"
proof -
  have same: "owner_change E org c s (ext s')"
    if "keeps (\<lambda>t. ext t = ext s) (core_dispatch E org c :: ('a, 'x, 'z, unit) core_action)"
    using keepsD[OF that run] by (intro owner_change.kept) simp
  show ?thesis
  proof (cases c)
    case (MintNft ow cl rcp am md tr rs)
    with run have "mint_nft E org ow cl rcp am md tr rs s = Some (Inr u, s')" by simp
    then show ?thesis
    proof (rule mint_nft_effect)
      fix a n col x t
      assume n: "n = next_nft_id s cl"
        and eff: "org = Signed a" "uq_do_mint E (cl, n) (mint_owner a ow) (ext s) = (Inr (), x)"
        "add_mint_resources E a (cl, n) rs
          (s\<lparr>next_nft_id := (next_nft_id s)(cl := n + 1),
             collections := (collections s)(cl \<mapsto> col\<lparr>nfts_count := nfts_count col + 1\<rparr>),
             nfts := (nfts s)((cl, n) \<mapsto> \<lparr>nft_owner = AccountId (mint_owner a ow),
               royalty = mint_royalty a rcp am, nft_metadata = md, equipped = False,
               nft_pending = (mint_owner a ow \<noteq> a), transferable = tr\<rparr>), ext := x\<rparr>)
          = Some (Inr (), t)"
        "s' = t\<lparr>events := events s @ [CoreEvent (NftMinted (AccountId (mint_owner a ow)) cl n)]\<rparr>"
      have "ext s' = x" using add_mint_resources_frame(1)[OF eff(3)] eff(4) by simp
      moreover have "mint_owner a ow \<in> set (handed_to org c)"
        using MintNft eff(1) by (cases ow) (simp_all add: mint_owner_def)
      ultimately show ?thesis
        using uniques_mint[OF laws eff(2)] n by (intro owner_change.minted[where k = "(cl, n)"]) auto
    qed
  next
    case (MintNftDirectlyToNft p cl rcp am md tr rs)
    with run have "mint_nft_directly_to_nft E org p cl rcp am md tr rs s = Some (Inr u, s')" by simp
    then show ?thesis
    proof (rule mint_directly_effect)
      fix a n col owner r acc x t
      assume n: "n = next_nft_id s cl"
        and eff: "lookup_root_owner E (ext s) p = Some (Inr (owner, r))"
        "nft_to_account_id E p = Some acc" "uq_do_mint E (cl, n) acc (ext s) = (Inr (), x)"
        "add_mint_resources E a (cl, n) rs
          (s\<lparr>next_nft_id := (next_nft_id s)(cl := n + 1),
             collections := (collections s)(cl \<mapsto> col\<lparr>nfts_count := nfts_count col + 1\<rparr>),
             nfts := (nfts s)((cl, n) \<mapsto> \<lparr>nft_owner = CollectionAndNftTuple (fst p) (snd p),
               royalty = mint_royalty owner rcp am, nft_metadata = md, equipped = False,
               nft_pending = (owner \<noteq> a), transferable = tr\<rparr>), ext := x\<rparr>)
          = Some (Inr (), t)"
        "s' = t\<lparr>events := events s @
           [CoreEvent (NftMinted (CollectionAndNftTuple (fst p) (snd p)) cl n)]\<rparr>"
      have "ext s' = x" using add_mint_resources_frame(1)[OF eff(4)] eff(5) by simp
      moreover have "\<exists>p r. nft_to_account_id E p = Some acc \<and>
          lookup_root_owner E (ext s) p = Some (Inr r)"
        using eff(1,2) by blast
      ultimately show ?thesis
        using uniques_mint[OF laws eff(3)] n
        by (intro owner_change.minted[where k = "(cl, n)" and b = acc] disjI2) simp_all
    qed
  next
    case (BurnNft k m)
    with run have "burn_nft E org k m s = Some (Inr u, s')" by simp
    then show ?thesis
    proof (rule burn_nft_effect)
      fix a root t x
      assume eff: "org = Signed a" "lookup_root_owner E (ext s) k = Some (Inr (a, root))"
        "uq_do_burn E k (ext s) = (Inr (), x)"
        "s' = t\<lparr>ext := x, events := events s @ [CoreEvent (NFTBurned a (snd k))]\<rparr>"
      show ?thesis
        using uniques_burn(2)[OF laws eff(3)] eff(4)
        by (intro owner_change.burned[OF eff(1,2) BurnNft]) simp
    qed
  next
    case (Send k ow)
    with run have "send E org k ow s = Some (Inr u, s')" by simp
    then show ?thesis
    proof (rule send_effect)
      fix a root cur nft acc ask x
      assume eff: "org = Signed a" "lookup_root_owner E (ext s) k = Some (Inr (a, root))"
        "send_target E k a ow s = Some (Inr (acc, ask), s)"
        "uq_do_transfer E (lock s) k acc (ext s) = (Inr (), x)"
        "s' = s\<lparr>nfts := (nfts s)(k \<mapsto> sent_record ow ask nft),
           children := moved_children E k cur acc (children s), ext := x,
           events := events s @ [CoreEvent (NFTSent a ow (fst k) (snd k) ask)]\<rparr>"
      have "acc \<in> set (handed_to org c)" if "ow = AccountId acc" using that Send by simp
      then show ?thesis
        using uniques_transfer[OF laws eff(4)] send_target_owner[OF eff(3)] eff(5)
        by (intro owner_change.moved[OF eff(1,2), where b = acc]) auto
    qed
  next
    case (AcceptNft k ow)
    with run have "accept_nft E org k ow s = Some (Inr u, s')" by simp
    then show ?thesis
    proof (rule accept_nft_effect)
      fix a root nft acc x
      assume eff: "org = Signed a" "lookup_root_owner E (ext s) k = Some (Inr (a, root))"
        "send_target E k a ow s = Some (Inr (acc, False), s)"
        "uq_do_transfer E (lock s) k acc (ext s) = (Inr (), x)"
        "s' = s\<lparr>nfts := (nfts s)(k \<mapsto> nft\<lparr>nft_pending := False\<rparr>), ext := x,
           events := events s @ [CoreEvent (NFTAccepted a ow (fst k) (snd k))]\<rparr>"
      have "acc \<in> set (handed_to org c)" if "ow = AccountId acc" using that AcceptNft by simp
      then show ?thesis
        using uniques_transfer[OF laws eff(4)] send_target_owner[OF eff(3)] eff(5)
        by (intro owner_change.moved[OF eff(1,2), where b = acc]) auto
    qed
  next
    case (RejectNft k)
    with run have "reject_nft E org k s = Some (Inr u, s')" by simp
    then show ?thesis
    proof (rule reject_nft_effect)
      fix a root nft t
      assume eff: "nft_burn_rec E (unat (max_recursions E)) k (unlinked E k s) = Some (Inr (), t)"
        "s' = t\<lparr>events := events s @ [CoreEvent (NFTRejected a (fst k) (snd k))]\<rparr>"
      then show ?thesis
        using nft_burn_rec_frame(1)[OF eff(1)] by (intro owner_change.kept) simp
    qed
  next
    case (CreateCollection md mx sy)
    with run show ?thesis
      using uniques_collection_calls(1)[OF laws]
      by (intro owner_change.kept) (auto simp: create_collection_def success)
  next
    case (DestroyCollection cl)
    with run show ?thesis
      using uniques_collection_calls(2)[OF laws]
      by (intro owner_change.kept) (auto simp: destroy_collection_def success)
  next
    case (ChangeCollectionIssuer cl l)
    with run show ?thesis
      using uniques_collection_calls(3)[OF laws]
      by (intro owner_change.kept) (auto simp: change_collection_issuer_def success split: prod.splits)
  qed (rule same; simp add: keeps_ext_other add_basic_resource_def add_composable_resource_def
      add_slot_resource_def)+
qed

section \<open>Chains of owners stay finite\<close>

text \<open>Giving a new item to an account that stands for no NFT, or for one with a root owner.\<close>

lemma nesting_minted:
  assumes ok: "nesting_ok E x"
    and new: "uq_owner E x k = None" "uq_owner E x' = (uq_owner E x)(k := Some b)"
    and b: "\<And>p. decode_nft_account_id E b = Some p \<Longrightarrow> \<exists>r. lookup_root_owner E x p = Some (Inr r)"
  shows "nesting_ok E x'"
proof (rule nesting_ok_owner[OF ok new(2)])
  fix p assume "decode_nft_account_id E b = Some p"
  then obtain r where "lookup_root_owner E x p = Some (Inr r)" using b by blast
  moreover have "lookup_root_owner E x k = Some (Inl (CoreError NoAvailableNftId))"
    by (rule root.walk_None[OF new(1)])
  ultimately have "lookup_root_owner E x p \<noteq> lookup_root_owner E x k" by simp
  then show "p \<noteq> k \<and> \<not> below (nft_parent E x) p k"
    using root.walk_below[of E x p k] by metis
qed

text \<open>
  The calls of rmrk-core that hand NFTs to ordinary accounts, and to NFTs by their identifiers, keep
  all chains of owners finite.
\<close>

lemma core_keeps_nesting:
  assumes laws: "codec_laws E" "wide_accounts E" "uniques_laws E"
    and ok: "nesting_ok E (ext s)"
    and plain: "\<forall>b\<in>set (handed_to org c). decode_nft_account_id E b = None"
    and run: "core_dispatch E org c s = Some (Inr u, s')"
  shows "nesting_ok E (ext s')"
proof -
  have decode: "decode_nft_account_id E b = Some p" if "nft_to_account_id E p = Some b" for b p
    by (rule decode_nft_to_account_id[OF laws(1,2) that])
  from core_call_owners[OF laws(3) run] show ?thesis
  proof (cases rule: owner_change.cases)
    case kept
    then show ?thesis using ok nesting_ok_same[of E "ext s'" "ext s"] by simp
  next
    case (minted k b)
    have "\<exists>r. lookup_root_owner E (ext s) p = Some (Inr r)" if "decode_nft_account_id E b = Some p" for p
    proof -
      have "b \<notin> set (handed_to org c)" using plain that by auto
      with minted(3) obtain p' r where p': "nft_to_account_id E p' = Some b"
        "lookup_root_owner E (ext s) p' = Some (Inr r)" by blast
      have "p' = p" using decode[OF p'(1)] that by (metis option.inject)
      with p'(2) show ?thesis by blast
    qed
    then show ?thesis by (rule nesting_minted[OF ok minted(1,2)])
  next
    case (burned a k root m)
    then show ?thesis by (intro nesting_ok_removed[OF ok])
  next
    case (moved a k root b)
    have "p \<noteq> k \<and> \<not> below (nft_parent E (ext s)) p k" if "decode_nft_account_id E b = Some p" for p
    proof -
      have "b \<notin> set (handed_to org c)" using plain that by auto
      with moved(5) obtain p' where p': "nft_to_account_id E p' = Some b" "p' \<noteq> k"
        "is_x_descendent_of_y E (ext s) p' k = Some (Inr False)" by auto
      have "p' = p" using decode[OF p'(1)] that by (metis option.inject)
      with p' show ?thesis using descendent_False[of E "ext s" p k] by metis
    qed
    then show ?thesis by (rule nesting_ok_owner[OF ok moved(4)])
  qed
qed

end
