(* ===== verification/Burn_Effect.thy ===== *)
theory Burn_Effect
  imports Core_Effects
begin

text \<open>
  What \<^verbatim>\<open>nft_burn\<close> does to the records of NFTs: it returns for every limit on the recursion, and
  when it succeeds it has removed exactly the records of the NFTs that hang below the burned one
  in \<^verbatim>\<open>Children\<close>.
\<close>

section \<open>Burning returns\<close>

definition returns :: "('s, 'e, 'r) action \<Rightarrow> bool" where
  "returns m \<longleftrightarrow> (\<forall>s. m s \<noteq> None)"

lemma returns_basic:
  "returns (returnM r)" "returns (failM e)" "returns (getsM f)" "returns (modifyM g)"
  "returns (ok_orM x e)" "returns (get_okM h e)"
  by (auto simp: returns_def run_simps split: option.splits)

lemma returns_bind: "returns m \<Longrightarrow> (\<And>q. returns (f q)) \<Longrightarrow> returns (bindM m f)"
  unfolding returns_def run_simps by (fastforce split: option.splits sum.splits prod.splits)

lemma returns_seq: "returns m \<Longrightarrow> returns n \<Longrightarrow> returns (seqM m n)"
  unfolding seqM_def by (rule returns_bind)

lemma returns_drain: "(\<And>k. returns (body k)) \<Longrightarrow> returns (drain_children body p ks)"
  by (induction ks) (auto simp: remove_child_def intro!: returns_basic returns_bind returns_seq)

lemma returns_nft_burn_rec: "returns (nft_burn_rec E d k)"
proof (induction d arbitrary: k)
  case (Suc d)
  have "returns (unlink_from_owner k)"
    by (auto simp: unlink_from_owner_def remove_child_def intro!: returns_basic returns_bind
        split: option.split account_id_or_nft.split)
  moreover have "returns (decrement_nfts_count c)" for c
    by (auto simp: decrement_nfts_count_def intro!: returns_basic returns_bind)
  ultimately show ?case
    using Suc.IH by (auto intro!: returns_basic returns_bind returns_seq returns_drain)
qed (simp add: returns_basic)

section \<open>The records a burn removes\<close>

text \<open>
  \<open>burned B s s'\<close>: from \<open>s\<close> to \<open>s'\<close> exactly the records of \<open>B\<close> went, an NFT only left the children
  of another one if it is in \<open>B\<close>, and no NFT joined them.
\<close>

definition burned_set ::
  "nft set \<Rightarrow> ('a, 'x, 'z) core_state_scheme \<Rightarrow> ('a, 'x, 'z) core_state_scheme \<Rightarrow> bool" where
  "burned_set B s s' \<longleftrightarrow>
     (\<forall>j. nfts s' j = (if j \<in> B then None else nfts s j)) \<and>
     (\<forall>p. set (children s' p) \<subseteq> set (children s p)) \<and>
     (\<forall>p. set (children s p) - set (children s' p) \<subseteq> B)"

definition child_closed :: "nft set \<Rightarrow> ('a, 'x, 'z) core_state_scheme \<Rightarrow> bool" where
  "child_closed B s \<longleftrightarrow> (\<forall>p\<in>B. set (children s p) \<subseteq> B)"

abbreviation child_reach ::
  "('a, 'x, 'z) core_state_scheme \<Rightarrow> nft \<Rightarrow> nft \<Rightarrow> bool" where
  "child_reach s \<equiv> (\<lambda>p c. c \<in> set (children s p))\<^sup>*\<^sup>*"

lemma burned_set_trans:
  assumes "burned_set A s t" "burned_set B t u"
  shows "burned_set (A \<union> B) s u"
  using assms unfolding burned_set_def
  by (intro conjI) (simp del: split_paired_All, blast, blast)

lemma child_closed_union:
  "burned_set A s t \<Longrightarrow> child_closed A s \<Longrightarrow> child_closed B t \<Longrightarrow> child_closed (A \<union> B) s"
  unfolding burned_set_def child_closed_def by fast

lemma child_reach_mono:
  "burned_set A s t \<Longrightarrow> child_reach t p c \<Longrightarrow> child_reach s p c"
  unfolding burned_set_def by (erule rtranclp_mono[THEN predicate2D, rotated]) blast

lemma closed_reach: "child_closed B s \<Longrightarrow> p \<in> B \<Longrightarrow> child_reach s p c \<Longrightarrow> c \<in> B"
  unfolding child_closed_def by (rotate_tac 2, induction rule: rtranclp_induct) auto

text \<open>A burn that starts after the burned NFT left the children of one NFT.\<close>

lemma burned_set_after_removal:
  assumes "nfts t1 = nfts t" "\<And>q. set (children t1 q) \<subseteq> set (children t q)"
    and "\<And>q. set (children t q) \<subseteq> insert k (set (children t1 q))"
    and "burned_set A t1 t2" "k \<in> A"
  shows "burned_set A t t2"
  using assms unfolding burned_set_def
  by (intro conjI) (simp del: split_paired_All, blast, blast)

lemma child_closed_after_removal:
  assumes "\<And>q. set (children t q) \<subseteq> insert k (set (children t1 q))"
    and "child_closed A t1" "k \<in> A"
  shows "child_closed A t"
  using assms unfolding child_closed_def by blast

lemma removed_child:
  "set (children (t\<lparr>children := (children t)(p := removeAll k (children t p))\<rparr>) q) \<subseteq> set (children t q)"
  "set (children t q) \<subseteq>
    insert k (set (children (t\<lparr>children := (children t)(p := removeAll k (children t p))\<rparr>) q))"
  by auto

text \<open>What one call, and what a loop over children, establishes.\<close>

definition burns :: "nft \<Rightarrow> ('a, 'x, 'z) core_state_scheme \<Rightarrow> ('a, 'x, 'z) core_state_scheme \<Rightarrow> nft set \<Rightarrow> bool" where
  "burns k s s' B \<longleftrightarrow> burned_set B s s' \<and> child_closed B s \<and> k \<in> B \<and> (\<forall>j\<in>B. child_reach s k j)"

lemma drain_burns:
  assumes body: "\<And>k t t'. body k t = Some (Inr (), t') \<Longrightarrow> \<exists>B. burns k t t' B"
    and run: "drain_children body p ks t = Some (Inr (), t')"
  shows "\<exists>B. burned_set B t t' \<and> child_closed B t \<and> set ks \<inter> set (children t p) \<subseteq> B \<and>
    (\<forall>j\<in>B. child_reach t p j)"
  using run
proof (induction ks arbitrary: t)
  case Nil
  then show ?case
    by (intro exI[of _ "{}"]) (auto simp: success burned_set_def child_closed_def)
next
  case (Cons k ks)
  show ?case
  proof (cases "k \<in> set (children t p)")
    case True
    let ?t1 = "t\<lparr>children := (children t)(p := removeAll k (children t p))\<rparr>"
    obtain t2 where one: "body k ?t1 = Some (Inr (), t2)"
      and rest: "drain_children body p ks t2 = Some (Inr (), t')"
      using Cons.prems True by (auto simp: success)
    obtain A where A: "burns k ?t1 t2 A" using body[OF one] by blast
    obtain B where B: "burned_set B t2 t'" "child_closed B t2"
      "set ks \<inter> set (children t2 p) \<subseteq> B" "\<forall>j\<in>B. child_reach t2 p j"
      using Cons.IH[OF rest] by blast
    have "k \<in> A" using A by (simp add: burns_def)
    moreover have "burned_set A t t2"
      using A \<open>k \<in> A\<close> burned_set_after_removal[OF _ removed_child] unfolding burns_def by fastforce
    moreover have "child_closed A t"
      using A \<open>k \<in> A\<close> child_closed_after_removal[OF removed_child(2)] unfolding burns_def by blast
    ultimately have A1: "burned_set A t t2" "child_closed A t" "k \<in> A" by blast+
    have step: "child_reach t p k" using True by (simp add: r_into_rtranclp)
    have "child_reach t p j" if "j \<in> A" for j
    proof -
      have "child_reach ?t1 k j" using A that by (simp add: burns_def)
      then have "child_reach t k j" by (rule rtranclp_mono[THEN predicate2D, rotated])
        (auto split: if_splits)
      with step show ?thesis by (rule rtranclp_trans)
    qed
    moreover have "child_reach t p j" if "j \<in> B" for j
      using B(4) that child_reach_mono[OF A1(1)] by blast
    moreover have "set (k # ks) \<inter> set (children t p) \<subseteq> A \<union> B"
      using A1(1,3) B(3) unfolding burned_set_def by (simp del: split_paired_All) blast
    ultimately show ?thesis
      using burned_set_trans[OF A1(1) B(1)] child_closed_union[OF A1(1,2) B(2)]
      by (intro exI[of _ "A \<union> B"]) blast
  next
    case False
    then show ?thesis using Cons.IH Cons.prems by (auto simp: success)
  qed
qed

text \<open>The removal an NFT's own record asks for, before it is burned.\<close>

lemma unlink_from_owner_result:
  assumes "unlink_from_owner k s = Some (Inr u, t)"
  shows "t = s \<or> (\<exists>p. t = s\<lparr>children := (children s)(p := removeAll k (children s p))\<rparr>)"
  using assms unfolding unlink_from_owner_def
  by (auto simp: success split: option.splits account_id_or_nft.splits)

lemma nft_burn_rec_burns:
  fixes E :: "('a, 'l, 'x) env" and s s' :: "('a, 'x, 'z) core_state_scheme"
  assumes iter: "iteration_laws E"
  shows "nft_burn_rec E d k s = Some (Inr u, s') \<Longrightarrow> \<exists>B. burns k s s' B"
proof (induction d arbitrary: k s s' u)
  case (Suc d)
  obtain s1 s2 s3 where run: "unlink_from_owner k s = Some (Inr (), s1)"
    "s2 = s1\<lparr>nfts := (nfts s1)(k := None), resources := remove_prefix k (resources s1)\<rparr>"
    "drain_children (nft_burn_rec E d) k (iter_order E (children s2 k)) s2 = Some (Inr (), s3)"
    "decrement_nfts_count (fst k) s3 = Some (Inr (), s')"
    using Suc.prems by (auto simp: success)
  have s1: "nfts s1 = nfts s" "set (children s1 q) \<subseteq> set (children s q)"
    "set (children s q) \<subseteq> insert k (set (children s1 q))" for q
    using unlink_from_owner_result[OF run(1)] by (auto split: if_splits)
  have order: "set (iter_order E (children s2 k)) = set (children s2 k)"
    using iter by (simp add: iteration_laws_def)
  obtain B where B: "burned_set B s2 s3" "child_closed B s2"
    "set (iter_order E (children s2 k)) \<inter> set (children s2 k) \<subseteq> B" "\<forall>j\<in>B. child_reach s2 k j"
    using drain_burns[where body = "nft_burn_rec E d", OF _ run(3)] Suc.IH by blast
  have s': "nfts s' = nfts s3" "children s' = children s3"
    using run(4) by (auto simp: success)
  have s2: "nfts s2 = (nfts s)(k := None)" "children s2 = children s1"
    using run(2) s1(1) by simp_all
  let ?B = "insert k B"
  have "burned_set ?B s s'"
    unfolding burned_set_def
  proof (intro conjI allI)
    show "nfts s' j = (if j \<in> ?B then None else nfts s j)" for j
      using B(1) s' s2 unfolding burned_set_def by (auto simp del: split_paired_All)
    show "set (children s' p) \<subseteq> set (children s p)" for p
      using B(1) s1(2)[of p] unfolding burned_set_def s' s2 by blast
    show "set (children s p) - set (children s' p) \<subseteq> ?B" for p
      using B(1) s1(3)[of p] unfolding burned_set_def s' s2 by blast
  qed
  moreover have "child_closed ?B s"
    unfolding child_closed_def
  proof
    fix p assume p: "p \<in> ?B"
    have "set (children s1 p) \<subseteq> ?B"
    proof (cases "p = k")
      case True
      then show ?thesis using B(3)[unfolded order] s2(2) by simp blast
    next
      case False
      then have "p \<in> B" using p by simp
      with B(2) have "set (children s2 p) \<subseteq> B" unfolding child_closed_def by (rule bspec)
      then show ?thesis unfolding s2(2) by (rule subset_insertI2)
    qed
    then have "insert k (set (children s1 p)) \<subseteq> ?B" by simp
    with s1(3)[of p] show "set (children s p) \<subseteq> ?B" by (rule subset_trans)
  qed
  moreover have "child_reach s k j" if "j \<in> ?B" for j
  proof (cases "j = k")
    case False
    then have "child_reach s2 k j" using B(4) that by blast
    then show ?thesis
      using s2(2) s1(2) by (elim rtranclp_mono[THEN predicate2D, rotated]) auto
  qed simp
  ultimately show ?case unfolding burns_def by blast
qed (simp add: success)

lemma nft_burn_rec_records:
  assumes "iteration_laws E" "nft_burn_rec E d k s = Some (Inr u, s')"
  shows "nfts s' j = (if child_reach s k j then None else nfts s j)"
proof -
  obtain B where "burns k s s' B" using nft_burn_rec_burns[OF assms] by blast
  then have B: "burned_set B s s'" "child_closed B s" "k \<in> B" "\<forall>j\<in>B. child_reach s k j"
    by (simp_all add: burns_def)
  have "j \<in> B \<longleftrightarrow> child_reach s k j" using B(4) closed_reach[OF B(2,3)] by blast
  with B(1) show ?thesis unfolding burned_set_def by (simp del: split_paired_All)
qed

lemma nft_burn_rec_resources:
  assumes "nft_burn_rec E d k s = Some (Inr u, s')"
  shows "resources s' (k, r) = None"
proof (cases d)
  case (Suc d')
  obtain s1 t t' where run1: "t = s1\<lparr>nfts := (nfts s1)(k := None), resources := remove_prefix k (resources s1)\<rparr>"
    and run: "drain_children (nft_burn_rec E d') k (iter_order E (children t k)) t = Some (Inr (), t')"
    "decrement_nfts_count (fst k) t' = Some (Inr (), s')"
    using assms Suc by (auto simp: success)
  have gone: "resources t (k, r) = None" by (cases k) (simp add: run1)
  have "keeps (\<lambda>t. resources t (k, r) = None) (drain_children (nft_burn_rec E d') k ks)" for ks
    by (auto intro!: keeps_drain_children keeps_nft_burn_rec)
  from keepsD[OF this run(1)] gone have "resources t' (k, r) = None" by simp
  then show ?thesis using run(2) by (auto simp: success)
qed (use assms in \<open>simp add: success\<close>)

end
