(* ===== verification/Chain.thy ===== *)
theory Chain
  imports Runtime Burn_Effect
begin

text \<open>
  Invariants of the whole chain: predicates on the runtime's storage that every step keeps, for any
  environment and whatever the rest of the chain does to the external storage. The structural rules
  come first, then one section per invariant, then the interpretations of \<open>step_invariant\<close>.
\<close>

section \<open>What the calls of rmrk-core keep\<close>

lemma keeps_ensure_collection_owner [keeps_intros]: "keeps I (ensure_collection_owner E a c)"
  by (auto simp: keeps_def success)

lemma keeps_to_virtual_account [keeps_intros]: "keeps I (to_virtual_account E k)"
  by (auto simp: keeps_def success)

lemma keeps_lookup [keeps_intros]: "keeps I (lookupM E l)"
  by (auto simp: keeps_def success)

lemma keeps_uniques_transfer:
  "(\<And>s x. I s \<Longrightarrow> uniques_op E (ext s) x \<Longrightarrow> I (s\<lparr>ext := x\<rparr>)) \<Longrightarrow>
    keeps I (uniques_transfer E k a)"
  unfolding uniques_transfer_def by (intro keeps_intros keeps_uniques_ops) assumption

text \<open>
  A predicate every operation keeps is kept by every call. The operations that store data of the
  call need only keep it for the data of this call.
\<close>

fun mints :: "('a, 'l) core_call \<Rightarrow> bool" where
  "mints (MintNft ow c rcp am md tr rs) = True"
| "mints (MintNftDirectlyToNft p c rcp am md tr rs) = True"
| "mints call = False"

fun minted_metadata :: "('a, 'l) core_call \<Rightarrow> bytes option" where
  "minted_metadata (MintNft ow c rcp am md tr rs) = Some md"
| "minted_metadata (MintNftDirectlyToNft p c rcp am md tr rs) = Some md"
| "minted_metadata call = None"

fun call_resources :: "('a, 'l) core_call \<Rightarrow> resource_types list" where
  "call_resources (MintNft ow c rcp am md tr rs) = (case rs of None \<Rightarrow> [] | Some xs \<Rightarrow> xs)"
| "call_resources (MintNftDirectlyToNft p c rcp am md tr rs) = (case rs of None \<Rightarrow> [] | Some xs \<Rightarrow> xs)"
| "call_resources (AddBasicResource k r) = [Basic r]"
| "call_resources (AddComposableResource k r) = [Composable r]"
| "call_resources (AddSlotResource k r) = [Slot r]"
| "call_resources call = []"

lemma mints_metadata: "mints c \<longleftrightarrow> minted_metadata c \<noteq> None"
  by (cases c) simp_all

lemma keeps_core_dispatch:
  assumes frame: "\<And>s v. I s \<Longrightarrow> I (s\<lparr>events := v\<rparr>)"
    and uniques: "\<And>s x. I s \<Longrightarrow> uniques_op E (ext s) x \<Longrightarrow> I (s\<lparr>ext := x\<rparr>)"
    and maps: "\<And>s m. I s \<Longrightarrow> I (s\<lparr>priorities := m\<rparr>)" "\<And>s m. I s \<Longrightarrow> I (s\<lparr>children := m\<rparr>)"
    and property: "\<And>s cl n key val. c = SetProperty cl n key val \<Longrightarrow> I s \<Longrightarrow>
      I (s\<lparr>properties := (properties s)((cl, n, key) \<mapsto> val)\<rparr>)"
    and mint: "\<And>a ow cl rcp am md tr. minted_metadata c = Some md \<Longrightarrow>
        keeps I (nft_mint a ow cl rcp am md tr)"
      "\<And>a p cl rcp am md tr. minted_metadata c = Some md \<Longrightarrow>
        keeps I (nft_mint_directly_to_nft E a p cl rcp am md tr)"
    and create: "\<And>a md mx sy. c = CreateCollection md mx sy \<Longrightarrow>
      keeps I (collection_create a md mx sy)"
    and collection: "\<And>a cl. c = DestroyCollection cl \<Longrightarrow> keeps I (collection_burn a cl)"
      "\<And>cl a l. c = ChangeCollectionIssuer cl l \<Longrightarrow> keeps I (collection_change_issuer cl a)"
      "\<And>a c. keeps I (collection_lock a c)"
    and burn: "\<And>d k. keeps I (nft_burn_rec E d k)"
    and transfer: "\<And>a k ow. keeps I (nft_send E a k ow)" "\<And>a k ow. keeps I (nft_accept E a k ow)"
    and add: "\<And>a k res b. res \<in> set (call_resources c) \<Longrightarrow> keeps I (resource_add E a k res b)"
    and update: "\<And>s k res res'. I s \<Longrightarrow> resources s k = Some res \<Longrightarrow> res_id res' = res_id res \<Longrightarrow>
      resource res' = resource res \<Longrightarrow> I (s\<lparr>resources := (resources s)(k \<mapsto> res')\<rparr>)"
    and remove: "\<And>s k. I s \<Longrightarrow> I (s\<lparr>resources := (resources s)(k := None)\<rparr>)"
  shows "keeps I (core_dispatch E org c)"
proof -
  have mint_resources: "keeps I (add_mint_resources E a k ress)"
    if "\<And>rs. ress = Some rs \<Longrightarrow> set rs \<subseteq> set (call_resources c)" for a k ress
    unfolding add_mint_resources_def using that
    by (cases ress) (auto intro!: keeps_intros add)
  have insert: "keeps I (insert_priorities k rs i)" for k rs i
    by (induction rs arbitrary: i) (auto intro!: keeps_intros maps)
  have prio: "keeps I (priority_set E a k rs)" for a k rs
    unfolding priority_set_def by (intro keeps_intros insert maps frame)
  have set: "keeps I (property_set E a cl n key val)" if "c = SetProperty cl n key val" for a cl n key val
    unfolding property_set_def by (intro keeps_intros property that)
  have unlink: "keeps I (unlink_from_account E k)" for k
    unfolding unlink_from_account_def by (intro keeps_intros maps)
  have nft_burn: "keeps I (nft_burn E k m)" for k m
    unfolding nft_burn_def by (intro keeps_intros burn)
  have reject: "keeps I (nft_reject E a k m)" for a k m
    unfolding nft_reject_def by (intro keeps_intros unlink nft_burn)
  have resource_remove: "keeps I (resource_remove E a k r)" for a k r
  proof (rule keepsI)
    fix s u s' assume run: "resource_remove E a k r s = Some (Inr u, s')" and "I s"
    then obtain owner res where res: "resources s (k, r) = Some res"
      "s' = s\<lparr>resources := (if owner = a then (resources s)((k, r) := None)
        else mutate_exists (k, r) (\<lambda>res. res\<lparr>pending_removal := True\<rparr>) (resources s))\<rparr>"
      unfolding success_resource_remove by blast
    then show "I s'"
      using remove[OF \<open>I s\<close>] update[OF \<open>I s\<close> res(1), of "res\<lparr>pending_removal := True\<rparr>"]
      by (simp add: mutate_exists_def)
  qed
  have accept_removal: "keeps I (accept_removal E a k r)" for a k r
    unfolding accept_removal_def by (intro keeps_intros remove)
  have accept_resource: "keeps I (accept_resource E org k r)" for k r
    by (rule keepsI) (auto simp: accept_resource_def success intro!: frame update)
  note ops = keeps_intros frame collection nft_burn transfer prio
    reject resource_remove accept_removal keeps_uniques_transfer[where I = I and E = E, OF uniques]
    keeps_uniques_ops[where I = I and E = E, OF uniques]
  show ?thesis
  proof (cases c)
    case (MintNft ow cl rcp am md tr rs)
    then show ?thesis by (simp add: mint_nft_def Let_def) (intro ops mint mint_resources; simp)
  next
    case (MintNftDirectlyToNft p cl rcp am md tr rs)
    then show ?thesis by (simp add: mint_nft_directly_to_nft_def) (intro ops mint mint_resources; simp)
  next
    case (CreateCollection md mx sy)
    then show ?thesis by (simp add: create_collection_def) (intro ops create)
  next
    case (BurnNft k m)
    then show ?thesis by (simp add: burn_nft_def) (intro ops)
  next
    case (DestroyCollection cl)
    then show ?thesis by (simp add: destroy_collection_def) (intro ops; simp)
  next
    case (Send k ow)
    then show ?thesis by (simp add: send_def) (intro ops)
  next
    case (AcceptNft k ow)
    then show ?thesis by (simp add: accept_nft_def) (intro ops)
  next
    case (RejectNft k)
    then show ?thesis by (simp add: reject_nft_def) (intro ops)
  next
    case (ChangeCollectionIssuer cl l)
    then show ?thesis by (simp add: change_collection_issuer_def) (intro ops keeps_lookup; simp)
  next
    case (SetProperty cl n key val)
    then show ?thesis by (simp add: set_property_def) (intro ops set)
  next
    case (LockCollection cl)
    then show ?thesis by (simp add: lock_collection_def) (intro ops)
  next
    case (AddBasicResource k r)
    then show ?thesis by (simp add: add_basic_resource_def add_resource_def) (intro ops add; simp)
  next
    case (AddComposableResource k r)
    then show ?thesis by (simp add: add_composable_resource_def add_resource_def) (intro ops add; simp)
  next
    case (AddSlotResource k r)
    then show ?thesis by (simp add: add_slot_resource_def add_resource_def) (intro ops add; simp)
  next
    case (AcceptResource k r)
    then show ?thesis by (simp add: accept_resource)
  next
    case (RemoveResource k r)
    then show ?thesis by (simp add: remove_resource_def) (intro ops)
  next
    case (AcceptResourceRemoval k r)
    then show ?thesis by (simp add: accept_resource_removal_def) (intro ops)
  next
    case (SetPriority k rs)
    then show ?thesis by (simp add: set_priority_def) (intro ops)
  qed
qed

section \<open>What the calls of the outer pallets keep\<close>

lemma keeps_set_equipped:
  "(\<And>s k b. I s \<Longrightarrow> I (s\<lparr>nfts := mutate_exists k (\<lambda>n. n\<lparr>equipped := b\<rparr>) (nfts s)\<rparr>)) \<Longrightarrow>
    keeps I (set_equipped k f)"
  unfolding set_equipped_def by (intro keeps_intros)

lemma keeps_length_u32 [keeps_intros]: "keeps I (length_u32M xs)"
  by (auto simp: keeps_def success)

lemma keeps_ensure_base_issuer [keeps_intros]: "keeps I (ensure_base_issuer a b)"
  by (auto simp: keeps_def success)

lemma keeps_check_equip [keeps_intros]:
  "keeps I (check_equip a item equipper rid b slot ex io eo)"
  unfolding keeps_def success_check_equip by blast

lemma keeps_do_equip:
  assumes nfts: "\<And>s k b. I s \<Longrightarrow> I (s\<lparr>nfts := mutate_exists k (\<lambda>n. n\<lparr>equipped := b\<rparr>) (nfts s)\<rparr>)"
    and equippings: "\<And>s m. I s \<Longrightarrow> I (s\<lparr>equippings := m\<rparr>)"
  shows "keeps I (do_equip E a item equipper rid b slot)"
proof -
  have "keeps I (unequip_slot item equipper b slot)"
    unfolding unequip_slot_def by (intro keeps_intros keeps_set_equipped nfts equippings)
  moreover have "keeps I (equip_into_part item equipper rid b slot part)" for part
    unfolding equip_into_part_def
    by (auto intro!: keeps_intros keeps_set_equipped nfts equippings
        split: part_type.split equippable_list.split)
  ultimately show ?thesis
    unfolding do_equip_def by (auto intro!: keeps_intros split: prod.split)
qed

lemma keeps_equip_dispatch:
  assumes events: "\<And>s v. I s \<Longrightarrow> I (s\<lparr>events := v\<rparr>)"
    and nfts: "\<And>s k b. I s \<Longrightarrow> I (s\<lparr>nfts := mutate_exists k (\<lambda>n. n\<lparr>equipped := b\<rparr>) (nfts s)\<rparr>)"
    and equippings: "\<And>s m. I s \<Longrightarrow> I (s\<lparr>equippings := m\<rparr>)"
    and themes: "\<And>s b th. c = ThemeAdd b th \<Longrightarrow> I s \<Longrightarrow> I (s\<lparr>themes := (themes s)
      ((b, theme_name th) := store_theme (theme_properties th) (themes s (b, theme_name th)))\<rparr>)"
    and create: "\<And>a ty sy ps. c = CreateBase ty sy ps \<Longrightarrow> keeps I (base_create a ty sy ps)"
    and issuer: "\<And>b a. keeps I (base_change_issuer b a)"
    and equippable: "\<And>a b p eqs. c = EquippableCall b p eqs \<Longrightarrow> keeps I (do_equippable a b p eqs)"
  shows "keeps I (equip_dispatch E org c)"
proof (cases c)
  case (ChangeBaseIssuer b l)
  then show ?thesis
    by (auto simp: change_base_issuer_def intro!: keeps_intros issuer events split: prod.split)
next
  case (EquipCall item equipper r b slot)
  then show ?thesis
    by (auto simp: equip_def intro!: keeps_intros keeps_do_equip nfts equippings events
        split: prod.split)
next
  case (EquippableCall b slot eqs)
  then show ?thesis
    by (auto simp: equippable_def intro!: keeps_intros equippable events split: prod.split)
next
  case (ThemeAdd b th)
  then show ?thesis
    by (auto simp: theme_add_def success intro!: keepsI themes)
next
  case (CreateBase ty sy ps)
  then show ?thesis
    by (auto simp: create_base_def intro!: keeps_intros create events)
qed

lemma keeps_base_operations:
  assumes "\<And>s m. I s \<Longrightarrow> I (s\<lparr>bases := m\<rparr>)" "\<And>s m. I s \<Longrightarrow> I (s\<lparr>parts := m\<rparr>)"
    "\<And>s m. I s \<Longrightarrow> I (s\<lparr>next_base_id := m\<rparr>)"
  shows "keeps I (base_create a ty sy ps)" "keeps I (base_change_issuer b a)"
    "keeps I (do_equippable a b p eqs)"
  by (rule keepsI; auto simp: success intro!: assms)+

lemma keeps_do_buy:
  assumes frame: "\<And>s v. I s \<Longrightarrow> I (s\<lparr>events := v\<rparr>)"
    and currency: "\<And>s x. I s \<Longrightarrow> currency_op E (ext s) x \<Longrightarrow> I (s\<lparr>ext := x\<rparr>)"
    and lock: "\<And>s m. I s \<Longrightarrow> I (s\<lparr>lock := m\<rparr>)"
    and listed: "\<And>s m. I s \<Longrightarrow> I (s\<lparr>listed_nfts := m\<rparr>)"
    and send: "\<And>org k b. keeps I (send E org k (AccountId b))"
  shows "keeps I (do_buy E b k am is_offer)"
  unfolding do_buy_def uniques_ownerM_def offer_price_def listing_price_def set_lock_def
  by (intro keeps_intros keeps_currency_ops[where I = I and E = E, OF currency] send frame lock listed)

lemma keeps_market_dispatch:
  assumes frame: "\<And>s v. I s \<Longrightarrow> I (s\<lparr>events := v\<rparr>)"
    and currency: "\<And>s x. I s \<Longrightarrow> currency_op E (ext s) x \<Longrightarrow> I (s\<lparr>ext := x\<rparr>)"
    and lock: "\<And>s m. I s \<Longrightarrow> I (s\<lparr>lock := m\<rparr>)"
    and listed: "\<And>s m. I s \<Longrightarrow> I (s\<lparr>listed_nfts := m\<rparr>)"
    and offers: "\<And>s k a am ex. I s \<Longrightarrow> I (s\<lparr>offers := (offers s)((k, a) \<mapsto>
      \<lparr>maker = a, offer_amount = am, offer_expires = ex\<rparr>)\<rparr>)"
    and take: "\<And>s k. I s \<Longrightarrow> I (s\<lparr>offers := (offers s)(k := None)\<rparr>)"
    and send: "\<And>org k b. keeps I (send E org k (AccountId b))"
  shows "keeps I (market_dispatch E org c)"
proof -
  note money = keeps_currency_ops[where I = I and E = E, OF currency]
  note buy = keeps_do_buy[where I = I and E = E, OF frame currency lock listed send]
  have taken: "keeps I (take_offer k a body)" if "\<And>off. keeps I (body off)" for k a body
    unfolding take_offer_def by (intro keeps_intros that take)
  have unreserve: "keeps I (unreserveM E a v)" for a v
    unfolding unreserveM_def by (rule money)
  show ?thesis
  proof (cases c)
    case (Buy k am)
    then show ?thesis by (auto simp: buy_def intro!: keeps_intros buy)
  next
    case (ListNft k am ex)
    then show ?thesis
      by (auto simp: list_nft_def uniques_ownerM_def set_lock_def intro!: keeps_intros frame lock listed)
  next
    case (Unlist k)
    then show ?thesis
      by (auto simp: unlist_def uniques_ownerM_def set_lock_def intro!: keeps_intros frame lock listed)
  next
    case (MakeOffer k am ex)
    then show ?thesis
      by (auto simp: make_offer_def uniques_ownerM_def intro!: money keeps_intros frame offers)
  next
    case (WithdrawOffer k)
    then show ?thesis
      by (auto simp: withdraw_offer_def uniques_ownerM_def intro!: keeps_intros taken unreserve frame)
  next
    case (AcceptOffer k a)
    then show ?thesis
      by (auto simp: accept_offer_def uniques_ownerM_def intro!: keeps_intros taken unreserve frame buy)
  qed
qed

lemma keeps_template_dispatch:
  assumes "\<And>s v. I s \<Longrightarrow> I (s\<lparr>events := v\<rparr>)" "\<And>s v. I s \<Longrightarrow> I (s\<lparr>something := v\<rparr>)"
  shows "keeps I (template_dispatch org c)"
  by (cases c) (auto simp: do_something_def cause_error_def intro!: keeps_intros assms)

section \<open>Identifiers and supply\<close>

text \<open>
  Every NFT has an identifier below the counter of its collection, every collection one below the
  collection counter; the count of a collection is bounded by the number of identifiers handed out
  and by the maximum of the collection.
\<close>

definition supply_ok :: "('a, 'x, 'z) core_state_scheme \<Rightarrow> bool" where
  "supply_ok s \<longleftrightarrow>
     (\<forall>c n. nfts s (c, n) \<noteq> None \<longrightarrow> n < next_nft_id s c) \<and>
     (\<forall>c col. collections s c = Some col \<longrightarrow> c < collection_index s \<and>
        nfts_count col \<le> next_nft_id s c \<and>
        (\<forall>mx. col_max col = Some mx \<longrightarrow> nfts_count col \<le> mx))"

lemma supply_okD:
  "supply_ok s \<Longrightarrow> nfts s (c, n) = Some nft \<Longrightarrow> n < next_nft_id s c"
  "supply_ok s \<Longrightarrow> collections s c = Some col \<Longrightarrow> c < collection_index s"
  "supply_ok s \<Longrightarrow> collections s c = Some col \<Longrightarrow> nfts_count col \<le> next_nft_id s c"
  "supply_ok s \<Longrightarrow> collections s c = Some col \<Longrightarrow> col_max col = Some mx \<Longrightarrow> nfts_count col \<le> mx"
  unfolding supply_ok_def by blast+

text \<open>The invariant looks at four items of the storage only.\<close>

lemma supply_ok_cong:
  "nfts s' = nfts s \<Longrightarrow> next_nft_id s' = next_nft_id s \<Longrightarrow> collections s' = collections s \<Longrightarrow>
    collection_index s' = collection_index s \<Longrightarrow> supply_ok s' = supply_ok s"
  by (simp add: supply_ok_def)

lemma supply_ok_nfts:
  assumes "supply_ok s" "\<And>k. nfts s' k \<noteq> None \<Longrightarrow> nfts s k \<noteq> None" "next_nft_id s' = next_nft_id s"
    "collections s' = collections s" "collection_index s' = collection_index s"
  shows "supply_ok s'"
  using assms unfolding supply_ok_def by metis

text \<open>Changing one collection without raising its count, or its maximum below its count.\<close>

lemma supply_ok_collection:
  assumes "supply_ok s" "collections s c = Some col" "nfts_count col' \<le> nfts_count col"
    "\<And>mx. col_max col' = Some mx \<Longrightarrow> col_max col = Some mx \<or> nfts_count col' \<le> mx"
    "nfts s' = nfts s" "next_nft_id s' = next_nft_id s"
    "collections s' = (collections s)(c \<mapsto> col')" "collection_index s' = collection_index s"
  shows "supply_ok s'"
  unfolding supply_ok_def
proof (intro conjI allI impI)
  show "n < next_nft_id s' c'" if "nfts s' (c', n) \<noteq> None" for c' n
    using supply_okD(1)[OF assms(1)] that assms(5,6) by auto
  fix c' col2 assume col2: "collections s' c' = Some col2"
  show "c' < collection_index s'"
    using col2 assms(2,7,8) supply_okD(2)[OF assms(1)] by (auto split: if_splits)
  show "nfts_count col2 \<le> next_nft_id s' c'"
    using col2 assms(2,3,6,7) supply_okD(3)[OF assms(1)] by (fastforce split: if_splits)
  show "nfts_count col2 \<le> mx" if "col_max col2 = Some mx" for mx
    using that col2 assms(2,3,4,7) supply_okD(4)[OF assms(1)] by (fastforce split: if_splits)
qed

lemma supply_ok_minted:
  assumes "supply_ok s" "collections s c = Some col" "n = next_nft_id s c" "n \<noteq> - 1"
    "\<And>mx. col_max col = Some mx \<Longrightarrow> n < mx" "nfts_count col \<noteq> - 1"
    and s': "nfts s' = (nfts s)((c, n) \<mapsto> nft)" "next_nft_id s' = (next_nft_id s)(c := n + 1)"
    "collections s' = (collections s)(c \<mapsto> col\<lparr>nfts_count := nfts_count col + 1\<rparr>)"
    "collection_index s' = collection_index s"
  shows "supply_ok s'"
proof -
  have less: "n < n + 1" by (rule less_plus_one_u32[OF assms(4)])
  have count: "nfts_count col \<le> n" using supply_okD(3)[OF assms(1,2)] assms(3) by simp
  then have count': "nfts_count col + 1 \<le> n + 1"
    using unat_plus_one_u32[OF assms(4)] unat_plus_one_u32[OF assms(6)] by (simp add: word_le_nat_alt)
  show ?thesis
    unfolding supply_ok_def
  proof (intro conjI allI impI)
    show "i < next_nft_id s' c'" if "nfts s' (c', i) \<noteq> None" for c' i
      using supply_okD(1)[OF assms(1), of c' i] that assms(3) less
      by (fastforce simp: s' split: if_splits)
    fix c' col2 assume col2: "collections s' c' = Some col2"
    show "c' < collection_index s'"
      using col2 assms(2) supply_okD(2)[OF assms(1)] by (auto simp: s' split: if_splits)
    show "nfts_count col2 \<le> next_nft_id s' c'"
      using col2 count' supply_okD(3)[OF assms(1)] by (auto simp: s' split: if_splits)
    show "nfts_count col2 \<le> mx" if max: "col_max col2 = Some mx" for mx
    proof (cases "c' = c")
      case True
      then have "n < mx" "nfts_count col2 = nfts_count col + 1"
        using max col2 assms(5) by (auto simp: s')
      then show ?thesis using count' plus_one_le_u32[of n mx] by simp
    next
      case False
      then show ?thesis using max col2 supply_okD(4)[OF assms(1)] by (simp add: s')
    qed
  qed
qed

lemma keeps_supply_send:
  "keeps supply_ok (nft_send E a k ow)"
proof (rule keepsI)
  fix s r s' assume run: "nft_send E a k ow s = Some (Inr r, s')" and ok: "supply_ok s"
  obtain acc ask where "r = (acc, ask)" by fastforce
  with run show "supply_ok s'"
    by (auto elim!: nft_send_success intro!: supply_ok_nfts[OF ok] split: if_splits)
qed

lemma keeps_supply_accept:
  "keeps supply_ok (nft_accept E a k ow)"
proof (rule keepsI)
  fix s r s' assume run: "nft_accept E a k ow s = Some (Inr r, s')" and ok: "supply_ok s"
  obtain acc k' where r: "r = (acc, k')" by (cases r) blast
  obtain nft where "nfts s k = Some nft" "s' = s\<lparr>nfts := (nfts s)(k \<mapsto> nft\<lparr>nft_pending := False\<rparr>)\<rparr>"
    using run unfolding r success_nft_accept by blast
  then show "supply_ok s'" by (auto intro!: supply_ok_nfts[OF ok] split: if_splits)
qed

lemma supply_ok_decrement:
  "supply_ok s \<Longrightarrow> collections s c = Some col \<Longrightarrow> supply_ok (s\<lparr>collections := (collections s)
     (c \<mapsto> col\<lparr>nfts_count := saturating_dec (nfts_count col)\<rparr>)\<rparr>)"
proof -
  assume ok: "supply_ok s" and col: "collections s c = Some col"
  have le: "saturating_dec (nfts_count col) \<le> nfts_count col" by (rule saturating_dec_le)
  show ?thesis by (rule supply_ok_collection[OF ok col _ disjI1]) (simp_all add: le)
qed

lemma supply_ok_update [simp]:
  "supply_ok (s\<lparr>children := ch\<rparr>) = supply_ok s" "supply_ok (s\<lparr>resources := rs\<rparr>) = supply_ok s"
  "supply_ok (s\<lparr>priorities := ps\<rparr>) = supply_ok s" "supply_ok (s\<lparr>properties := prs\<rparr>) = supply_ok s"
  "supply_ok (s\<lparr>next_resource_id := nr\<rparr>) = supply_ok s" "supply_ok (s\<lparr>lock := l\<rparr>) = supply_ok s"
  "supply_ok (s\<lparr>equippable_bases := eb\<rparr>) = supply_ok s"
  "supply_ok (s\<lparr>equippable_slots := es\<rparr>) = supply_ok s"
  "supply_ok (s\<lparr>ext := x\<rparr>) = supply_ok s" "supply_ok (s\<lparr>events := ev\<rparr>) = supply_ok s"
  by (rule supply_ok_cong; simp)+

lemma supply_ok_removed: "supply_ok s \<Longrightarrow> supply_ok (s\<lparr>nfts := (nfts s)(k := None)\<rparr>)"
  by (rule supply_ok_nfts[of s]) (auto split: if_splits)

lemma keeps_supply_burn: "keeps supply_ok (nft_burn_rec E d k)"
  by (rule keeps_nft_burn_rec) (simp_all add: supply_ok_decrement supply_ok_removed)

lemma keeps_supply_mint:
  "keeps supply_ok (nft_mint a ow c rcp am md tr)"
  "keeps supply_ok (nft_mint_directly_to_nft E a p c rcp am md tr)"
  by (rule keepsI; auto simp: success_nft_mint success_nft_mint_directly
      intro: supply_ok_minted)+

lemma keeps_supply_collection:
  "keeps supply_ok (collection_create a md mx sy)" "keeps supply_ok (collection_burn a c)"
  "keeps supply_ok (collection_change_issuer c a)" "keeps supply_ok (collection_lock a c)"
proof -
  show "keeps supply_ok (collection_create a md mx sy)"
  proof (rule keepsI)
    fix s r s' assume "collection_create a md mx sy s = Some (Inr r, s')" and ok: "supply_ok s"
    then have eff: "collection_index s \<noteq> - 1" "s' = s\<lparr>collection_index := collection_index s + 1,
        collections := (collections s)(collection_index s \<mapsto> \<lparr>col_issuer = a, col_metadata = md,
          col_max = mx, col_symbol = sy, nfts_count = 0\<rparr>)\<rparr>"
      unfolding success_collection_create by blast+
    have less: "collection_index s < collection_index s + 1" by (rule less_plus_one_u32[OF eff(1)])
    show "supply_ok s'"
      unfolding supply_ok_def
    proof (intro conjI allI impI)
      show "n < next_nft_id s' c" if "nfts s' (c, n) \<noteq> None" for c n
        using supply_okD(1)[OF ok] that by (auto simp: eff(2))
      fix c col assume col: "collections s' c = Some col"
      show "c < collection_index s'"
        using col supply_okD(2)[OF ok, of c] less less_trans[OF _ less, of c]
        by (auto simp: eff(2) split: if_splits)
      show "nfts_count col \<le> next_nft_id s' c"
        using col supply_okD(3)[OF ok, of c] by (auto simp: eff(2) split: if_splits)
      show "nfts_count col \<le> mx'" if "col_max col = Some mx'" for mx'
        using that col supply_okD(4)[OF ok, of c] by (auto simp: eff(2) split: if_splits)
    qed
  qed
  show "keeps supply_ok (collection_burn a c)"
    by (rule keepsI) (auto simp: success_collection_burn supply_ok_def)
  show "keeps supply_ok (collection_change_issuer c a)"
  proof (rule keepsI)
    fix s r s' assume "collection_change_issuer c a s = Some (Inr r, s')" and ok: "supply_ok s"
    then obtain col where col: "collections s c = Some col"
      "s' = s\<lparr>collections := (collections s)(c \<mapsto> col\<lparr>col_issuer := a\<rparr>)\<rparr>"
      by (auto simp: success_collection_change_issuer mutate_exists_def)
    show "supply_ok s'"
      by (rule supply_ok_collection[OF ok col(1), of "col\<lparr>col_issuer := a\<rparr>"]) (simp_all add: col(2))
  qed
  show "keeps supply_ok (collection_lock a c)"
  proof (rule keepsI)
    fix s r s' assume "collection_lock a c s = Some (Inr r, s')" and ok: "supply_ok s"
    then obtain col where col: "collections s c = Some col"
      "s' = s\<lparr>collections := (collections s)(c \<mapsto> col\<lparr>col_max := Some (nfts_count col)\<rparr>)\<rparr>"
      by (auto simp: success_collection_lock)
    show "supply_ok s'"
      by (rule supply_ok_collection[OF ok col(1), of "col\<lparr>col_max := Some (nfts_count col)\<rparr>"])
        (simp_all add: col(2))
  qed
qed

lemma keeps_supply_core: "keeps supply_ok (core_dispatch E org c)"
  by (rule keeps_core_dispatch)
    (simp_all add: keeps_supply_mint keeps_supply_collection keeps_supply_burn keeps_supply_send
      keeps_supply_accept keeps_resource_add)

lemma supply_ok_outer [simp]:
  "supply_ok (s\<lparr>bases := bs\<rparr>) = supply_ok s" "supply_ok (s\<lparr>parts := ps\<rparr>) = supply_ok s"
  "supply_ok (s\<lparr>next_base_id := i\<rparr>) = supply_ok s" "supply_ok (s\<lparr>equippings := es\<rparr>) = supply_ok s"
  "supply_ok (s\<lparr>themes := ts\<rparr>) = supply_ok s" "supply_ok (s'\<lparr>listed_nfts := ls\<rparr>) = supply_ok s'"
  "supply_ok (s'\<lparr>offers := ofs\<rparr>) = supply_ok s'" "supply_ok (r\<lparr>something := st\<rparr>) = supply_ok r"
  by (rule supply_ok_cong; simp)+

lemma supply_ok_mutated: "supply_ok s \<Longrightarrow> supply_ok (s\<lparr>nfts := mutate_exists k f (nfts s)\<rparr>)"
  by (rule supply_ok_nfts[of s]) (auto simp del: split_paired_All split: if_splits)

lemma keeps_supply_equip: "keeps supply_ok (equip_dispatch E org c)"
  by (rule keeps_equip_dispatch) (auto intro!: keeps_base_operations supply_ok_mutated)

lemma keeps_supply_market: "keeps supply_ok (market_dispatch E org c)"
  using keeps_supply_core[of E _ "Send k (AccountId b)" for k b]
  by (intro keeps_market_dispatch) simp_all

section \<open>Resources, bases, offers\<close>

text \<open>A resource is stored under its own identifier, below the counter of its NFT.\<close>

definition resources_ok :: "('a, 'x, 'z) core_state_scheme \<Rightarrow> bool" where
  "resources_ok s \<longleftrightarrow> (\<forall>k r res. resources s (k, r) = Some res \<longrightarrow>
     r < next_resource_id s k \<and> res_id res = r)"

lemma resources_ok_cong:
  "resources s' = resources s \<Longrightarrow> next_resource_id s' = next_resource_id s \<Longrightarrow>
    resources_ok s' = resources_ok s"
  by (simp add: resources_ok_def)

lemma resources_ok_update [simp]:
  "resources_ok (s\<lparr>children := ch\<rparr>) = resources_ok s" "resources_ok (s\<lparr>nfts := ns\<rparr>) = resources_ok s"
  "resources_ok (s\<lparr>priorities := ps\<rparr>) = resources_ok s"
  "resources_ok (s\<lparr>properties := prs\<rparr>) = resources_ok s"
  "resources_ok (s\<lparr>collections := cs\<rparr>) = resources_ok s"
  "resources_ok (s\<lparr>collection_index := i\<rparr>) = resources_ok s"
  "resources_ok (s\<lparr>next_nft_id := nn\<rparr>) = resources_ok s" "resources_ok (s\<lparr>lock := l\<rparr>) = resources_ok s"
  "resources_ok (s\<lparr>equippable_bases := eb\<rparr>) = resources_ok s"
  "resources_ok (s\<lparr>equippable_slots := es\<rparr>) = resources_ok s"
  "resources_ok (s\<lparr>ext := x\<rparr>) = resources_ok s" "resources_ok (s\<lparr>events := ev\<rparr>) = resources_ok s"
  by (rule resources_ok_cong; simp)+

lemma resources_ok_outer [simp]:
  "resources_ok (s\<lparr>bases := bs\<rparr>) = resources_ok s" "resources_ok (s\<lparr>parts := pts\<rparr>) = resources_ok s"
  "resources_ok (s\<lparr>next_base_id := i\<rparr>) = resources_ok s"
  "resources_ok (s\<lparr>equippings := eqs\<rparr>) = resources_ok s"
  "resources_ok (s\<lparr>themes := ts\<rparr>) = resources_ok s"
  "resources_ok (s'\<lparr>listed_nfts := ls\<rparr>) = resources_ok s'"
  "resources_ok (s'\<lparr>offers := ofs\<rparr>) = resources_ok s'"
  "resources_ok (r\<lparr>something := st\<rparr>) = resources_ok r"
  by (rule resources_ok_cong; simp)+

lemma resources_ok_removed:
  "resources_ok s \<Longrightarrow> resources_ok (s\<lparr>resources := remove_prefix k (resources s)\<rparr>)"
  "resources_ok s \<Longrightarrow> resources_ok (s\<lparr>resources := (resources s)(x := None)\<rparr>)"
  by (auto simp: resources_ok_def split: if_splits)

lemma resources_ok_changed:
  "resources_ok s \<Longrightarrow> resources s k = Some res \<Longrightarrow> res_id res' = res_id res \<Longrightarrow>
    resources_ok (s\<lparr>resources := (resources s)(k \<mapsto> res')\<rparr>)"
  by (cases k) (auto simp: resources_ok_def split: if_splits)

lemma keeps_resources_add: "keeps resources_ok (resource_add E a k res b)"
proof (rule keepsI)
  fix s r s' assume "resource_add E a k res b s = Some (Inr r, s')" and ok: "resources_ok s"
  then have r: "r = next_resource_id s k" "r \<noteq> - 1" and
    s': "next_resource_id s' = (next_resource_id s)(k := r + 1)"
      "\<exists>res. resources s' = (resources s)((k, r) \<mapsto> res) \<and> res_id res = r"
    by (auto simp: success_resource_add success_register_equippable)
  have less: "r < r + 1" by (rule less_plus_one_u32[OF r(2)])
  show "resources_ok s'"
    unfolding resources_ok_def
  proof (intro allI impI)
    fix k' r' res' assume res': "resources s' (k', r') = Some res'"
    show "r' < next_resource_id s' k' \<and> res_id res' = r'"
    proof (cases "k' = k \<and> r' = r")
      case True
      then show ?thesis using s' res' less by auto
    next
      case False
      then have "resources s (k', r') = Some res'" using s'(2) res' by (auto split: if_splits)
      then have old: "r' < next_resource_id s k' \<and> res_id res' = r'"
        using ok unfolding resources_ok_def by blast
      then show ?thesis using s'(1) r(1) less less_trans[of r' r "r + 1"] by auto
    qed
  qed
qed

lemma keeps_resources_mint:
  "keeps resources_ok (nft_mint a ow c rcp am md tr)"
  "keeps resources_ok (nft_mint_directly_to_nft E a p c rcp am md tr)"
  by (rule keepsI; auto simp: success_nft_mint success_nft_mint_directly)+

lemma keeps_resources_collection:
  "keeps resources_ok (collection_create a md mx sy)" "keeps resources_ok (collection_burn a c)"
  "keeps resources_ok (collection_change_issuer c a)" "keeps resources_ok (collection_lock a c)"
  by (rule keepsI; auto simp: success_collection_create success_collection_burn
      success_collection_change_issuer success_collection_lock)+

lemma keeps_resources_send: "keeps resources_ok (nft_send E a k ow)"
proof (rule keepsI)
  fix s r s' assume run: "nft_send E a k ow s = Some (Inr r, s')" and ok: "resources_ok s"
  obtain acc ask where "r = (acc, ask)" by (cases r) blast
  with run ok show "resources_ok s'" by (auto elim!: nft_send_success)
qed

lemma keeps_resources_accept: "keeps resources_ok (nft_accept E a k ow)"
proof (rule keepsI)
  fix s r s' assume run: "nft_accept E a k ow s = Some (Inr r, s')" and ok: "resources_ok s"
  obtain acc k' where r: "r = (acc, k')" by (cases r) blast
  obtain nft where "s' = s\<lparr>nfts := (nfts s)(k \<mapsto> nft\<lparr>nft_pending := False\<rparr>)\<rparr>"
    using run unfolding r success_nft_accept by blast
  then show "resources_ok s'" using ok by simp
qed

lemma keeps_resources_core: "keeps resources_ok (core_dispatch E org c)"
  by (rule keeps_core_dispatch)
    (simp_all add: keeps_resources_mint keeps_resources_collection keeps_nft_burn_rec
      keeps_resources_send keeps_resources_accept keeps_resources_add resources_ok_removed
      resources_ok_changed)

lemma keeps_resources_equip: "keeps resources_ok (equip_dispatch E org c)"
  by (rule keeps_equip_dispatch) (auto intro!: keeps_base_operations)

lemma keeps_resources_market: "keeps resources_ok (market_dispatch E org c)"
  using keeps_resources_core[of E _ "Send k (AccountId b)" for k b]
  by (intro keeps_market_dispatch) simp_all

text \<open>
  A base lies below the base counter, and a part is stored under its own identifier and belongs to
  a base.
\<close>

definition bases_ok :: "('a, 'x, 'z) equip_state_scheme \<Rightarrow> bool" where
  "bases_ok s \<longleftrightarrow> (\<forall>b. bases s b \<noteq> None \<longrightarrow> b < next_base_id s) \<and>
     (\<forall>b i p. parts s (b, i) = Some p \<longrightarrow> id_of_part p = i \<and> bases s b \<noteq> None)"

lemma bases_ok_cong:
  "bases s' = bases s \<Longrightarrow> parts s' = parts s \<Longrightarrow> next_base_id s' = next_base_id s \<Longrightarrow>
    bases_ok s' = bases_ok s"
  by (simp add: bases_ok_def)

lemma bases_ok_inner [simp]:
  "bases_ok (s\<lparr>children := ch\<rparr>) = bases_ok s" "bases_ok (s\<lparr>nfts := ns\<rparr>) = bases_ok s"
  "bases_ok (s\<lparr>priorities := ps\<rparr>) = bases_ok s" "bases_ok (s\<lparr>properties := prs\<rparr>) = bases_ok s"
  "bases_ok (s\<lparr>collections := cs\<rparr>) = bases_ok s" "bases_ok (s\<lparr>collection_index := i\<rparr>) = bases_ok s"
  "bases_ok (s\<lparr>next_nft_id := nn\<rparr>) = bases_ok s" "bases_ok (s\<lparr>lock := l\<rparr>) = bases_ok s"
  "bases_ok (s\<lparr>equippable_bases := eb\<rparr>) = bases_ok s"
  "bases_ok (s\<lparr>equippable_slots := es\<rparr>) = bases_ok s"
  "bases_ok (s\<lparr>resources := rs\<rparr>) = bases_ok s" "bases_ok (s\<lparr>next_resource_id := nr\<rparr>) = bases_ok s"
  "bases_ok (s\<lparr>ext := x\<rparr>) = bases_ok s" "bases_ok (s\<lparr>events := ev\<rparr>) = bases_ok s"
  "bases_ok (s\<lparr>equippings := eqs\<rparr>) = bases_ok s" "bases_ok (s\<lparr>themes := ts\<rparr>) = bases_ok s"
  "bases_ok (s'\<lparr>listed_nfts := ls\<rparr>) = bases_ok s'" "bases_ok (s'\<lparr>offers := ofs\<rparr>) = bases_ok s'"
  "bases_ok (r\<lparr>something := st\<rparr>) = bases_ok r"
  by (rule bases_ok_cong; simp)+

text \<open>
  A predicate that looks at no storage item of rmrk-core is kept by its calls.
\<close>

lemma keeps_core_outside:
  assumes "\<And>s v. I (s\<lparr>events := v\<rparr>) = I s"
    "\<And>s v. I s \<Longrightarrow> uniques_op E (ext s) v \<Longrightarrow> I (s\<lparr>ext := v\<rparr>)"
    "\<And>s v. I (s\<lparr>next_nft_id := v\<rparr>) = I s" "\<And>s v. I (s\<lparr>collection_index := v\<rparr>) = I s"
    "\<And>s v. I (s\<lparr>next_resource_id := v\<rparr>) = I s" "\<And>s v. I (s\<lparr>collections := v\<rparr>) = I s"
    "\<And>s v. I (s\<lparr>nfts := v\<rparr>) = I s" "\<And>s v. I (s\<lparr>priorities := v\<rparr>) = I s"
    "\<And>s v. I (s\<lparr>children := v\<rparr>) = I s" "\<And>s v. I (s\<lparr>resources := v\<rparr>) = I s"
    "\<And>s v. I (s\<lparr>equippable_bases := v\<rparr>) = I s" "\<And>s v. I (s\<lparr>equippable_slots := v\<rparr>) = I s"
    "\<And>s v. I (s\<lparr>properties := v\<rparr>) = I s"
  shows "keeps I (core_dispatch E org c)"
proof (rule keeps_core_dispatch)
  show "keeps I (nft_mint a ow c rcp am md tr)" for a ow c rcp am md tr
    by (rule keepsI) (auto simp: success_nft_mint assms)
  show "keeps I (nft_mint_directly_to_nft E a p c rcp am md tr)" for a p c rcp am md tr
    by (rule keepsI) (auto simp: success_nft_mint_directly assms)
  show "keeps I (collection_create a md mx sy)" for a md mx sy
    by (rule keepsI) (simp add: success_collection_create assms)
  show "keeps I (collection_burn a c)" for a c
    by (rule keepsI) (simp add: success_collection_burn assms)
  show "keeps I (collection_change_issuer c a)" for a c
    by (rule keepsI) (simp add: success_collection_change_issuer assms)
  show "keeps I (collection_lock a c)" for a c
    by (rule keepsI) (auto simp: success_collection_lock assms)
  show "keeps I (nft_burn_rec E d k)" for d k
    by (rule keeps_nft_burn_rec) (simp_all add: assms)
  show "keeps I (nft_send E a k ow)" for a k ow
  proof (rule keepsI)
    fix s r s' assume run: "nft_send E a k ow s = Some (Inr r, s')" and ok: "I s"
    obtain acc ask where "r = (acc, ask)" by (cases r) blast
    with run ok show "I s'" by (auto elim!: nft_send_success simp: assms)
  qed
  show "keeps I (nft_accept E a k ow)" for a k ow
  proof (rule keepsI)
    fix s r s' assume run: "nft_accept E a k ow s = Some (Inr r, s')" and ok: "I s"
    obtain acc k' where r: "r = (acc, k')" by (cases r) blast
    obtain nft where "s' = s\<lparr>nfts := (nfts s)(k \<mapsto> nft\<lparr>nft_pending := False\<rparr>)\<rparr>"
      using run unfolding r success_nft_accept by blast
    then show "I s'" using ok by (simp add: assms)
  qed
  show "keeps I (resource_add E a k res b)" for a k res b
    by (rule keeps_resource_add) (simp_all add: assms)
qed (simp_all add: assms)

lemma keeps_bases_core: "keeps bases_ok (core_dispatch E org c)"
  by (rule keeps_core_outside) simp_all

lemma keeps_bases_create: "keeps bases_ok (base_create a ty sy ps)"
proof (rule keepsI)
  fix s r s' assume "base_create a ty sy ps s = Some (Inr r, s')" and ok: "bases_ok s"
  then have r: "r = next_base_id s" "r \<noteq> - 1" and s': "next_base_id s' = r + 1"
    "parts s' = store_parts r ps (parts s)"
    "\<And>b. bases s' b \<noteq> None \<longleftrightarrow> b = r \<or> bases s b \<noteq> None"
    by (auto simp: success_base_create)
  have less: "r < r + 1" by (rule less_plus_one_u32[OF r(2)])
  have old: "b < r" if "bases s b \<noteq> None" for b
    using ok that unfolding bases_ok_def r(1) by blast
  show "bases_ok s'"
    unfolding bases_ok_def
  proof (intro conjI allI impI)
    show "b < next_base_id s'" if "bases s' b \<noteq> None" for b
      using that old[of b] less less_trans[of b r "r + 1"] by (auto simp: s' simp del: not_None_eq)
    fix b i p assume part: "parts s' (b, i) = Some p"
    have "id_of_part p = i \<and> (bases s b \<noteq> None \<or> b = r)"
    proof (cases "b = r")
      case True
      then have "parts s (r, i) = Some p \<or> id_of_part p = i"
        using part store_parts_id[of r ps "parts s" i p] by (auto simp: s')
      then show ?thesis using ok True unfolding bases_ok_def by blast
    next
      case False
      then have "parts s (b, i) = Some p" using part by (simp add: s' store_parts_other)
      then show ?thesis using ok unfolding bases_ok_def by blast
    qed
    then show "id_of_part p = i" "bases s' b \<noteq> None" using s'(3) by auto
  qed
qed

lemma keeps_bases_equip: "keeps bases_ok (equip_dispatch E org c)"
proof (rule keeps_equip_dispatch)
  show "keeps bases_ok (base_change_issuer b a)" for b a
    by (rule keepsI) (auto simp: success_base_change_issuer bases_ok_def split: if_splits)
  show "keeps bases_ok (do_equippable a b p eqs)" for a b p eqs
    by (rule keepsI) (fastforce simp: success_do_equippable bases_ok_def id_of_part_def split: if_splits)
qed (simp_all add: keeps_bases_create)

lemma keeps_bases_market: "keeps bases_ok (market_dispatch E org c)"
  using keeps_bases_core[of E _ "Send k (AccountId b)" for k b]
  by (intro keeps_market_dispatch) simp_all

text \<open>An offer is stored under the account that made it.\<close>

definition offers_ok :: "('a, 'x, 'z) market_state_scheme \<Rightarrow> bool" where
  "offers_ok s \<longleftrightarrow> (\<forall>k a off. offers s (k, a) = Some off \<longrightarrow> maker off = a)"

lemma offers_ok_cong: "offers s' = offers s \<Longrightarrow> offers_ok s' = offers_ok s"
  by (simp add: offers_ok_def)

lemma offers_ok_inner [simp]:
  "offers_ok (s\<lparr>children := ch\<rparr>) = offers_ok s" "offers_ok (s\<lparr>nfts := ns\<rparr>) = offers_ok s"
  "offers_ok (s\<lparr>priorities := ps\<rparr>) = offers_ok s" "offers_ok (s\<lparr>properties := prs\<rparr>) = offers_ok s"
  "offers_ok (s\<lparr>collections := cs\<rparr>) = offers_ok s" "offers_ok (s\<lparr>collection_index := i\<rparr>) = offers_ok s"
  "offers_ok (s\<lparr>next_nft_id := nn\<rparr>) = offers_ok s" "offers_ok (s\<lparr>lock := l\<rparr>) = offers_ok s"
  "offers_ok (s\<lparr>equippable_bases := eb\<rparr>) = offers_ok s"
  "offers_ok (s\<lparr>equippable_slots := es\<rparr>) = offers_ok s"
  "offers_ok (s\<lparr>resources := rs\<rparr>) = offers_ok s" "offers_ok (s\<lparr>next_resource_id := nr\<rparr>) = offers_ok s"
  "offers_ok (s\<lparr>ext := x\<rparr>) = offers_ok s" "offers_ok (s\<lparr>events := ev\<rparr>) = offers_ok s"
  "offers_ok (s\<lparr>equippings := eqs\<rparr>) = offers_ok s" "offers_ok (s\<lparr>themes := ts\<rparr>) = offers_ok s"
  "offers_ok (s\<lparr>bases := bs\<rparr>) = offers_ok s" "offers_ok (s\<lparr>parts := pts\<rparr>) = offers_ok s"
  "offers_ok (s\<lparr>next_base_id := j\<rparr>) = offers_ok s" "offers_ok (s\<lparr>listed_nfts := ls\<rparr>) = offers_ok s"
  "offers_ok (r\<lparr>something := st\<rparr>) = offers_ok r"
  by (rule offers_ok_cong; simp)+

lemma keeps_offers_core: "keeps offers_ok (core_dispatch E org c)"
  by (rule keeps_core_outside) simp_all

lemma keeps_offers_equip: "keeps offers_ok (equip_dispatch E org c)"
  by (rule keeps_equip_dispatch) (auto intro!: keeps_base_operations)

lemma keeps_offers_market: "keeps offers_ok (market_dispatch E org c)"
  using keeps_offers_core[of E _ "Send k (AccountId b)" for k b]
  by (intro keeps_market_dispatch) (auto simp: offers_ok_def split: if_splits)

section \<open>The invariant of the chain\<close>

definition chain_ok :: "('a, 'x, 'z) runtime_state_scheme \<Rightarrow> bool" where
  "chain_ok s \<longleftrightarrow> supply_ok s \<and> resources_ok s \<and> bases_ok s \<and> offers_ok s"

interpretation supplies: step_invariant "runtime_step E F" supply_ok for E F
  by unfold_locales
    (rule step_keepsI[OF keeps_supply_core keeps_supply_equip keeps_supply_market
        keeps_template_dispatch]; simp)

interpretation chain: step_invariant "runtime_step E F" chain_ok for E F
proof unfold_locales
  fix s s' assume ok: "chain_ok s" and step: "runtime_step E F s s'"
  have "supply_ok s'" using ok step supplies.step_keeps by (auto simp: chain_ok_def)
  moreover have "resources_ok s'"
    by (rule step_keepsI[OF keeps_resources_core keeps_resources_equip keeps_resources_market
        keeps_template_dispatch _ _ step]) (use ok in \<open>simp_all add: chain_ok_def\<close>)
  moreover have "bases_ok s'"
    by (rule step_keepsI[OF keeps_bases_core keeps_bases_equip keeps_bases_market
        keeps_template_dispatch _ _ step]) (use ok in \<open>simp_all add: chain_ok_def\<close>)
  moreover have "offers_ok s'"
    by (rule step_keepsI[OF keeps_offers_core keeps_offers_equip keeps_offers_market
        keeps_template_dispatch _ _ step]) (use ok in \<open>simp_all add: chain_ok_def\<close>)
  ultimately show "chain_ok s'" by (simp add: chain_ok_def)
qed

end
