(* ===== verification/Market_Effects.thy ===== *)
theory Market_Effects
  imports Market Core_Effects
begin

text \<open>
  What the calls of rmrk-market do to owners, listings, offers, locks and reserved balances when
  they succeed, as one relation: the facts the properties of the market, the accounting invariant
  and the refinement to the trading desk are derived from.
\<close>

section \<open>What a successful operation does\<close>

text \<open>A sale: the price is found, paid from the buyer to the owner, and the NFT moves.\<close>

lemma do_buy_effect:
  assumes "do_buy E b k amount is_offer s = Some (Inr u, s')"
  obtains owner price t x x' where "uq_owner E (ext s) k = Some owner" "b \<noteq> owner"
    "(if is_offer then offer_price k b else listing_price E k owner) s = Some (Inr price, t)"
    "\<And>am. amount = Some am \<Longrightarrow> price = am"
    "cur_transfer E b owner price KeepAlive (ext t) = (Inr (), x)"
    "uq_do_transfer E ((lock t)(k := False)) k b x = (Inr (), x')"
    "ext s' = x'" "lock s' = (lock t)(k := False)" "offers s' = offers t"
    "listed_nfts s' = listed_nfts t" "decode_nft_account_id E owner = None"
proof -
  obtain owner price t x u' where run: "uq_owner E (ext s) k = Some owner" "b \<noteq> owner"
    "(if is_offer then offer_price k b else listing_price E k owner) s = Some (Inr price, t)"
    "\<And>am. amount = Some am \<Longrightarrow> price = am"
    "cur_transfer E b owner price KeepAlive (ext t) = (Inr (), x)"
    "send E (Signed owner) k (AccountId b) (t\<lparr>lock := (lock t)(k := False), ext := x\<rparr>)
      = Some (Inr (), u')"
    "s' = u'\<lparr>events := events u' @ [MarketEvent (TokenSold owner b (fst k) (snd k) price)]\<rparr>"
    using assms unfolding do_buy_def by (cases amount) (auto simp: success)
  from run(6) show ?thesis
  proof (rule send_effect)
    fix a root cur nft acc ask x'
    assume eff: "Signed owner = Signed a"
      "lookup_root_owner E (ext (t\<lparr>lock := (lock t)(k := False), ext := x\<rparr>)) k = Some (Inr (a, root))"
      "send_target E k a (AccountId b) (t\<lparr>lock := (lock t)(k := False), ext := x\<rparr>)
        = Some (Inr (acc, ask), t\<lparr>lock := (lock t)(k := False), ext := x\<rparr>)"
      "uq_do_transfer E (lock (t\<lparr>lock := (lock t)(k := False), ext := x\<rparr>)) k acc
        (ext (t\<lparr>lock := (lock t)(k := False), ext := x\<rparr>)) = (Inr (), x')"
      "u' = t\<lparr>lock := (lock t)(k := False), ext := x,
          nfts := (nfts (t\<lparr>lock := (lock t)(k := False), ext := x\<rparr>))(k \<mapsto> sent_record (AccountId b) ask nft),
          children := moved_children E k cur acc (children (t\<lparr>lock := (lock t)(k := False), ext := x\<rparr>)),
          ext := x', events := events (t\<lparr>lock := (lock t)(k := False), ext := x\<rparr>) @
            [CoreEvent (NFTSent a (AccountId b) (fst k) (snd k) ask)]\<rparr>"
    have "acc = b" using eff(3) by (simp add: success)
    moreover have "decode_nft_account_id E owner = None" using eff(1,2) unfolding root.walk_iff by simp
    ultimately show ?thesis using run eff(4,5) by (intro that[of owner price t x x']) simp_all
  qed
qed

lemma success_buy:
  "buy E org k amount s = Some (Inr u, s') \<longleftrightarrow>
    (\<exists>a. org = Signed a \<and> do_buy E a k amount False s = Some (Inr (), s'))"
  by (auto simp: buy_def success)

text \<open>Withdrawing, for any currency.\<close>

lemma success_withdraw_offer:
  "withdraw_offer E org k s = Some (Inr u, s') \<longleftrightarrow>
    (\<exists>a off owner. org = Signed a \<and> offers s (k, a) = Some off \<and>
      uq_owner E (ext s) k = Some owner \<and> (a = owner \<or> a = maker off) \<and>
      s' = s\<lparr>ext := cur_unreserve E (maker off) (offer_amount off) (ext s),
        events := events s @ [MarketEvent (OfferWithdrawn a (fst k) (snd k))],
        offers := (offers s)((k, a) := None)\<rparr>)"
  unfolding withdraw_offer_def by (auto simp: success)

lemma success_make_offer:
  "make_offer E org k amount expires s = Some (Inr u, s') \<longleftrightarrow>
    (\<exists>a owner x. org = Signed a \<and> minimum_offer_amount E \<le> amount \<and>
      uq_owner E (ext s) k = Some owner \<and> a \<noteq> owner \<and> offers s (k, a) = None \<and>
      cur_reserve E a amount (ext s) = (Inr (), x) \<and>
      s' = s\<lparr>ext := x, offers := (offers s)((k, a) \<mapsto>
          \<lparr>maker = a, offer_amount = amount, offer_expires = expires\<rparr>),
        events := events s @ [MarketEvent (OfferPlaced a (fst k) (snd k) amount)]\<rparr>)"
  unfolding make_offer_def by (auto simp: success has_active_offer_def)

lemma success_list_nft:
  "list_nft E org k amount expires s = Some (Inr u, s') \<longleftrightarrow>
    (\<exists>a nft. org = Signed a \<and> uq_owner E (ext s) k = Some a \<and> decode_nft_account_id E a = None \<and>
      nfts s k = Some nft \<and> transferable nft \<and>
      s' = s\<lparr>lock := (lock s)(k := True),
             listed_nfts := (listed_nfts s)(k \<mapsto>
               \<lparr>listed_by = a, list_amount = amount, list_expires = expires\<rparr>),
             events := events s @ [MarketEvent (TokenListed a (fst k) (snd k) amount)]\<rparr>)"
proof -
  have "\<not> is_nft_owned_by_nft E s k \<longleftrightarrow> decode_nft_account_id E a = None"
    if "uq_owner E (ext s) k = Some a" for a
    using that by (cases "decode_nft_account_id E a") (auto simp: nested_iff nft_parent_def)
  then show ?thesis unfolding list_nft_def by (cases "is_nft_listed s k") (auto simp: success)
qed

lemma success_unlist:
  "unlist E org k s = Some (Inr u, s') \<longleftrightarrow>
    (\<exists>a. org = Signed a \<and> uq_owner E (ext s) k = Some a \<and> listed_nfts s k \<noteq> None \<and>
      s' = s\<lparr>lock := (lock s)(k := False), listed_nfts := (listed_nfts s)(k := None),
             events := events s @ [MarketEvent (TokenUnlisted a (fst k) (snd k))]\<rparr>)"
  unfolding unlist_def by (auto simp: success is_nft_listed_def)

lemma accept_offer_effect:
  assumes "accept_offer E org k b s = Some (Inr u, s')"
  obtains a off t where "org = Signed a" "uq_owner E (ext s) k = Some a" "offers s (k, b) = Some off"
    "\<And>ex. offer_expires off = Some ex \<Longrightarrow> block_now E (ext s) < ex"
    "do_buy E (maker off) k None True
      (s\<lparr>ext := cur_unreserve E (maker off) (offer_amount off) (ext s)\<rparr>) = Some (Inr (), t)"
    "s' = t\<lparr>events := events t @ [MarketEvent (OfferAccepted a b (fst k) (snd k))],
            offers := (offers t)((k, b) := None)\<rparr>"
proof -
  obtain a off where off: "org = Signed a" "uq_owner E (ext s) k = Some a" "offers s (k, b) = Some off"
    using assms unfolding accept_offer_def by (auto simp: success)
  with assms show ?thesis
    unfolding accept_offer_def
    by (cases "offer_expires off") (auto simp: success not_le split: if_splits intro!: that)
qed

section \<open>The effects of the calls, as one relation\<close>

inductive market_change ::
  "('a, 'l, 'x) env \<Rightarrow> 'a raw_origin \<Rightarrow> ('a, 'x, 'z) market_state_scheme \<Rightarrow>
    ('a, 'x, 'z) market_state_scheme \<Rightarrow> bool" for E org s s' where
  bought: "org = Signed a \<Longrightarrow> uq_owner E (ext s) k = Some ow \<Longrightarrow> a \<noteq> ow \<Longrightarrow>
    decode_nft_account_id E ow = None \<Longrightarrow> listed_nfts s k = Some li \<Longrightarrow> listed_by li = ow \<Longrightarrow>
    uq_owner E (ext s') = (uq_owner E (ext s))(k \<mapsto> a) \<Longrightarrow>
    listed_nfts s' = (listed_nfts s)(k := None) \<Longrightarrow> lock s' = (lock s)(k := False) \<Longrightarrow>
    offers s' = offers s \<Longrightarrow> currency_op E (ext s) x \<Longrightarrow> uniques_op E x (ext s') \<Longrightarrow>
    cur_reserved E x = cur_reserved E (ext s) \<Longrightarrow> market_change E org s s'"
| taken: "org = Signed ow \<Longrightarrow> uq_owner E (ext s) k = Some ow \<Longrightarrow> maker off \<noteq> ow \<Longrightarrow>
    decode_nft_account_id E ow = None \<Longrightarrow> offers s (k, b) = Some off \<Longrightarrow>
    uq_owner E (ext s') = (uq_owner E (ext s))(k \<mapsto> maker off) \<Longrightarrow>
    listed_nfts s' = listed_nfts s \<Longrightarrow> lock s' = (lock s)(k := False) \<Longrightarrow>
    offers s' = (offers s)((k, b) := None) \<Longrightarrow>
    currency_op E (cur_unreserve E (maker off) (offer_amount off) (ext s)) x \<Longrightarrow>
    uniques_op E x (ext s') \<Longrightarrow>
    cur_reserved E x = cur_reserved E (cur_unreserve E (maker off) (offer_amount off) (ext s)) \<Longrightarrow>
    market_change E org s s'"
| listed: "org = Signed a \<Longrightarrow> uq_owner E (ext s) k = Some a \<Longrightarrow> decode_nft_account_id E a = None \<Longrightarrow>
    listed_by li = a \<Longrightarrow> ext s' = ext s \<Longrightarrow> listed_nfts s' = (listed_nfts s)(k \<mapsto> li) \<Longrightarrow>
    lock s' = (lock s)(k := True) \<Longrightarrow> offers s' = offers s \<Longrightarrow> market_change E org s s'"
| unlisted: "org = Signed a \<Longrightarrow> uq_owner E (ext s) k = Some a \<Longrightarrow> listed_nfts s k \<noteq> None \<Longrightarrow>
    ext s' = ext s \<Longrightarrow> listed_nfts s' = (listed_nfts s)(k := None) \<Longrightarrow>
    lock s' = (lock s)(k := False) \<Longrightarrow> offers s' = offers s \<Longrightarrow> market_change E org s s'"
| offered: "org = Signed a \<Longrightarrow> uq_owner E (ext s) k = Some ow \<Longrightarrow> a \<noteq> ow \<Longrightarrow>
    offers s (k, a) = None \<Longrightarrow> maker off = a \<Longrightarrow>
    cur_reserve E a (offer_amount off) (ext s) = (Inr (), ext s') \<Longrightarrow>
    listed_nfts s' = listed_nfts s \<Longrightarrow> lock s' = lock s \<Longrightarrow>
    offers s' = (offers s)((k, a) \<mapsto> off) \<Longrightarrow> market_change E org s s'"
| withdrawn: "org = Signed a \<Longrightarrow> uq_owner E (ext s) k = Some ow \<Longrightarrow> offers s (k, a) = Some off \<Longrightarrow>
    ext s' = cur_unreserve E (maker off) (offer_amount off) (ext s) \<Longrightarrow>
    listed_nfts s' = listed_nfts s \<Longrightarrow> lock s' = lock s \<Longrightarrow>
    offers s' = (offers s)((k, a) := None) \<Longrightarrow> market_change E org s s'"

lemma market_call_changes:
  assumes laws: "uniques_laws E" "currency_laws E"
    and run: "market_dispatch E org c s = Some (Inr u, s')"
  shows "market_change E org s s'"
proof (cases c)
  case (Buy k am)
  with run obtain a where a: "org = Signed a" "do_buy E a k am False s = Some (Inr (), s')"
    by (auto simp: success_buy)
  from a(2) show ?thesis
  proof (rule do_buy_effect)
    fix owner price t x x'
    assume eff: "uq_owner E (ext s) k = Some owner" "a \<noteq> owner"
      "(if False then offer_price k a else listing_price E k owner) s = Some (Inr price, t)"
      "cur_transfer E a owner price KeepAlive (ext t) = (Inr (), x)"
      "uq_do_transfer E ((lock t)(k := False)) k a x = (Inr (), x')"
      "ext s' = x'" "lock s' = (lock t)(k := False)" "offers s' = offers t"
      "listed_nfts s' = listed_nfts t" "decode_nft_account_id E owner = None"
    then obtain li where "listed_nfts s k = Some li" "listed_by li = owner"
      "t = s\<lparr>listed_nfts := (listed_nfts s)(k := None)\<rparr>"
      by (auto simp: success_listing_price)
    with a(1) eff show ?thesis
      using currency_transfer(3,4)[OF laws(2) eff(4)] uniques_transfer(2)[OF laws(1) eff(5)]
      by (intro market_change.bought[of org a E s k owner li s' x])
        (auto intro: currency_op.intros uniques_op.intros)
  qed
next
  case (AcceptOffer k b)
  with run have "accept_offer E org k b s = Some (Inr u, s')" by simp
  then show ?thesis
  proof (rule accept_offer_effect)
    fix a t0 and off :: "_ offer"
    let ?u = "cur_unreserve E (maker off) (offer_amount off) (ext s)"
    assume acc: "org = Signed a" "uq_owner E (ext s) k = Some a" "offers s (k, b) = Some off"
      "do_buy E (maker off) k None True (s\<lparr>ext := ?u\<rparr>) = Some (Inr (), t0)"
      "s' = t0\<lparr>events := events t0 @ [MarketEvent (OfferAccepted a b (fst k) (snd k))],
            offers := (offers t0)((k, b) := None)\<rparr>"
    from acc(4) show ?thesis
    proof (rule do_buy_effect)
      fix owner price t x x'
      assume eff: "uq_owner E (ext (s\<lparr>ext := ?u\<rparr>)) k = Some owner" "maker off \<noteq> owner"
        "(if True then offer_price k (maker off) else listing_price E k owner) (s\<lparr>ext := ?u\<rparr>)
          = Some (Inr price, t)"
        "cur_transfer E (maker off) owner price KeepAlive (ext t) = (Inr (), x)"
        "uq_do_transfer E ((lock t)(k := False)) k (maker off) x = (Inr (), x')"
        "ext t0 = x'" "lock t0 = (lock t)(k := False)" "offers t0 = offers t"
        "listed_nfts t0 = listed_nfts t" "decode_nft_account_id E owner = None"
      have t: "t = s\<lparr>ext := ?u\<rparr>" using eff(3) by (auto simp: success_offer_price)
      have "owner = a" using eff(1) acc(2) by (simp add: currency_unreserve[OF laws(2)])
      then show ?thesis
        using acc eff t currency_transfer(3,4)[OF laws(2) eff(4)] uniques_transfer(2)[OF laws(1) eff(5)]
        by (intro market_change.taken[of org a E s k off b s' x])
          (auto simp: currency_unreserve(3)[OF laws(2)] intro: currency_op.intros uniques_op.intros)
    qed
  qed
next
  case (ListNft k am ex)
  with run show ?thesis
    by (auto simp: success_list_nft intro!: market_change.listed[of _ _ E s k
        "\<lparr>listed_by = _, list_amount = am, list_expires = ex\<rparr>"])
next
  case (Unlist k)
  with run show ?thesis by (auto simp: success_unlist intro!: market_change.unlisted[of _ _ E s k])
next
  case (MakeOffer k am ex)
  with run show ?thesis
    by (auto simp: success_make_offer intro!: market_change.offered[of _ _ E s k _
        "\<lparr>maker = _, offer_amount = am, offer_expires = ex\<rparr>"])
next
  case (WithdrawOffer k)
  with run show ?thesis
    by (auto simp: success_withdraw_offer intro!: market_change.withdrawn[of _ _ E s k])
qed

end
