(* ===== verification/Event_Log.thy ===== *)
theory Event_Log
  imports Chain Market_Effects
begin

text \<open>
  The events of the pallets as a record of what happened: which events every successful call
  deposits, computed from the call and the storage before it, and a digest of the storage that
  can be rebuilt from the events alone, the way an indexer outside the chain does.
\<close>

section \<open>The events of a call\<close>

text \<open>Whether a transfer to a new owner has to be accepted: its root owner is another account.\<close>

definition needs_approval ::
  "('a, 'l, 'x) env \<Rightarrow> 'x \<Rightarrow> 'a \<Rightarrow> 'a account_id_or_nft \<Rightarrow> bool" where
  "needs_approval E x a new_owner = (case new_owner of
       AccountId b \<Rightarrow> False
     | CollectionAndNftTuple c n \<Rightarrow> (case lookup_root_owner E x (c, n) of
         Some (Inr (b, _)) \<Rightarrow> b \<noteq> a | _ \<Rightarrow> False))"

fun core_log ::
  "('a, 'l, 'x) env \<Rightarrow> ('a, 'x, 'z) core_state_scheme \<Rightarrow> 'a \<Rightarrow> ('a, 'l) core_call \<Rightarrow> 'a core_event list" where
  "core_log E s a (MintNft ow c rcp am md tr rs) =
     [NftMinted (AccountId (mint_owner a ow)) c (next_nft_id s c)]"
| "core_log E s a (MintNftDirectlyToNft p c rcp am md tr rs) =
     [NftMinted (CollectionAndNftTuple (fst p) (snd p)) c (next_nft_id s c)]"
| "core_log E s a (CreateCollection md mx sy) = [CollectionCreated a (collection_index s)]"
| "core_log E s a (BurnNft k m) = [NFTBurned a (snd k)]"
| "core_log E s a (DestroyCollection c) = [CollectionDestroyed a c]"
| "core_log E s a (Send k ow) = [NFTSent a ow (fst k) (snd k) (needs_approval E (ext s) a ow)]"
| "core_log E s a (AcceptNft k ow) = [NFTAccepted a ow (fst k) (snd k)]"
| "core_log E s a (RejectNft k) = [NFTRejected a (fst k) (snd k)]"
| "core_log E s a (ChangeCollectionIssuer c l) =
     (case account_lookup E l of Inl _ \<Rightarrow> [] | Inr b \<Rightarrow> [IssuerChanged a b c])"
| "core_log E s a (SetProperty c n key val) = [PropertySet c n key val]"
| "core_log E s a (LockCollection c) = [CollectionLocked a c]"
| "core_log E s a (AddBasicResource k r) = [ResourceAdded (snd k) (next_resource_id s k)]"
| "core_log E s a (AddComposableResource k r) = [ResourceAdded (snd k) (next_resource_id s k)]"
| "core_log E s a (AddSlotResource k r) = [ResourceAdded (snd k) (next_resource_id s k)]"
| "core_log E s a (AcceptResource k r) = [ResourceAccepted (snd k) r]"
| "core_log E s a (RemoveResource k r) = [ResourceRemoval (snd k) r]"
| "core_log E s a (AcceptResourceRemoval k r) = [ResourceRemovalAccepted (snd k) r]"
| "core_log E s a (SetPriority k rs) =
     [PrioritySet (fst k) (snd k), PrioritySet (fst k) (snd k)]"

fun equip_log ::
  "('a, 'l, 'x) env \<Rightarrow> ('a, 'x, 'z) equip_state_scheme \<Rightarrow> 'a \<Rightarrow> 'l equip_call \<Rightarrow> 'a equip_event list" where
  "equip_log E s a (ChangeBaseIssuer b l) =
     (case account_lookup E l of Inl _ \<Rightarrow> [] | Inr a' \<Rightarrow> [BaseIssuerChanged a a' b])"
| "equip_log E s a (EquipCall item equipper r b slot) =
     (if equippings s (equipper, b, slot) = None
      then [SlotEquipped (fst item) (snd item) b slot]
      else [SlotUnequipped (fst item) (snd item) b slot])"
| "equip_log E s a (EquippableCall b slot eqs) = [EquippablesUpdated b slot]"
| "equip_log E s a (ThemeAdd b th) = []"
| "equip_log E s a (CreateBase ty sy ps) = [BaseCreated a (next_base_id s)]"

text \<open>A sale is announced twice: by the transfer of rmrk-core and by the market.\<close>

definition sale_log :: "'a \<Rightarrow> 'a \<Rightarrow> nft \<Rightarrow> balance \<Rightarrow> 'a runtime_event list" where
  "sale_log owner buyer k price =
     [CoreEvent (NFTSent owner (AccountId buyer) (fst k) (snd k) False),
      MarketEvent (TokenSold owner buyer (fst k) (snd k) price)]"

fun market_log ::
  "('a, 'l, 'x) env \<Rightarrow> ('a, 'x, 'z) market_state_scheme \<Rightarrow> 'a \<Rightarrow> 'a market_call \<Rightarrow>
    'a runtime_event list" where
  "market_log E s a (Buy k am) = (case listed_nfts s k of
       None \<Rightarrow> [] | Some li \<Rightarrow> sale_log (listed_by li) a k (list_amount li))"
| "market_log E s a (ListNft k am ex) = [MarketEvent (TokenListed a (fst k) (snd k) am)]"
| "market_log E s a (Unlist k) = [MarketEvent (TokenUnlisted a (fst k) (snd k))]"
| "market_log E s a (MakeOffer k am ex) = [MarketEvent (OfferPlaced a (fst k) (snd k) am)]"
| "market_log E s a (WithdrawOffer k) = [MarketEvent (OfferWithdrawn a (fst k) (snd k))]"
| "market_log E s a (AcceptOffer k b) = (case offers s (k, b) of
       None \<Rightarrow> []
     | Some off \<Rightarrow> sale_log a b k (offer_amount off) @
         [MarketEvent (OfferAccepted a b (fst k) (snd k))])"

fun template_log :: "'a \<Rightarrow> template_call \<Rightarrow> 'a template_event list" where
  "template_log a (DoSomething v) = [SomethingStored v a]"
| "template_log a CauseError = []"

fun call_log ::
  "('a, 'l, 'x) env \<Rightarrow> ('a, 'x, 'z) runtime_state_scheme \<Rightarrow> 'a \<Rightarrow> ('a, 'l) runtime_call \<Rightarrow>
    'a runtime_event list" where
  "call_log E s a (RmrkCore c) = List.map CoreEvent (core_log E s a c)"
| "call_log E s a (RmrkEquip c) = List.map EquipEvent (equip_log E s a c)"
| "call_log E s a (RmrkMarket c) = market_log E s a c"
| "call_log E s a (TemplateModule c) = List.map TemplateEvent (template_log a c)"
| "call_log E s a (Uniques c) = []"
| "call_log E s a (OtherPallet i) = []"

section \<open>The calls deposit these events\<close>

lemma send_target_approval:
  "send_target E k a new_owner s = Some (Inr (acc, ask), s') \<Longrightarrow>
    ask = needs_approval E (ext s) a new_owner"
  by (cases new_owner) (auto simp: success needs_approval_def)

lemma keeps_events_other:
  "keeps (\<lambda>s. events s = v) (resource_add E a k res b)"
  "keeps (\<lambda>s. events s = v) (resource_remove E a k r)"
  "keeps (\<lambda>s. events s = v) (accept_removal E a k r)"
  by (auto intro!: keeps_resource_add simp: keeps_def success_resource_remove success)

lemma resource_add_events:
  "resource_add E a k res b s = Some (Inr r, s') \<Longrightarrow> r = next_resource_id s k \<and> events s' = events s"
  using keepsD[OF keeps_events_other(1), of E a k res b s r s' "events s"]
  by (simp add: success_resource_add) blast

lemma core_call_log:
  assumes "core_dispatch E org c s = Some (Inr u, s')"
  shows "\<exists>a. org = Signed a \<and> events s' = events s @ List.map CoreEvent (core_log E s a c)"
proof (cases c)
  case (MintNft ow cl rcp am md tr rs)
  with assms have "mint_nft E org ow cl rcp am md tr rs s = Some (Inr u, s')" by simp
  then show ?thesis by (rule mint_nft_effect) (simp add: MintNft)
next
  case (MintNftDirectlyToNft p cl rcp am md tr rs)
  with assms have "mint_nft_directly_to_nft E org p cl rcp am md tr rs s = Some (Inr u, s')" by simp
  then show ?thesis by (rule mint_directly_effect) (simp add: MintNftDirectlyToNft)
next
  case (BurnNft k m)
  with assms have "burn_nft E org k m s = Some (Inr u, s')" by simp
  then show ?thesis by (rule burn_nft_effect) (simp add: BurnNft)
next
  case (Send k ow)
  with assms have "send E org k ow s = Some (Inr u, s')" by simp
  then show ?thesis by (rule send_effect) (simp add: Send send_target_approval)
next
  case (AcceptNft k ow)
  with assms have "accept_nft E org k ow s = Some (Inr u, s')" by simp
  then show ?thesis by (rule accept_nft_effect) (simp add: AcceptNft)
next
  case (RejectNft k)
  with assms have "reject_nft E org k s = Some (Inr u, s')" by simp
  then show ?thesis by (rule reject_nft_effect) (simp add: RejectNft)
next
  case (AddBasicResource k r)
  with assms show ?thesis
    by (auto simp: add_basic_resource_def add_resource_def success dest!: resource_add_events)
next
  case (AddComposableResource k r)
  with assms show ?thesis
    by (auto simp: add_composable_resource_def add_resource_def success dest!: resource_add_events)
next
  case (AddSlotResource k r)
  with assms show ?thesis
    by (auto simp: add_slot_resource_def add_resource_def success dest!: resource_add_events)
qed (use assms in \<open>auto simp: core_call_defs success success_resource_remove\<close>)

text \<open>A slot that holds something is only ever emptied, one that is free only ever filled.\<close>

lemma do_equip_outcome:
  assumes "do_equip E a item equipper rid b slot s = Some (Inr (c, n, b', slot', flag), s')"
  shows "c = fst item" "n = snd item" "b' = b" "slot' = slot"
    "flag \<longleftrightarrow> equippings s (equipper, b, slot) = None" "events s' = events s"
  using assms unfolding do_equip_def
  by (auto simp: success split: if_splits prod.splits)

lemma equip_call_log:
  assumes "equip_dispatch E org c s = Some (Inr u, s')"
  shows "\<exists>a. org = Signed a \<and> events s' = events s @ List.map EquipEvent (equip_log E s a c)"
proof (cases c)
  case (EquipCall item equipper r b slot)
  with assms show ?thesis
    by (auto simp: equip_def success split: if_splits prod.splits dest: do_equip_outcome)
next
  case (ChangeBaseIssuer b l)
  with assms show ?thesis by (auto simp: change_base_issuer_def success split: prod.splits)
next
  case (EquippableCall b slot eqs)
  with assms show ?thesis by (auto simp: equippable_def success split: prod.splits)
qed (use assms in \<open>auto simp: theme_add_def create_base_def success\<close>)

text \<open>A sale whose owner, buyer and price are known.\<close>

lemma do_buy_log:
  assumes "do_buy E b k amount is_offer s = Some (Inr u, s')"
  obtains owner price t where "uq_owner E (ext s) k = Some owner"
    "(if is_offer then offer_price k b else listing_price E k owner) s = Some (Inr price, t)"
    "events s' = events s @ sale_log owner b k price"
proof -
  obtain owner price t x u' where run: "uq_owner E (ext s) k = Some owner"
    "(if is_offer then offer_price k b else listing_price E k owner) s = Some (Inr price, t)"
    "send E (Signed owner) k (AccountId b) (t\<lparr>lock := (lock t)(k := False), ext := x\<rparr>)
      = Some (Inr (), u')"
    "s' = u'\<lparr>events := events u' @ [MarketEvent (TokenSold owner b (fst k) (snd k) price)]\<rparr>"
    using assms unfolding do_buy_def by (cases amount) (auto simp: success)
  have "events t = events s"
    using run(2) by (cases is_offer) (auto simp: success)
  moreover have "events u' = events t @ [CoreEvent (NFTSent owner (AccountId b) (fst k) (snd k) False)]"
    using run(3) by (rule send_effect) (simp add: success)
  ultimately show ?thesis using run by (intro that[of owner price t]) (simp_all add: sale_log_def)
qed

lemma market_call_log:
  assumes laws: "currency_laws E" and ok: "offers_ok s"
    and run: "market_dispatch E org c s = Some (Inr u, s')"
  shows "\<exists>a. org = Signed a \<and> events s' = events s @ market_log E s a c"
proof (cases c)
  case (Buy k am)
  with run obtain a where a: "org = Signed a" "do_buy E a k am False s = Some (Inr (), s')"
    by (auto simp: success_buy)
  from a(2) show ?thesis
    by (rule do_buy_log) (use a(1) Buy in \<open>auto simp: success_listing_price\<close>)
next
  case (AcceptOffer k b)
  with run have "accept_offer E org k b s = Some (Inr u, s')" by simp
  then show ?thesis
  proof (rule accept_offer_effect)
    fix a off t
    assume acc: "org = Signed a" "uq_owner E (ext s) k = Some a" "offers s (k, b) = Some off"
      "do_buy E (maker off) k None True
        (s\<lparr>ext := cur_unreserve E (maker off) (offer_amount off) (ext s)\<rparr>) = Some (Inr (), t)"
      "s' = t\<lparr>events := events t @ [MarketEvent (OfferAccepted a b (fst k) (snd k))],
              offers := (offers t)((k, b) := None)\<rparr>"
    have maker: "maker off = b" using ok acc(3) unfolding offers_ok_def by blast
    from acc(4) have "events t = events s @ sale_log a b k (offer_amount off)"
      by (rule do_buy_log) (use acc(2,3) maker in
        \<open>auto simp: success_offer_price currency_unreserve(3)[OF laws]\<close>)
    with acc AcceptOffer show ?thesis by simp
  qed
qed (use run in \<open>auto simp: success_list_nft success_unlist success_make_offer success_withdraw_offer\<close>)

lemma runtime_call_log:
  assumes "currency_laws E" "offers_ok s"
    and "runtime_dispatch E org c = Some m" "m s = Some (Inr (), s')"
  shows "\<exists>a. org = Signed a \<and> events s' = events s @ call_log E s a c"
proof (cases c)
  case (RmrkCore call)
  then show ?thesis using assms(3,4) core_call_log[of E org call s "()" s'] by simp
next
  case (RmrkEquip call)
  then show ?thesis using assms(3,4) equip_call_log[of E org call s "()" s'] by simp
next
  case (RmrkMarket call)
  then show ?thesis using assms market_call_log[of E s org call "()" s'] by simp
next
  case (TemplateModule call)
  then show ?thesis using assms(3,4)
    by (cases call) (auto simp: do_something_def cause_error_def success split: option.splits)
qed (use assms(3) in simp_all)

section \<open>What an indexer can rebuild\<close>

text \<open>
  The part of the storage the events determine: who issued each collection and each base, the
  next identifier of each collection, the properties, which NFTs are for sale (the lock), and the
  amount of every standing offer.
\<close>

record 'a digest =
  issuers :: "collection_id \<rightharpoonup> 'a"
  next_ids :: "collection_id \<Rightarrow> nft_id"
  property_values :: "collection_id \<times> nft_id option \<times> bytes \<rightharpoonup> bytes"
  base_issuers :: "base_id \<rightharpoonup> 'a"
  for_sale :: "nft \<Rightarrow> bool"
  standing :: "nft \<times> 'a \<rightharpoonup> balance"

definition digest_of :: "('a, 'x, 'z) market_state_scheme \<Rightarrow> 'a digest" where
  "digest_of s = \<lparr>issuers = (\<lambda>c. map_option col_issuer (collections s c)), next_ids = next_nft_id s,
     property_values = properties s, base_issuers = (\<lambda>b. map_option base_issuer (bases s b)),
     for_sale = lock s, standing = (\<lambda>p. map_option offer_amount (offers s p))\<rparr>"

fun digest_event :: "'a runtime_event \<Rightarrow> 'a digest \<Rightarrow> 'a digest" where
  "digest_event (CoreEvent (CollectionCreated a c)) d = d\<lparr>issuers := (issuers d)(c \<mapsto> a)\<rparr>"
| "digest_event (CoreEvent (CollectionDestroyed a c)) d = d\<lparr>issuers := (issuers d)(c := None)\<rparr>"
| "digest_event (CoreEvent (IssuerChanged a b c)) d = d\<lparr>issuers := (issuers d)(c \<mapsto> b)\<rparr>"
| "digest_event (CoreEvent (NftMinted ow c n)) d = d\<lparr>next_ids := (next_ids d)(c := n + 1)\<rparr>"
| "digest_event (CoreEvent (PropertySet c n key val)) d =
     d\<lparr>property_values := (property_values d)((c, n, key) \<mapsto> val)\<rparr>"
| "digest_event (EquipEvent (BaseCreated a b)) d = d\<lparr>base_issuers := (base_issuers d)(b \<mapsto> a)\<rparr>"
| "digest_event (EquipEvent (BaseIssuerChanged a a' b)) d =
     d\<lparr>base_issuers := (base_issuers d)(b \<mapsto> a')\<rparr>"
| "digest_event (MarketEvent (TokenListed a c n v)) d = d\<lparr>for_sale := (for_sale d)((c, n) := True)\<rparr>"
| "digest_event (MarketEvent (TokenUnlisted a c n)) d = d\<lparr>for_sale := (for_sale d)((c, n) := False)\<rparr>"
| "digest_event (MarketEvent (TokenSold a b c n v)) d = d\<lparr>for_sale := (for_sale d)((c, n) := False)\<rparr>"
| "digest_event (MarketEvent (OfferPlaced a c n v)) d =
     d\<lparr>standing := (standing d)(((c, n), a) \<mapsto> v)\<rparr>"
| "digest_event (MarketEvent (OfferWithdrawn a c n)) d =
     d\<lparr>standing := (standing d)(((c, n), a) := None)\<rparr>"
| "digest_event (MarketEvent (OfferAccepted a b c n)) d =
     d\<lparr>standing := (standing d)(((c, n), b) := None)\<rparr>"
| "digest_event e d = d"

definition empty_digest :: "'a digest" where
  "empty_digest = \<lparr>issuers = Map.empty, next_ids = (\<lambda>_. 0), property_values = Map.empty,
     base_issuers = Map.empty, for_sale = (\<lambda>_. False), standing = Map.empty\<rparr>"

definition replay :: "'a runtime_event list \<Rightarrow> 'a digest" where
  "replay evs = fold digest_event evs empty_digest"

lemma replay_append: "replay (xs @ ys) = fold digest_event ys (replay xs)"
  by (simp add: replay_def)

section \<open>Every call changes the digest as its events say\<close>

lemma digest_of_frame [simp]:
  "digest_of (s\<lparr>ext := x\<rparr>) = digest_of s" "digest_of (s\<lparr>events := ev\<rparr>) = digest_of s"
  "digest_of (s\<lparr>next_resource_id := nr\<rparr>) = digest_of s"
  "digest_of (s\<lparr>collection_index := i\<rparr>) = digest_of s"
  "digest_of (s\<lparr>nfts := ns\<rparr>) = digest_of s" "digest_of (s\<lparr>priorities := ps\<rparr>) = digest_of s"
  "digest_of (s\<lparr>children := ch\<rparr>) = digest_of s" "digest_of (s\<lparr>resources := rs\<rparr>) = digest_of s"
  "digest_of (s\<lparr>equippable_bases := eb\<rparr>) = digest_of s"
  "digest_of (s\<lparr>equippable_slots := es\<rparr>) = digest_of s"
  "digest_of (s\<lparr>parts := pts\<rparr>) = digest_of s" "digest_of (s\<lparr>next_base_id := j\<rparr>) = digest_of s"
  "digest_of (s\<lparr>equippings := eqs\<rparr>) = digest_of s" "digest_of (s\<lparr>themes := ts\<rparr>) = digest_of s"
  "digest_of (s\<lparr>listed_nfts := ls\<rparr>) = digest_of s" "digest_of (r\<lparr>something := st\<rparr>) = digest_of r"
  by (simp_all add: digest_of_def)

lemma digest_of_update [simp]:
  "digest_of (s\<lparr>next_nft_id := ids\<rparr>) = (digest_of s)\<lparr>next_ids := ids\<rparr>"
  "digest_of (s\<lparr>properties := prs\<rparr>) = (digest_of s)\<lparr>property_values := prs\<rparr>"
  "digest_of (s\<lparr>lock := l\<rparr>) = (digest_of s)\<lparr>for_sale := l\<rparr>"
  "digest_of (s\<lparr>collections := cs\<rparr>) = (digest_of s)\<lparr>issuers := (\<lambda>c. map_option col_issuer (cs c))\<rparr>"
  "digest_of (s\<lparr>bases := bs\<rparr>) = (digest_of s)\<lparr>base_issuers := (\<lambda>b. map_option base_issuer (bs b))\<rparr>"
  "digest_of (s\<lparr>offers := ofs\<rparr>) = (digest_of s)\<lparr>standing := (\<lambda>p. map_option offer_amount (ofs p))\<rparr>"
  by (simp_all add: digest_of_def)

lemma digest_of_fields [simp]:
  "issuers (digest_of s) = (\<lambda>c. map_option col_issuer (collections s c))"
  "next_ids (digest_of s) = next_nft_id s" "property_values (digest_of s) = properties s"
  "base_issuers (digest_of s) = (\<lambda>b. map_option base_issuer (bases s b))"
  "for_sale (digest_of s) = lock s" "standing (digest_of s) = (\<lambda>p. map_option offer_amount (offers s p))"
  by (simp_all add: digest_of_def)

lemma map_option_update:
  "(\<lambda>j. map_option f (if j = k then Some v else m j)) = (\<lambda>j. map_option f (m j))(k \<mapsto> f v)"
  "(\<lambda>j. map_option f (if j = k then None else m j)) = (\<lambda>j. map_option f (m j))(k := None)"
  by auto

lemma map_option_same: "m k = Some v \<Longrightarrow> f v' = f v \<Longrightarrow>
    (\<lambda>j. map_option f ((m(k \<mapsto> v')) j)) = (\<lambda>j. map_option f (m j))"
  by auto

lemma map_option_mutate: "m k = Some v \<Longrightarrow> f (g v) = w \<Longrightarrow>
    (\<lambda>j. map_option f (if j = k then map_option g (m k) else m j)) =
    (\<lambda>j. map_option f (m j))(k \<mapsto> w)"
  by auto

lemma digest_same_issuer:
  "collections s c = Some col \<Longrightarrow> col_issuer col' = col_issuer col \<Longrightarrow>
    digest_of (s\<lparr>collections := (collections s)(c \<mapsto> col')\<rparr>) = digest_of s"
  unfolding digest_of_update by (subst map_option_same) (simp_all add: digest_of_def)

lemma digest_minted:
  "collections s c = Some col \<Longrightarrow> col_issuer col' = col_issuer col \<Longrightarrow>
    (digest_of s)\<lparr>next_ids := ids,
      issuers := (\<lambda>j. map_option col_issuer (if j = c then Some col' else collections s j))\<rparr> =
    (digest_of s)\<lparr>next_ids := ids\<rparr>"
  using map_option_same[of "collections s" c col col_issuer col'] by (simp add: digest_of_def)

text \<open>The calls of rmrk-core whose events say nothing about the digest.\<close>

fun silent :: "('a, 'l) core_call \<Rightarrow> bool" where
  "silent (CreateCollection md mx sy) = False"
| "silent (DestroyCollection c) = False"
| "silent (ChangeCollectionIssuer c l) = False"
| "silent (SetProperty c n key val) = False"
| "silent c = (\<not> mints c)"

lemma keeps_digest_silent:
  assumes "silent c"
  shows "keeps (\<lambda>s. digest_of s = d) (core_dispatch E org c)"
proof (rule keeps_core_dispatch)
  show "keeps (\<lambda>s. digest_of s = d) (nft_send E a k ow)" for a k ow
    by (rule keepsI) (auto elim!: nft_send_success)
  show "keeps (\<lambda>s. digest_of s = d) (nft_accept E a k ow)" for a k ow
    by (rule keepsI) (auto simp: success_nft_accept)
  show "keeps (\<lambda>s. digest_of s = d) (nft_burn_rec E n k)" for n k
    by (rule keeps_nft_burn_rec) (simp_all add: digest_same_issuer del: digest_of_update)
  show "keeps (\<lambda>s. digest_of s = d) (collection_lock a cl)" for a cl
    by (rule keepsI) (auto simp: success_collection_lock digest_same_issuer simp del: digest_of_update)
qed (use assms in \<open>cases c; simp add: keeps_resource_add\<close>)+

lemma silent_log:
  "silent c \<Longrightarrow> fold digest_event (List.map CoreEvent (core_log E s a c)) d = d"
  by (cases c) simp_all

lemma add_mint_resources_digest:
  "add_mint_resources E a k ress s = Some (Inr u, s') \<Longrightarrow> digest_of s' = digest_of s"
  by (rule keepsD[OF keeps_add_mint_resources[where I = "\<lambda>t. digest_of t = digest_of s"]]) simp_all

lemma core_call_digest:
  assumes "core_dispatch E (Signed a) c s = Some (Inr u, s')"
  shows "digest_of s' = fold digest_event (List.map CoreEvent (core_log E s a c)) (digest_of s)"
proof (cases c)
  case (MintNft ow cl rcp am md tr rs)
  with assms have "mint_nft E (Signed a) ow cl rcp am md tr rs s = Some (Inr u, s')" by simp
  then show ?thesis
    by (rule mint_nft_effect) (auto simp: MintNft digest_minted dest!: add_mint_resources_digest)
next
  case (MintNftDirectlyToNft p cl rcp am md tr rs)
  with assms have "mint_nft_directly_to_nft E (Signed a) p cl rcp am md tr rs s = Some (Inr u, s')"
    by simp
  then show ?thesis
    by (rule mint_directly_effect)
      (auto simp: MintNftDirectlyToNft digest_minted dest!: add_mint_resources_digest)
next
  case (CreateCollection md mx sy)
  with assms show ?thesis by (auto simp: create_collection_def success map_option_update)
next
  case (DestroyCollection cl)
  with assms show ?thesis by (auto simp: destroy_collection_def success map_option_update)
next
  case (ChangeCollectionIssuer cl l)
  with assms show ?thesis
    by (auto simp: change_collection_issuer_def success map_option_mutate)
next
  case (SetProperty cl n key val)
  with assms show ?thesis by (auto simp: set_property_def success)
qed (use assms keepsD[OF keeps_digest_silent[of c "digest_of s" E "Signed a"], of s u s']
    silent_log[of c E s a "digest_of s"] in simp_all)

lemma do_equip_digest:
  "do_equip E a item equipper rid b slot s = Some (Inr r, s') \<Longrightarrow> digest_of s' = digest_of s"
  by (rule keepsD[OF keeps_do_equip[where I = "\<lambda>t. digest_of t = digest_of s"]]) simp_all

lemma equip_call_digest:
  assumes "equip_dispatch E (Signed a) c s = Some (Inr u, s')"
  shows "digest_of s' = fold digest_event (List.map EquipEvent (equip_log E s a c)) (digest_of s)"
proof (cases c)
  case (ChangeBaseIssuer b l)
  with assms show ?thesis by (auto simp: change_base_issuer_def success map_option_mutate)
next
  case (EquipCall item equipper r b slot)
  with assms show ?thesis
    by (auto simp: equip_def success split: if_splits prod.splits dest!: do_equip_digest)
next
  case (CreateBase ty sy ps)
  with assms show ?thesis by (auto simp: create_base_def success map_option_update)
qed (use assms in \<open>auto simp: equippable_def theme_add_def success split: prod.splits\<close>)

lemma send_digest: "send E org k ow s = Some (Inr u, s') \<Longrightarrow> digest_of s' = digest_of s"
  using keepsD[OF keeps_digest_silent[of "Send k ow" "digest_of s" E org], of s u s'] by simp

text \<open>A sale only ends the sale; the rest of the digest stays.\<close>

lemma do_buy_digest:
  assumes "do_buy E b k amount is_offer s = Some (Inr u, s')"
  shows "digest_of s' = (digest_of s)\<lparr>for_sale := (lock s)(k := False)\<rparr>"
proof -
  let ?rest = "\<lambda>t. (digest_of t)\<lparr>for_sale := \<lambda>_. False\<rparr>"
  have "keeps (\<lambda>t. ?rest t = ?rest s) (do_buy E b k amount is_offer)"
    by (rule keeps_do_buy) (auto simp: keeps_def dest: send_digest)
  then have rest: "?rest s' = ?rest s" using assms by (auto dest: keepsD)
  have lock: "lock s' = (lock s)(k := False)"
    using assms by (rule do_buy_effect)
      (auto simp: success_listing_price success_offer_price split: if_splits)
  have "digest_of s' = (?rest s')\<lparr>for_sale := lock s'\<rparr>" by (simp add: digest_of_def)
  also have "\<dots> = (digest_of s)\<lparr>for_sale := lock s'\<rparr>" unfolding rest by simp
  finally show ?thesis by (simp add: lock)
qed

lemma market_call_digest:
  assumes laws: "currency_laws E" and ok: "offers_ok s"
    and run: "market_dispatch E (Signed a) c s = Some (Inr u, s')"
  shows "digest_of s' = fold digest_event (market_log E s a c) (digest_of s)"
proof (cases c)
  case (Buy k am)
  with run have bought: "do_buy E a k am False s = Some (Inr (), s')" by (auto simp: success_buy)
  then obtain li where "listed_nfts s k = Some li"
    by (rule do_buy_effect) (auto simp: success_listing_price)
  with Buy do_buy_digest[OF bought] show ?thesis by (simp add: sale_log_def)
next
  case (AcceptOffer k b)
  with run have "accept_offer E (Signed a) k b s = Some (Inr u, s')" by simp
  then show ?thesis
  proof (rule accept_offer_effect)
    fix a' off t
    assume acc: "offers s (k, b) = Some off"
      "do_buy E (maker off) k None True
        (s\<lparr>ext := cur_unreserve E (maker off) (offer_amount off) (ext s)\<rparr>) = Some (Inr (), t)"
      "s' = t\<lparr>events := events t @ [MarketEvent (OfferAccepted a' b (fst k) (snd k))],
              offers := (offers t)((k, b) := None)\<rparr>"
    have "digest_of t = (digest_of s)\<lparr>for_sale := (lock s)(k := False)\<rparr>"
      using do_buy_digest[OF acc(2)] by simp
    moreover from this have "standing (digest_of t) = standing (digest_of s)" by simp
    then have "(\<lambda>p. map_option offer_amount (offers t p)) = (\<lambda>p. map_option offer_amount (offers s p))"
      by simp
    ultimately show ?thesis
      using acc(1,3) AcceptOffer by (simp add: sale_log_def map_option_update)
  qed
next
  case (ListNft k am ex)
  with run show ?thesis by (auto simp: success_list_nft)
next
  case (Unlist k)
  with run show ?thesis by (auto simp: success_unlist)
next
  case (MakeOffer k am ex)
  with run show ?thesis by (auto simp: success_make_offer map_option_update)
next
  case (WithdrawOffer k)
  with run show ?thesis by (auto simp: success_withdraw_offer map_option_update)
qed

lemma runtime_call_digest:
  assumes "currency_laws E" "offers_ok s"
    and "runtime_dispatch E (Signed a) c = Some m" "m s = Some (Inr (), s')"
  shows "digest_of s' = fold digest_event (call_log E s a c) (digest_of s)"
proof (cases c)
  case (RmrkCore call)
  then show ?thesis using assms(3,4) core_call_digest[of E a call s "()" s'] by simp
next
  case (RmrkEquip call)
  then show ?thesis using assms(3,4) equip_call_digest[of E a call s "()" s'] by simp
next
  case (RmrkMarket call)
  then show ?thesis using assms market_call_digest[of E s a call "()" s'] by simp
next
  case (TemplateModule call)
  then show ?thesis using assms(3,4)
    by (cases call) (auto simp: do_something_def cause_error_def success split: option.splits)
qed (use assms(3) in simp_all)

section \<open>The log rebuilds the digest\<close>

definition logged :: "('a, 'x, 'z) market_state_scheme \<Rightarrow> bool" where
  "logged s \<longleftrightarrow> replay (events s) = digest_of s"

interpretation log: step_invariant "runtime_step E F"
  "\<lambda>s. chain_ok s \<and> (currency_laws E \<longrightarrow> logged s)" for E F
proof unfold_locales
  fix s s' :: "('a, 'c, 'd) runtime_state_scheme"
  assume ok: "chain_ok s \<and> (currency_laws E \<longrightarrow> logged s)" and step: "runtime_step E F s s'"
  have "logged s'" if laws: "currency_laws E"
    using step
  proof (cases rule: runtime_step.cases)
    case (call c org m r)
    show ?thesis
    proof (cases r)
      case (Inl e)
      then have "s' = s" using dispatch_error_unchanged[OF call(2)] call(3) by blast
      then show ?thesis using ok laws by simp
    next
      case (Inr u)
      have offers: "offers_ok s" using ok by (simp add: chain_ok_def)
      obtain a where "org = Signed a" "events s' = events s @ call_log E s a c"
        using runtime_call_log[OF laws offers call(2), of s'] call(3) Inr by auto
      then show ?thesis
        using runtime_call_digest[OF laws offers, of a c m s'] call Inr ok laws
        by (simp add: logged_def replay_append)
    qed
  next
    case (foreign x)
    then show ?thesis using ok laws by (simp add: logged_def)
  qed
  moreover have "chain_ok s'" using ok step chain.step_keeps by blast
  ultimately show "chain_ok s' \<and> (currency_laws E \<longrightarrow> logged s')" by blast
qed

end
