(* ===== verification/Money.thy ===== *)
theory Money
  imports Event_Log
begin

text \<open>
  What the calls of rmrk-market do to the money of accounts, free and reserved together: it moves
  by sales only, from the buyer to the seller, and every move is announced in the log.
\<close>

section \<open>Wealth under the currency\<close>

definition wealth :: "('a, 'l, 'x) env \<Rightarrow> 'x \<Rightarrow> 'a \<Rightarrow> nat" where
  "wealth E x a = cur_free E x a + cur_reserved E x a"

definition pay :: "'a \<Rightarrow> 'a \<Rightarrow> nat \<Rightarrow> ('a \<Rightarrow> nat) \<Rightarrow> ('a \<Rightarrow> nat)" where
  "pay buyer seller v w = w(buyer := w buyer - v, seller := w seller + v)"

text \<open>What an event says about money.\<close>

fun paid_by_event :: "'a runtime_event \<Rightarrow> ('a \<Rightarrow> nat) \<Rightarrow> ('a \<Rightarrow> nat)" where
  "paid_by_event (MarketEvent (TokenSold seller buyer c n price)) w = pay buyer seller (unat price) w"
| "paid_by_event e w = w"

lemma wealth_reserve:
  assumes "currency_laws E" "cur_reserve E a v x = (Inr u, x')"
  shows "wealth E x' = wealth E x"
  using currency_reserve(1-3)[OF assms] by (auto simp: wealth_def)

lemma wealth_unreserve: "currency_laws E \<Longrightarrow> wealth E (cur_unreserve E a v x) = wealth E x"
  by (auto simp: wealth_def currency_unreserve)

lemma wealth_transfer:
  assumes "currency_laws E" "a \<noteq> b" "cur_transfer E a b v KeepAlive x = (Inr u, x')"
  shows "wealth E x' = pay a b (unat v) (wealth E x)" "unat v \<le> wealth E x a"
  using currency_transfer(1,2)[OF assms] currency_transfer(3)[OF assms(1,3)] assms(2)
  by (auto simp: wealth_def pay_def)

lemma wealth_item:
  "currency_laws E \<Longrightarrow> uq_do_transfer E lk k a x = (Inr u, x') \<Longrightarrow> wealth E x' = wealth E x"
  by (auto simp: wealth_def currency_item)

text \<open>A payment conserves the money of any set of accounts with both parties in it.\<close>

lemma pay_conserves:
  assumes "finite A" "a \<in> A" "b \<in> A" "a \<noteq> b" "v \<le> w a"
  shows "sum (pay a b v w) A = sum w A"
proof -
  have A: "A = insert a (insert b (A - {a, b}))" using assms(2,3) by blast
  have "sum (pay a b v w) (A - {a, b}) = sum w (A - {a, b})"
    by (rule sum.cong) (auto simp: pay_def)
  then show ?thesis
    using assms(1,4,5) by (subst (1 2) A) (simp add: pay_def)
qed

section \<open>The calls of the market\<close>

lemma do_buy_wealth:
  assumes laws: "currency_laws E" and run: "do_buy E b k amount is_offer s = Some (Inr u, s')"
  shows "\<exists>owner price. b \<noteq> owner \<and> uq_owner E (ext s) k = Some owner \<and>
    events s' = events s @ sale_log owner b k price \<and>
    unat price \<le> wealth E (ext s) b \<and> wealth E (ext s') = pay b owner (unat price) (wealth E (ext s))"
  using run
proof (rule do_buy_effect)
  fix owner price t x x'
  assume eff: "uq_owner E (ext s) k = Some owner" "b \<noteq> owner"
    "(if is_offer then offer_price k b else listing_price E k owner) s = Some (Inr price, t)"
    "cur_transfer E b owner price KeepAlive (ext t) = (Inr (), x)"
    "uq_do_transfer E ((lock t)(k := False)) k b x = (Inr (), x')" "ext s' = x'"
  have "ext t = ext s" using eff(3) by (auto simp: success split: if_splits)
  moreover have "events s' = events s @ sale_log owner b k price"
    using run by (rule do_buy_log) (use eff(1,3) in auto)
  ultimately show ?thesis
    using eff wealth_transfer[OF laws eff(2,4)] wealth_item[OF laws eff(5)] by auto
qed

lemma paid_by_sale:
  "fold paid_by_event (sale_log owner b k price) w = pay b owner (unat price) w"
  by (simp add: sale_log_def)

text \<open>
  A successful call of the market appends events \<open>evs\<close>, and the wealth of every account changes as
  the sales among them say; a set of accounts that the sales do not leave keeps its sum.
\<close>

lemma market_call_wealth:
  assumes laws: "currency_laws E" and run: "market_dispatch E org c s = Some (Inr u, s')"
  shows "\<exists>evs. events s' = events s @ evs \<and>
    wealth E (ext s') = fold paid_by_event evs (wealth E (ext s)) \<and>
    (\<forall>A. finite A \<longrightarrow> (\<forall>a b c n v. MarketEvent (TokenSold a b c n v) \<in> set evs \<longrightarrow> a \<in> A \<and> b \<in> A) \<longrightarrow>
      sum (wealth E (ext s')) A = sum (wealth E (ext s)) A)"
proof (cases c)
  case (Buy k am)
  with run obtain a where "do_buy E a k am False s = Some (Inr (), s')" by (auto simp: success_buy)
  from do_buy_wealth[OF laws this] obtain owner price where sold: "a \<noteq> owner"
    "events s' = events s @ sale_log owner a k price" "unat price \<le> wealth E (ext s) a"
    "wealth E (ext s') = pay a owner (unat price) (wealth E (ext s))"
    by blast
  then show ?thesis
    by (intro exI[of _ "sale_log owner a k price"])
      (auto simp: paid_by_sale sale_log_def intro: pay_conserves)
next
  case (AcceptOffer k b)
  with run have "accept_offer E org k b s = Some (Inr u, s')" by simp
  then show ?thesis
  proof (rule accept_offer_effect)
    fix a off t
    let ?s = "s\<lparr>ext := cur_unreserve E (maker off) (offer_amount off) (ext s)\<rparr>"
    assume acc: "do_buy E (maker off) k None True ?s = Some (Inr (), t)"
      "s' = t\<lparr>events := events t @ [MarketEvent (OfferAccepted a b (fst k) (snd k))],
              offers := (offers t)((k, b) := None)\<rparr>"
    from do_buy_wealth[OF laws acc(1)] obtain owner price where sold: "maker off \<noteq> owner"
      "events t = events s @ sale_log owner (maker off) k price"
      "unat price \<le> wealth E (ext s) (maker off)"
      "wealth E (ext t) = pay (maker off) owner (unat price) (wealth E (ext s))"
      by (auto simp: wealth_unreserve[OF laws])
    then show ?thesis using acc(2)
      by (intro exI[of _ "sale_log owner (maker off) k price @
          [MarketEvent (OfferAccepted a b (fst k) (snd k))]"])
        (auto simp: paid_by_sale sale_log_def intro: pay_conserves)
  qed
qed (use run in \<open>auto simp: success_list_nft success_unlist success_make_offer success_withdraw_offer
    wealth_reserve[OF laws] wealth_unreserve[OF laws]\<close>)

end
