(* ===== verification/Chain_History.thy ===== *)
theory Chain_History
  imports Chain
begin

text \<open>
  What stays true of one NFT and of one collection along the history of the chain: identifiers are
  never handed out again, the immutable part of an NFT's record never changes, and a locked
  collection stays closed. Each is an invariant with the NFT or the collection as parameter.
\<close>

section \<open>Identifiers never come back\<close>

definition handed_out :: "collection_id \<Rightarrow> nft_id \<Rightarrow> ('a, 'x, 'z) core_state_scheme \<Rightarrow> bool" where
  "handed_out c i s \<longleftrightarrow> i < next_nft_id s c"

lemma handed_out_cong: "next_nft_id s' = next_nft_id s \<Longrightarrow> handed_out c i s' = handed_out c i s"
  by (simp add: handed_out_def)

lemma handed_out_update [simp]:
  "handed_out c i (s\<lparr>children := ch\<rparr>) = handed_out c i s"
  "handed_out c i (s\<lparr>nfts := ns\<rparr>) = handed_out c i s"
  "handed_out c i (s\<lparr>priorities := ps\<rparr>) = handed_out c i s"
  "handed_out c i (s\<lparr>properties := prs\<rparr>) = handed_out c i s"
  "handed_out c i (s\<lparr>collections := cs\<rparr>) = handed_out c i s"
  "handed_out c i (s\<lparr>collection_index := ci\<rparr>) = handed_out c i s"
  "handed_out c i (s\<lparr>lock := l\<rparr>) = handed_out c i s"
  "handed_out c i (s\<lparr>equippable_bases := eb\<rparr>) = handed_out c i s"
  "handed_out c i (s\<lparr>equippable_slots := es\<rparr>) = handed_out c i s"
  "handed_out c i (s\<lparr>resources := rs\<rparr>) = handed_out c i s"
  "handed_out c i (s\<lparr>next_resource_id := nr\<rparr>) = handed_out c i s"
  "handed_out c i (s\<lparr>ext := x\<rparr>) = handed_out c i s"
  "handed_out c i (s\<lparr>events := ev\<rparr>) = handed_out c i s"
  by (rule handed_out_cong; simp)+

lemma handed_out_outer [simp]:
  "handed_out c i (s\<lparr>bases := bs\<rparr>) = handed_out c i s"
  "handed_out c i (s\<lparr>parts := pts\<rparr>) = handed_out c i s"
  "handed_out c i (s\<lparr>next_base_id := j\<rparr>) = handed_out c i s"
  "handed_out c i (s\<lparr>equippings := eqs\<rparr>) = handed_out c i s"
  "handed_out c i (s\<lparr>themes := ts\<rparr>) = handed_out c i s"
  "handed_out c i (s'\<lparr>listed_nfts := ls\<rparr>) = handed_out c i s'"
  "handed_out c i (s'\<lparr>offers := ofs\<rparr>) = handed_out c i s'"
  "handed_out c i (r\<lparr>something := st\<rparr>) = handed_out c i r"
  by (rule handed_out_cong; simp)+

lemma handed_out_next:
  assumes "handed_out c i s" "next_nft_id s c' \<noteq> - 1"
  shows "handed_out c i (s\<lparr>next_nft_id := (next_nft_id s)(c' := next_nft_id s c' + 1)\<rparr>)"
  using assms(1) less_plus_one_u32[OF assms(2)] less_trans[of i "next_nft_id s c'" "next_nft_id s c' + 1"]
  by (auto simp: handed_out_def)

text \<open>A predicate that is kept by these ten operations is kept by every step.\<close>

lemma history_step:
  fixes I :: "('a, 'x, 'z) runtime_state_scheme \<Rightarrow> bool"
  assumes core: "\<And>org c. keeps I (core_dispatch E org c)"
    and nfts: "\<And>s k b. I s \<Longrightarrow> I (s\<lparr>nfts := mutate_exists k (\<lambda>n. n\<lparr>equipped := b\<rparr>) (nfts s)\<rparr>)"
    and frame: "\<And>s v. I (s\<lparr>events := v\<rparr>) = I s" "\<And>s v. I (s\<lparr>ext := v\<rparr>) = I s"
      "\<And>s v. I (s\<lparr>lock := v\<rparr>) = I s"
      "\<And>s v. I (s\<lparr>bases := v\<rparr>) = I s" "\<And>s v. I (s\<lparr>parts := v\<rparr>) = I s"
      "\<And>s v. I (s\<lparr>next_base_id := v\<rparr>) = I s" "\<And>s v. I (s\<lparr>equippings := v\<rparr>) = I s"
      "\<And>s v. I (s\<lparr>themes := v\<rparr>) = I s" "\<And>s v. I (s\<lparr>listed_nfts := v\<rparr>) = I s"
      "\<And>s v. I (s\<lparr>offers := v\<rparr>) = I s" "\<And>s v. I (s\<lparr>something := v\<rparr>) = I s"
    and step: "I s" "runtime_step E F s s'"
  shows "I s'"
proof -
  have "keeps I (equip_dispatch E org c)" for org c
    by (rule keeps_equip_dispatch) (auto intro!: keeps_base_operations nfts simp: frame)
  moreover have "keeps I (market_dispatch E org c)" for org c
    using core[of _ "Send k (AccountId b)" for k b]
    by (intro keeps_market_dispatch) (simp_all add: frame)
  moreover have "keeps I (template_dispatch org c)" for org c
    by (rule keeps_template_dispatch) (simp_all add: frame)
  ultimately show ?thesis
    using core step by (intro step_keepsI[of I E F s s']) (simp_all add: frame)
qed

lemma keeps_handed_out_core: "keeps (handed_out c i) (core_dispatch E org call)"
proof (rule keeps_core_dispatch)
  show "keeps (handed_out c i) (nft_mint a ow c' rcp am md tr)" for a ow c' rcp am md tr
    by (rule keepsI) (auto simp: success_nft_mint handed_out_next)
  show "keeps (handed_out c i) (nft_mint_directly_to_nft E a p c' rcp am md tr)" for a p c' rcp am md tr
    by (rule keepsI) (auto simp: success_nft_mint_directly handed_out_next)
  show "keeps (handed_out c i) (nft_send E a k ow)" for a k ow
    by (rule keepsI) (auto elim!: nft_send_success)
  show "keeps (handed_out c i) (nft_accept E a k ow)" for a k ow
    by (rule keepsI) (auto simp: success_nft_accept)
  show "keeps (handed_out c i) (collection_create a md mx sy)" for a md mx sy
    by (rule keepsI) (auto simp: success_collection_create)
  show "keeps (handed_out c i) (collection_burn a c')" for a c'
    by (rule keepsI) (auto simp: success_collection_burn)
  show "keeps (handed_out c i) (collection_change_issuer c' a)" for c' a
    by (rule keepsI) (auto simp: success_collection_change_issuer)
  show "keeps (handed_out c i) (collection_lock a c')" for a c'
    by (rule keepsI) (auto simp: success_collection_lock)
qed (simp_all add: keeps_nft_burn_rec keeps_resource_add)

interpretation ids: step_invariant "runtime_step E F" "handed_out c i" for E F c i
  by unfold_locales (rule history_step[OF keeps_handed_out_core]; simp)

section \<open>A closed collection stays closed\<close>

text \<open>
  No identifier below the maximum is left: the collection is gone, or its counter has reached its
  maximum. The count is below the counter, so locking the collection again does not reopen it.
\<close>

definition closed_at :: "collection_id \<Rightarrow> nft_id \<Rightarrow> ('a, 'x, 'z) core_state_scheme \<Rightarrow> bool" where
  "closed_at c n s \<longleftrightarrow> c < collection_index s \<and> next_nft_id s c = n \<and>
     (\<forall>col. collections s c = Some col \<longrightarrow> nfts_count col \<le> n \<and>
        (\<exists>mx. col_max col = Some mx \<and> mx \<le> n))"

lemma closed_at_cong:
  "collection_index s' = collection_index s \<Longrightarrow> next_nft_id s' = next_nft_id s \<Longrightarrow>
    collections s' = collections s \<Longrightarrow> closed_at c n s' = closed_at c n s"
  by (simp add: closed_at_def)

lemma closed_at_update [simp]:
  "closed_at c n (s\<lparr>children := ch\<rparr>) = closed_at c n s"
  "closed_at c n (s\<lparr>priorities := ps\<rparr>) = closed_at c n s"
  "closed_at c n (s\<lparr>properties := prs\<rparr>) = closed_at c n s"
  "closed_at c n (s\<lparr>lock := l\<rparr>) = closed_at c n s"
  "closed_at c n (s\<lparr>equippable_bases := eb\<rparr>) = closed_at c n s"
  "closed_at c n (s\<lparr>equippable_slots := es\<rparr>) = closed_at c n s"
  "closed_at c n (s\<lparr>resources := rs\<rparr>) = closed_at c n s"
  "closed_at c n (s\<lparr>next_resource_id := nr\<rparr>) = closed_at c n s"
  "closed_at c n (s\<lparr>ext := x\<rparr>) = closed_at c n s"
  "closed_at c n (s\<lparr>events := ev\<rparr>) = closed_at c n s"
  by (rule closed_at_cong; simp)+

lemma closed_at_outer [simp]:
  "closed_at c n (s\<lparr>bases := bs\<rparr>) = closed_at c n s"
  "closed_at c n (s\<lparr>parts := pts\<rparr>) = closed_at c n s"
  "closed_at c n (s\<lparr>next_base_id := j\<rparr>) = closed_at c n s"
  "closed_at c n (s\<lparr>equippings := eqs\<rparr>) = closed_at c n s"
  "closed_at c n (s\<lparr>themes := ts\<rparr>) = closed_at c n s"
  "closed_at c n (s'\<lparr>listed_nfts := ls\<rparr>) = closed_at c n s'"
  "closed_at c n (s'\<lparr>offers := ofs\<rparr>) = closed_at c n s'"
  "closed_at c n (r\<lparr>something := st\<rparr>) = closed_at c n r"
  by (rule closed_at_cong; simp)+

lemma closed_at_nfts [simp]: "closed_at c n (s\<lparr>nfts := ns\<rparr>) = closed_at c n s"
  by (rule closed_at_cong; simp)

text \<open>A mint in a closed collection would need an identifier below the maximum.\<close>

lemma closed_at_minted:
  assumes "closed_at c n s" "collections s c' = Some col"
    "\<forall>mx. col_max col = Some mx \<longrightarrow> next_nft_id s c' < mx"
  shows "closed_at c n (s\<lparr>next_nft_id := (next_nft_id s)(c' := i),
    collections := (collections s)(c' \<mapsto> col'), nfts := ns\<rparr>)"
proof -
  have "c' \<noteq> c"
  proof
    assume "c' = c"
    with assms(1,2) obtain mx where "col_max col = Some mx" "mx \<le> next_nft_id s c'"
      by (auto simp: closed_at_def)
    with assms(3) show False by fastforce
  qed
  with assms(1) show ?thesis by (simp add: closed_at_def)
qed

lemma closed_at_decrement:
  assumes "closed_at c n s" "collections s c' = Some col" "i \<le> nfts_count col"
  shows "closed_at c n (s\<lparr>collections := (collections s)(c' \<mapsto> col\<lparr>nfts_count := i\<rparr>)\<rparr>)"
  using assms by (fastforce simp: closed_at_def)

lemma keeps_closed_at_core: "keeps (closed_at c n) (core_dispatch E org call)"
proof (rule keeps_core_dispatch)
  show "keeps (closed_at c n) (nft_mint a ow c' rcp am md tr)" for a ow c' rcp am md tr
    by (rule keepsI) (auto simp: success_nft_mint intro!: closed_at_minted)
  show "keeps (closed_at c n) (nft_mint_directly_to_nft E a p c' rcp am md tr)" for a p c' rcp am md tr
    by (rule keepsI) (auto simp: success_nft_mint_directly intro!: closed_at_minted)
  show "keeps (closed_at c n) (nft_send E a k ow)" for a k ow
    by (rule keepsI) (auto elim!: nft_send_success)
  show "keeps (closed_at c n) (nft_accept E a k ow)" for a k ow
    by (rule keepsI) (auto simp: success_nft_accept)
  show "keeps (closed_at c n) (nft_burn_rec E d k)" for d k
    by (rule keeps_nft_burn_rec) (simp_all add: closed_at_decrement saturating_dec_le)
  show "keeps (closed_at c n) (collection_create a md mx sy)" for a md mx sy
    by (rule keepsI) (auto simp: success_collection_create closed_at_def
        intro: less_trans less_plus_one_u32)
  show "keeps (closed_at c n) (collection_burn a c')" for a c'
    by (rule keepsI) (auto simp: success_collection_burn closed_at_def)
  show "keeps (closed_at c n) (collection_change_issuer c' a)" for c' a
    by (rule keepsI) (auto simp: success_collection_change_issuer closed_at_def)
  show "keeps (closed_at c n) (collection_lock a c')" for a c'
    by (rule keepsI) (auto simp: success_collection_lock closed_at_def split: if_splits)
qed (simp_all add: keeps_resource_add)

interpretation closed: step_invariant "runtime_step E F" "closed_at c n" for E F c n
  by unfold_locales (rule history_step[OF keeps_closed_at_core]; simp)

section \<open>The immutable part of a record\<close>

definition immutable_part :: "'a nft_info \<Rightarrow> 'a royalty_info option \<times> bytes \<times> bool" where
  "immutable_part nft = (royalty nft, nft_metadata nft, transferable nft)"

definition frozen :: "nft \<Rightarrow> 'a royalty_info option \<times> bytes \<times> bool \<Rightarrow>
    ('a, 'x, 'z) core_state_scheme \<Rightarrow> bool" where
  "frozen k v s \<longleftrightarrow> handed_out (fst k) (snd k) s \<and>
     (\<forall>nft. nfts s k = Some nft \<longrightarrow> immutable_part nft = v)"

lemma frozen_cong:
  "next_nft_id s' = next_nft_id s \<Longrightarrow> nfts s' = nfts s \<Longrightarrow> frozen k v s' = frozen k v s"
  by (simp add: frozen_def handed_out_def)

lemma frozen_update [simp]:
  "frozen k v (s\<lparr>children := ch\<rparr>) = frozen k v s"
  "frozen k v (s\<lparr>priorities := ps\<rparr>) = frozen k v s"
  "frozen k v (s\<lparr>properties := prs\<rparr>) = frozen k v s"
  "frozen k v (s\<lparr>lock := l\<rparr>) = frozen k v s"
  "frozen k v (s\<lparr>equippable_bases := eb\<rparr>) = frozen k v s"
  "frozen k v (s\<lparr>equippable_slots := es\<rparr>) = frozen k v s"
  "frozen k v (s\<lparr>resources := rs\<rparr>) = frozen k v s"
  "frozen k v (s\<lparr>next_resource_id := nr\<rparr>) = frozen k v s"
  "frozen k v (s\<lparr>ext := x\<rparr>) = frozen k v s"
  "frozen k v (s\<lparr>events := ev\<rparr>) = frozen k v s"
  by (rule frozen_cong; simp)+

lemma frozen_outer [simp]:
  "frozen k v (s\<lparr>bases := bs\<rparr>) = frozen k v s"
  "frozen k v (s\<lparr>parts := pts\<rparr>) = frozen k v s"
  "frozen k v (s\<lparr>next_base_id := j\<rparr>) = frozen k v s"
  "frozen k v (s\<lparr>equippings := eqs\<rparr>) = frozen k v s"
  "frozen k v (s\<lparr>themes := ts\<rparr>) = frozen k v s"
  "frozen k v (s'\<lparr>listed_nfts := ls\<rparr>) = frozen k v s'"
  "frozen k v (s'\<lparr>offers := ofs\<rparr>) = frozen k v s'"
  "frozen k v (r\<lparr>something := st\<rparr>) = frozen k v r"
  by (rule frozen_cong; simp)+

lemma frozen_collections [simp]:
  "frozen k v (s\<lparr>collections := cs\<rparr>) = frozen k v s"
  "frozen k v (s\<lparr>collection_index := ci\<rparr>) = frozen k v s"
  by (rule frozen_cong; simp)+

text \<open>Writing a record with the same immutable part, or removing one, keeps it frozen.\<close>

lemma frozen_written:
  "frozen k v s \<Longrightarrow> nfts s k' = Some nft \<Longrightarrow> immutable_part nft' = immutable_part nft \<Longrightarrow>
    frozen k v (s\<lparr>nfts := (nfts s)(k' \<mapsto> nft')\<rparr>)"
  "frozen k v s \<Longrightarrow> frozen k v (s\<lparr>nfts := (nfts s)(k' := None)\<rparr>)"
  "frozen k v s \<Longrightarrow>
    frozen k v (s\<lparr>nfts := mutate_exists k' (\<lambda>nft. nft\<lparr>equipped := b\<rparr>) (nfts s)\<rparr>)"
  by (auto simp: frozen_def immutable_part_def handed_out_def)

text \<open>A mint writes the record of an identifier that was not handed out.\<close>

lemma frozen_minted:
  assumes "frozen k v s" "next_nft_id s c \<noteq> - 1"
  shows "frozen k v (s\<lparr>next_nft_id := (next_nft_id s)(c := next_nft_id s c + 1),
    collections := cs, nfts := (nfts s)((c, next_nft_id s c) \<mapsto> nft)\<rparr>)"
proof -
  have "k \<noteq> (c, next_nft_id s c)" using assms(1) by (auto simp: frozen_def handed_out_def)
  moreover have "handed_out (fst k) (snd k)
      (s\<lparr>next_nft_id := (next_nft_id s)(c := next_nft_id s c + 1)\<rparr>)"
    using assms by (intro handed_out_next) (simp_all add: frozen_def)
  ultimately show ?thesis using assms(1) by (simp add: frozen_def handed_out_def)
qed

lemma immutable_sent_record: "immutable_part (sent_record ow ask nft) = immutable_part nft"
  by (simp add: immutable_part_def sent_record_def)

lemma keeps_frozen_core: "keeps (frozen k v) (core_dispatch E org call)"
proof (rule keeps_core_dispatch)
  show "keeps (frozen k v) (nft_mint a ow c' rcp am md tr)" for a ow c' rcp am md tr
    by (rule keepsI) (auto simp: success_nft_mint frozen_minted)
  show "keeps (frozen k v) (nft_mint_directly_to_nft E a p c' rcp am md tr)" for a p c' rcp am md tr
    by (rule keepsI) (auto simp: success_nft_mint_directly frozen_minted)
  show "keeps (frozen k v) (nft_send E a k' ow)" for a k' ow
    by (rule keepsI) (auto elim!: nft_send_success intro!: frozen_written(1) simp: immutable_sent_record)
  show "keeps (frozen k v) (nft_accept E a k' ow)" for a k' ow
    by (rule keepsI) (auto simp: success_nft_accept immutable_part_def intro!: frozen_written(1))
  show "keeps (frozen k v) (nft_burn_rec E d k')" for d k'
    by (rule keeps_nft_burn_rec) (simp_all add: frozen_written(2))
  show "keeps (frozen k v) (collection_create a md mx sy)" for a md mx sy
    by (rule keepsI) (auto simp: success_collection_create)
  show "keeps (frozen k v) (collection_burn a c')" for a c'
    by (rule keepsI) (auto simp: success_collection_burn)
  show "keeps (frozen k v) (collection_change_issuer c' a)" for c' a
    by (rule keepsI) (auto simp: success_collection_change_issuer)
  show "keeps (frozen k v) (collection_lock a c')" for a c'
    by (rule keepsI) (auto simp: success_collection_lock)
qed (simp_all add: keeps_resource_add)

interpretation frozen: step_invariant "runtime_step E F" "frozen k v" for E F k v
  by unfold_locales (rule history_step[OF keeps_frozen_core]; simp add: frozen_written)

text \<open>
  An NFT that is gone while its identifier is handed out is frozen at every value, so it never has
  a record again.
\<close>

lemma gone_stays_gone:
  assumes "(runtime_step E F)\<^sup>*\<^sup>* s s'" "n < next_nft_id s c" "nfts s (c, n) = None"
  shows "nfts s' (c, n) = None"
proof (rule ccontr)
  assume "nfts s' (c, n) \<noteq> None"
  then obtain nft where nft: "nfts s' (c, n) = Some nft" by blast
  have "frozen (c, n) v s" for v
    using assms(2,3) by (simp add: frozen_def handed_out_def)
  then have "frozen (c, n) v s'" for v by (rule frozen.steps_keep[OF assms(1)])
  then have "immutable_part nft = v" for v using nft unfolding frozen_def by blast
  from this[of "(None, [], True)"] this[of "(None, [], False)"] show False by simp
qed

end
