(* ===== verification/Genesis.thy ===== *)
theory Genesis
  imports Chain_History
begin

text \<open>
  The first state of the chain: the genesis configuration of \<^verbatim>\<open>node/src/chain_spec.rs\<close> and the
  storage of the runtime it gives. The configuration names the FRAME pallets only, so the storage
  of the pallets of this repository starts empty.
\<close>

section \<open>The chain specifications\<close>

datatype chain_type = Development | Local | Live

text \<open>
  Keys are derived from seeds by \<^verbatim>\<open>sp_core\<close>: two functions of the seed, arguments of the
  definitions. The genesis of \<^verbatim>\<open>transaction_payment\<close> is the default and carries no data here.
\<close>

record ('a, 'u, 'g) genesis_config =
  system_code :: bytes
  endowments :: "('a \<times> balance) list"
  aura_authorities :: "'u list"
  grandpa_authorities :: "('g \<times> 64 word) list"
  sudo_key :: "'a option"

definition testnet_genesis ::
  "bytes \<Rightarrow> ('u \<times> 'g) list \<Rightarrow> 'a \<Rightarrow> 'a list \<Rightarrow> bool \<Rightarrow> ('a, 'u, 'g) genesis_config" where
  "testnet_genesis wasm_binary initial_authorities root_key endowed_accounts enable_println =
     \<lparr>system_code = wasm_binary,
      endowments = List.map (\<lambda>k. (k, push_bit 60 1)) endowed_accounts,
      aura_authorities = List.map fst initial_authorities,
      grandpa_authorities = List.map (\<lambda>x. (snd x, 1)) initial_authorities,
      sudo_key = Some root_key\<rparr>"

text \<open>The arguments of \<^verbatim>\<open>ChainSpec::from_genesis\<close> that are not empty in both specifications.\<close>

record ('a, 'u, 'g) chain_spec =
  spec_name :: string
  spec_id :: string
  spec_type :: chain_type
  spec_genesis :: "('a, 'u, 'g) genesis_config"

definition development_config ::
  "(string \<Rightarrow> 'a) \<Rightarrow> (string \<Rightarrow> 'u \<times> 'g) \<Rightarrow> bytes option \<Rightarrow> string + ('a, 'u, 'g) chain_spec" where
  "development_config account_from_seed authority_from_seed WASM_BINARY = (case WASM_BINARY of
       None \<Rightarrow> Inl ''Development wasm not available''
     | Some wasm_binary \<Rightarrow> Inr
         \<lparr>spec_name = ''Development'', spec_id = ''dev'', spec_type = Development,
          spec_genesis = testnet_genesis wasm_binary
            [authority_from_seed ''Alice'']
            (account_from_seed ''Alice'')
            [account_from_seed ''Alice'', account_from_seed ''Bob'',
             account_from_seed ''Alice//stash'', account_from_seed ''Bob//stash'']
            True\<rparr>)"

definition local_testnet_config ::
  "(string \<Rightarrow> 'a) \<Rightarrow> (string \<Rightarrow> 'u \<times> 'g) \<Rightarrow> bytes option \<Rightarrow> string + ('a, 'u, 'g) chain_spec" where
  "local_testnet_config account_from_seed authority_from_seed WASM_BINARY = (case WASM_BINARY of
       None \<Rightarrow> Inl ''Development wasm not available''
     | Some wasm_binary \<Rightarrow> Inr
         \<lparr>spec_name = ''Local Testnet'', spec_id = ''local_testnet'', spec_type = Local,
          spec_genesis = testnet_genesis wasm_binary
            [authority_from_seed ''Alice'', authority_from_seed ''Bob'']
            (account_from_seed ''Alice'')
            [account_from_seed ''Alice'', account_from_seed ''Bob'',
             account_from_seed ''Charlie'', account_from_seed ''Dave'',
             account_from_seed ''Eve'', account_from_seed ''Ferdie'',
             account_from_seed ''Alice//stash'', account_from_seed ''Bob//stash'',
             account_from_seed ''Charlie//stash'', account_from_seed ''Dave//stash'',
             account_from_seed ''Eve//stash'', account_from_seed ''Ferdie//stash'']
            True\<rparr>)"

text \<open>
  \<^verbatim>\<open>load_spec\<close> of the command line (\<^verbatim>\<open>node/src/command.rs\<close>): an identifier of one of the two
  specifications, or the path of a file. Reading the file is \<^verbatim>\<open>ChainSpec::from_json_file\<close>, an argument.
\<close>

definition load_spec ::
  "(string \<Rightarrow> 'a) \<Rightarrow> (string \<Rightarrow> 'u \<times> 'g) \<Rightarrow> bytes option \<Rightarrow>
    (string \<Rightarrow> string + ('a, 'u, 'g) chain_spec) \<Rightarrow> string \<Rightarrow> string + ('a, 'u, 'g) chain_spec" where
  "load_spec account_from_seed authority_from_seed WASM_BINARY from_json_file spec =
     (if spec = ''dev''
      then development_config account_from_seed authority_from_seed WASM_BINARY
      else if spec = '''' \<or> spec = ''local''
      then local_testnet_config account_from_seed authority_from_seed WASM_BINARY
      else from_json_file spec)"

text \<open>
  What \<^verbatim>\<open>pallet_balances\<close> asserts when it builds the genesis storage: every endowment holds at least
  the existential deposit and no account is endowed twice. The total issuance is their sum, which
  must not wrap.
\<close>

definition endowments_ok :: "('a, 'u, 'g) genesis_config \<Rightarrow> bool" where
  "endowments_ok g \<longleftrightarrow> (\<forall>(a, v) \<in> set (endowments g). ExistentialDeposit \<le> v) \<and>
     distinct (List.map fst (endowments g)) \<and>
     (\<Sum>(a, v) \<leftarrow> endowments g. unat v) < 2 ^ 128"

lemma endowment_value: "unat (push_bit 60 1 :: balance) = 2 ^ 60"
  by simp

lemma testnet_endowments:
  assumes "distinct accounts" "length accounts < 2 ^ 68"
  shows "endowments_ok (testnet_genesis wasm auths root accounts p)"
proof -
  have "(\<Sum>(a, v) \<leftarrow> endowments (testnet_genesis wasm auths root accounts p). unat v) =
      length accounts * 2 ^ 60"
    by (simp add: testnet_genesis_def o_def sum_list_triv)
  also have "\<dots> < 2 ^ 128" using assms(2) by simp
  finally show ?thesis
    using assms(1)
    by (auto simp: endowments_ok_def testnet_genesis_def o_def ExistentialDeposit_def)
qed

section \<open>The first storage\<close>

definition genesis_storage :: "'x \<Rightarrow> ('a, 'x) runtime_state" where
  "genesis_storage x = \<lparr>ext = x, events = [],
     next_nft_id = (\<lambda>_. 0), collection_index = 0, next_resource_id = (\<lambda>_. 0),
     collections = Map.empty, nfts = Map.empty, priorities = Map.empty, children = (\<lambda>_. []),
     resources = Map.empty, equippable_bases = Map.empty, equippable_slots = Map.empty,
     properties = Map.empty, lock = (\<lambda>_. False),
     bases = Map.empty, parts = Map.empty, next_base_id = 0, next_part_id = (\<lambda>_. 0),
     equippings = Map.empty, themes = (\<lambda>_. []),
     listed_nfts = Map.empty, offers = Map.empty, something = None\<rparr>"

lemma genesis_chain_ok: "chain_ok (genesis_storage x)"
  by (simp add: chain_ok_def supply_ok_def resources_ok_def bases_ok_def offers_ok_def
      genesis_storage_def)

lemma reachable_chain_ok:
  "(runtime_step E F)\<^sup>*\<^sup>* (genesis_storage x) s \<Longrightarrow> chain_ok s"
  by (rule chain.steps_keep[OF _ genesis_chain_ok])

end
