(* ===== verification/Escrow.thy ===== *)
theory Escrow
  imports Genesis Market_Effects
begin

text \<open>
  The accounting of the market: what an account owes on its outstanding offers is covered by its
  reserved balance, next to the deposits of \<^verbatim>\<open>pallet_uniques\<close>.
\<close>

section \<open>What an account owes\<close>

definition owed :: "(nft \<times> 'a \<rightharpoonup> 'a offer) \<Rightarrow> 'a \<Rightarrow> nat" where
  "owed m a = (\<Sum>k | m (k, a) \<noteq> None. unat (offer_amount (the (m (k, a)))))"

lemma finite_offers_of: "finite (dom m) \<Longrightarrow> finite {k. m (k, a) \<noteq> None}"
  by (rule finite_subset[of _ "fst ` dom m"]) (force simp: image_iff dom_def)+

lemma owed_insert:
  assumes "finite (dom m)" "m (k, a) = None"
  shows "owed (m((k, a) \<mapsto> off)) b = owed m b + (if b = a then unat (offer_amount off) else 0)"
proof (cases "b = a")
  case True
  have "{j. (m((k, a) \<mapsto> off)) (j, a) \<noteq> None} = insert k {j. m (j, a) \<noteq> None}" by auto
  moreover have "(\<Sum>j | m (j, a) \<noteq> None. unat (offer_amount (the ((m((k, a) \<mapsto> off)) (j, a))))) =
      owed m a"
    unfolding owed_def by (rule sum.cong) (use assms(2) in auto)
  ultimately show ?thesis
    using True assms(2) finite_offers_of[OF assms(1), of a] by (simp add: owed_def)
next
  case False
  then show ?thesis by (simp add: owed_def)
qed

lemma owed_remove:
  assumes "finite (dom m)" "m (k, a) = Some off"
  shows "owed m b = owed (m((k, a) := None)) b + (if b = a then unat (offer_amount off) else 0)"
proof -
  have "m = (m((k, a) := None))((k, a) \<mapsto> off)" using assms(2) by auto
  then show ?thesis using owed_insert[of "m((k, a) := None)" k a off b] assms(1) by simp
qed

lemma owed_offer:
  assumes "finite (dom m)" "m (k, a) = Some off"
  shows "unat (offer_amount off) \<le> owed m a"
  using owed_remove[OF assms, of a] by simp

section \<open>The invariant\<close>

definition backed ::
  "('a, 'l, 'x) env \<Rightarrow> ('x \<Rightarrow> 'a \<Rightarrow> nat) \<Rightarrow> ('a, 'x, 'z) market_state_scheme \<Rightarrow> bool" where
  "backed E dep s \<longleftrightarrow> offers_ok s \<and> finite (dom (offers s)) \<and>
     (\<forall>a. owed (offers s) a + dep (ext s) a \<le> cur_reserved E (ext s) a)"

text \<open>
  The rest of the chain may use the reserved balance of an account, but not the part that is
  neither a deposit of \<^verbatim>\<open>pallet_uniques\<close> nor its own.
\<close>

definition escrow_untouched ::
  "('a, 'l, 'x) env \<Rightarrow> ('x \<Rightarrow> 'a \<Rightarrow> nat) \<Rightarrow> ('x \<Rightarrow> 'x \<Rightarrow> bool) \<Rightarrow> bool" where
  "escrow_untouched E dep F \<longleftrightarrow>
     (\<forall>x x' a. F x x' \<longrightarrow> cur_reserved E x a + dep x' a \<le> cur_reserved E x' a + dep x a)"

lemma backed_cong:
  "offers s' = offers s \<Longrightarrow> ext s' = ext s \<Longrightarrow> backed E dep s' = backed E dep s"
  by (simp add: backed_def offers_ok_def)

lemma backed_update [simp]:
  "backed E dep (s\<lparr>children := ch\<rparr>) = backed E dep s" "backed E dep (s\<lparr>nfts := ns\<rparr>) = backed E dep s"
  "backed E dep (s\<lparr>priorities := ps\<rparr>) = backed E dep s"
  "backed E dep (s\<lparr>properties := prs\<rparr>) = backed E dep s"
  "backed E dep (s\<lparr>collections := cs\<rparr>) = backed E dep s"
  "backed E dep (s\<lparr>collection_index := i\<rparr>) = backed E dep s"
  "backed E dep (s\<lparr>next_nft_id := nn\<rparr>) = backed E dep s" "backed E dep (s\<lparr>lock := l\<rparr>) = backed E dep s"
  "backed E dep (s\<lparr>equippable_bases := eb\<rparr>) = backed E dep s"
  "backed E dep (s\<lparr>equippable_slots := es\<rparr>) = backed E dep s"
  "backed E dep (s\<lparr>resources := rs\<rparr>) = backed E dep s"
  "backed E dep (s\<lparr>next_resource_id := nr\<rparr>) = backed E dep s"
  "backed E dep (s\<lparr>events := ev\<rparr>) = backed E dep s" "backed E dep (s\<lparr>bases := bs\<rparr>) = backed E dep s"
  "backed E dep (s\<lparr>parts := pts\<rparr>) = backed E dep s"
  "backed E dep (s\<lparr>next_base_id := j\<rparr>) = backed E dep s"
  "backed E dep (s\<lparr>equippings := eqs\<rparr>) = backed E dep s"
  "backed E dep (s\<lparr>themes := ts\<rparr>) = backed E dep s"
  "backed E dep (r\<lparr>something := st\<rparr>) = backed E dep r"
  by (rule backed_cong; simp)+

text \<open>Calls of \<^verbatim>\<open>pallet_uniques\<close> and of the rest of the chain move no escrow.\<close>

lemma backed_ext:
  assumes "backed E dep s" "offers s' = offers s"
    "\<And>a. cur_reserved E (ext s) a + dep (ext s') a \<le> cur_reserved E (ext s') a + dep (ext s) a"
  shows "backed E dep s'"
  unfolding backed_def
proof (intro conjI allI)
  show "offers_ok s'" "finite (dom (offers s'))"
    using assms(1,2) by (simp_all add: backed_def offers_ok_def)
  show "owed (offers s') a + dep (ext s') a \<le> cur_reserved E (ext s') a" for a
  proof -
    have "owed (offers s) a + dep (ext s) a \<le> cur_reserved E (ext s) a"
      using assms(1) by (simp add: backed_def)
    with assms(3)[of a] show ?thesis by (simp add: assms(2))
  qed
qed

lemma uniques_op_reserved:
  "deposit_laws E dep \<Longrightarrow> \<forall>a. dep x a \<le> cur_reserved E x a \<Longrightarrow> uniques_op E x x' \<Longrightarrow>
    cur_reserved E x' a + dep x a = cur_reserved E x a + dep x' a"
  by (auto simp: deposit_laws_def)

lemma currency_op_deposits: "deposit_laws E dep \<Longrightarrow> currency_op E x x' \<Longrightarrow> dep x' = dep x"
  by (auto simp: deposit_laws_def)

lemma backed_uniques:
  assumes "deposit_laws E dep" "backed E dep s" "uniques_op E (ext s) x"
  shows "backed E dep (s\<lparr>ext := x\<rparr>)"
proof -
  have "\<forall>a. dep (ext s) a \<le> cur_reserved E (ext s) a"
    using assms(2) unfolding backed_def by (metis add_leD2)
  from uniques_op_reserved[OF assms(1) this assms(3)] show ?thesis
    by (intro backed_ext[OF assms(2)]) simp_all
qed

lemma keeps_backed_core:
  "deposit_laws E dep \<Longrightarrow> keeps (backed E dep) (core_dispatch E org c)"
  by (rule keeps_core_outside) (simp_all add: backed_uniques)

lemma keeps_backed_equip: "keeps (backed E dep) (equip_dispatch E' org c)"
  by (rule keeps_equip_dispatch) (auto intro!: keeps_base_operations)

text \<open>An offer that leaves takes its amount out of both sides.\<close>

lemma backed_released:
  assumes ok: "backed E dep s" and laws: "currency_laws E" "deposit_laws E dep"
    and off: "offers s (k, a) = Some off"
    and x: "\<And>b. cur_reserved E x b + dep (cur_unreserve E (maker off) (offer_amount off) (ext s)) b =
      cur_reserved E (cur_unreserve E (maker off) (offer_amount off) (ext s)) b + dep x b"
    and s': "ext s' = x" "offers s' = (offers s)((k, a) := None)"
  shows "backed E dep s'"
proof -
  let ?u = "cur_unreserve E (maker off) (offer_amount off) (ext s)"
  have fin: "finite (dom (offers s))" and owed: "owed (offers s) b + dep (ext s) b \<le> cur_reserved E (ext s) b" for b
    using ok by (simp_all add: backed_def)
  have maker: "maker off = a" using ok off unfolding backed_def offers_ok_def by blast
  have dep: "dep ?u = dep (ext s)"
    by (rule currency_op_deposits[OF laws(2) currency_op.unreserve])
  have "owed (offers s') b + dep x b \<le> cur_reserved E x b" for b
    using owed_remove[OF fin off, of b] owed[of b] x[of b] maker
    by (auto simp: s' dep currency_unreserve[OF laws(1)] split: if_splits)
  then show ?thesis
    using ok s' fin by (auto simp: backed_def offers_ok_def split: if_splits)
qed

lemma backed_market:
  assumes laws: "deposit_laws E dep" "currency_laws E" and ok: "backed E dep s"
    and "market_change E org s s'"
  shows "backed E dep s'"
  using assms(4)
proof (cases rule: market_change.cases)
  case (bought a k ow li x)
  have "dep x = dep (ext s)" by (rule currency_op_deposits[OF laws(1) bought(11)])
  then have "backed E dep (s\<lparr>ext := x\<rparr>)"
    using bought(13) by (intro backed_ext[OF ok]) simp_all
  then have "backed E dep (s\<lparr>ext := x, ext := ext s'\<rparr>)"
    by (rule backed_uniques[OF laws(1)]) (simp add: bought(12))
  then show ?thesis using bought(10) by (simp add: backed_cong[of s' "s\<lparr>ext := ext s'\<rparr>"])
next
  case (taken ow k off b x)
  have "dep x = dep (cur_unreserve E (maker off) (offer_amount off) (ext s))"
    by (rule currency_op_deposits[OF laws(1) taken(10)])
  then have "backed E dep (s\<lparr>offers := offers s', ext := x\<rparr>)"
    using taken(9,12) by (intro backed_released[OF ok laws(2,1) taken(5), of x]) simp_all
  then have "backed E dep (s\<lparr>offers := offers s', ext := x, ext := ext s'\<rparr>)"
    by (rule backed_uniques[OF laws(1)]) (simp add: taken(11))
  then show ?thesis by (simp add: backed_cong[of s' "s\<lparr>offers := offers s', ext := ext s'\<rparr>"])
next
  case (listed a k li)
  then show ?thesis using ok by (simp add: backed_cong[of s' s])
next
  case (unlisted a k)
  then show ?thesis using ok by (simp add: backed_cong[of s' s])
next
  case (offered a k ow off)
  have fin: "finite (dom (offers s))" and owed: "owed (offers s) b + dep (ext s) b \<le> cur_reserved E (ext s) b" for b
    using ok by (simp_all add: backed_def)
  have dep: "dep (ext s') = dep (ext s)"
    by (rule currency_op_deposits[OF laws(1) currency_op.reserve[OF offered(6)]])
  have "owed (offers s') b + dep (ext s') b \<le> cur_reserved E (ext s') b" for b
    using owed_insert[OF fin offered(4), of off b] owed[of b]
    by (auto simp: offered(9) dep currency_reserve(3)[OF laws(2) offered(6)])
  then show ?thesis
    using ok fin offered(5,9) by (auto simp: backed_def offers_ok_def split: if_splits)
next
  case (withdrawn a k ow off)
  show ?thesis
    by (rule backed_released[OF ok laws(2,1) withdrawn(3) _ withdrawn(4,7)]) simp
qed

text \<open>Every step keeps the offers backed, under the laws of the code outside the repository.\<close>

definition escrow_laws ::
  "('a, 'l, 'x) env \<Rightarrow> ('x \<Rightarrow> 'x \<Rightarrow> bool) \<Rightarrow> ('x \<Rightarrow> 'a \<Rightarrow> nat) \<Rightarrow> bool" where
  "escrow_laws E F dep \<longleftrightarrow> uniques_laws E \<and> currency_laws E \<and> deposit_laws E dep \<and>
     escrow_untouched E dep F"

interpretation escrow: step_invariant "runtime_step E F" "\<lambda>s. escrow_laws E F dep \<longrightarrow> backed E dep s"
  for E F dep
proof unfold_locales
  fix s s' :: "('a, 'c, 'd) runtime_state_scheme"
  assume ok: "escrow_laws E F dep \<longrightarrow> backed E dep s" and step: "runtime_step E F s s'"
  show "escrow_laws E F dep \<longrightarrow> backed E dep s'"
  proof
    assume laws: "escrow_laws E F dep"
    have "keeps (backed E dep) (market_dispatch E org c :: ('a, 'c, 'd, unit) runtime_action)" for org c
    proof (rule keepsI)
      fix t r t' assume run: "market_dispatch E org c t = Some (Inr r, t')" and ok: "backed E dep t"
      have "market_change E org t t'"
        using laws by (intro market_call_changes[OF _ _ run]) (simp_all add: escrow_laws_def)
      with laws ok show "backed E dep t'" by (intro backed_market[of E dep t org t']) (simp_all add: escrow_laws_def)
    qed
    moreover have "backed E dep (s\<lparr>ext := x\<rparr>)"
      if "F (ext s) x" "backed E dep s" for s :: "('a, 'c, 'd) runtime_state_scheme" and x
      using laws that by (intro backed_ext[OF that(2)]) (auto simp: escrow_laws_def escrow_untouched_def)
    ultimately show "backed E dep s'"
      using laws ok by (intro step_keepsI[OF keeps_backed_core keeps_backed_equip _
          keeps_template_dispatch _ _ step]) (auto simp: escrow_laws_def)
  qed
qed

end
