(* ===== verification/Items.thy ===== *)
theory Items
  imports Genesis Market_Effects
begin

text \<open>
  The two sides of an NFT: its record in rmrk-core and its item in \<^verbatim>\<open>pallet_uniques\<close>. Every record
  has an item, as long as nobody but the pallets burns items; that is what the runtime's filter on
  the calls of \<^verbatim>\<open>pallet_uniques\<close> is for.
\<close>

section \<open>Where records can appear\<close>

text \<open>Every record is in the set \<open>D\<close>: kept by every call that is not a mint.\<close>

definition within :: "nft set \<Rightarrow> ('a, 'x, 'z) core_state_scheme \<Rightarrow> bool" where
  "within D s \<longleftrightarrow> (\<forall>k. nfts s k \<noteq> None \<longrightarrow> k \<in> D)"

lemma withinD: "within D s \<Longrightarrow> nfts s k \<noteq> None \<Longrightarrow> k \<in> D"
  unfolding within_def by blast

lemma within_records: "within {k. nfts s k \<noteq> None} s"
  by (simp add: within_def del: not_None_eq)

lemma within_cong: "nfts s' = nfts s \<Longrightarrow> within D s' = within D s"
  by (simp add: within_def)

lemma within_update [simp]:
  "within D (s\<lparr>children := ch\<rparr>) = within D s" "within D (s\<lparr>priorities := ps\<rparr>) = within D s"
  "within D (s\<lparr>properties := prs\<rparr>) = within D s" "within D (s\<lparr>collections := cs\<rparr>) = within D s"
  "within D (s\<lparr>collection_index := i\<rparr>) = within D s" "within D (s\<lparr>next_nft_id := nn\<rparr>) = within D s"
  "within D (s\<lparr>lock := l\<rparr>) = within D s" "within D (s\<lparr>equippable_bases := eb\<rparr>) = within D s"
  "within D (s\<lparr>equippable_slots := es\<rparr>) = within D s" "within D (s\<lparr>resources := rs\<rparr>) = within D s"
  "within D (s\<lparr>next_resource_id := nr\<rparr>) = within D s" "within D (s\<lparr>ext := x\<rparr>) = within D s"
  "within D (s\<lparr>events := ev\<rparr>) = within D s"
  by (rule within_cong; simp)+

lemma within_outer [simp]:
  "within D (s\<lparr>bases := bs\<rparr>) = within D s" "within D (s\<lparr>parts := pts\<rparr>) = within D s"
  "within D (s\<lparr>next_base_id := j\<rparr>) = within D s" "within D (s\<lparr>equippings := eqs\<rparr>) = within D s"
  "within D (s\<lparr>themes := ts\<rparr>) = within D s" "within D (m\<lparr>listed_nfts := ls\<rparr>) = within D m"
  "within D (m\<lparr>offers := ofs\<rparr>) = within D m" "within D (r\<lparr>something := st\<rparr>) = within D r"
  by (rule within_cong; simp)+

lemma within_written:
  "within D s \<Longrightarrow> nfts s k = Some nft \<Longrightarrow> within D (s\<lparr>nfts := (nfts s)(k \<mapsto> nft')\<rparr>)"
  "within D s \<Longrightarrow> within D (s\<lparr>nfts := (nfts s)(k := None)\<rparr>)"
  "within D s \<Longrightarrow> within D (s\<lparr>nfts := mutate_exists k f (nfts s)\<rparr>)"
  by (auto simp: within_def)

lemma keeps_within_core:
  assumes "\<not> mints c"
  shows "keeps (within D) (core_dispatch E org c)"
proof (rule keeps_core_dispatch)
  show "keeps (within D) (nft_send E a k ow)" for a k ow
    by (rule keepsI) (auto elim!: nft_send_success intro!: within_written(1))
  show "keeps (within D) (nft_accept E a k ow)" for a k ow
    by (rule keepsI) (auto simp: success_nft_accept intro!: within_written(1))
  show "keeps (within D) (nft_burn_rec E d k)" for d k
    by (rule keeps_nft_burn_rec) (simp_all add: within_written(2))
  show "keeps (within D) (collection_create a md mx sy)" for a md mx sy
    by (rule keepsI) (auto simp: success_collection_create)
  show "keeps (within D) (collection_burn a cl)" for a cl
    by (rule keepsI) (auto simp: success_collection_burn)
  show "keeps (within D) (collection_change_issuer cl a)" for cl a
    by (rule keepsI) (auto simp: success_collection_change_issuer)
  show "keeps (within D) (collection_lock a cl)" for a cl
    by (rule keepsI) (auto simp: success_collection_lock)
qed (use assms in \<open>simp_all add: mints_metadata keeps_resource_add\<close>)

lemma keeps_within_equip: "keeps (within D) (equip_dispatch E org c)"
  by (rule keeps_equip_dispatch) (auto intro!: keeps_base_operations within_written(3))

lemma keeps_within_market: "keeps (within D) (market_dispatch E org c)"
  using keeps_within_core[of "Send k (AccountId b)" D E for k b]
  by (intro keeps_market_dispatch) simp_all

text \<open>A burned NFT has no record.\<close>

lemma nft_burn_rec_gone:
  assumes "nft_burn_rec E d k s = Some (Inr u, s')"
  shows "nfts s' k = None"
proof (cases d)
  case 0
  then show ?thesis using assms by (simp add: success)
next
  case (Suc d')
  let ?rest = "seqM (modifyM (\<lambda>s. s\<lparr>resources := remove_prefix k (resources s)\<rparr>))
     (seqM (bindM (getsM (\<lambda>s. iter_order E (children s k))) (drain_children (nft_burn_rec E d') k))
     (decrement_nfts_count (fst k)))"
  obtain t where rest: "?rest (t\<lparr>nfts := (nfts t)(k := None)\<rparr>) = Some (Inr u, s')"
    using assms Suc by (auto simp: success)
  have "keeps (\<lambda>s. nfts s k = None) (decrement_nfts_count c)" for c
    by (rule keepsI) (auto simp: success)
  then have "keeps (\<lambda>s. nfts s k = None) ?rest"
    by (intro keeps_intros keeps_drain_children keeps_nft_burn_rec) simp_all
  from keepsD[OF this rest] show ?thesis by simp
qed

section \<open>Every record has an item\<close>

definition itemised :: "('a, 'l, 'x) env \<Rightarrow> ('a, 'x, 'z) core_state_scheme \<Rightarrow> bool" where
  "itemised E s \<longleftrightarrow> (\<forall>k. nfts s k \<noteq> None \<longrightarrow> uq_owner E (ext s) k \<noteq> None)"

lemma itemisedI:
  assumes "itemised E s" "\<And>k. nfts s' k \<noteq> None \<Longrightarrow> nfts s k \<noteq> None \<or> uq_owner E (ext s') k \<noteq> None"
    and "\<And>k. nfts s' k \<noteq> None \<Longrightarrow> uq_owner E (ext s) k \<noteq> None \<Longrightarrow> uq_owner E (ext s') k \<noteq> None"
  shows "itemised E s'"
  using assms unfolding itemised_def by blast

lemma itemised_core:
  assumes laws: "uniques_laws E" and ok: "itemised E s"
    and run: "core_dispatch E org c s = Some (Inr u, s')"
  shows "itemised E s'"
proof (cases "mints c")
  case True
  then consider (account) ow cl rcp am md tr rs where "c = MintNft ow cl rcp am md tr rs"
    | (nft) p cl rcp am md tr rs where "c = MintNftDirectlyToNft p cl rcp am md tr rs"
    by (cases c) auto
  then obtain k v b where "nfts s' = (nfts s)(k \<mapsto> v)" "uq_owner E (ext s') = (uq_owner E (ext s))(k \<mapsto> b)"
  proof cases
    case account
    with run have "mint_nft E org ow cl rcp am md tr rs s = Some (Inr u, s')" by simp
    then show ?thesis
      by (rule mint_nft_effect) (use that add_mint_resources_frame uniques_mint[OF laws] in fastforce)
  next
    case nft
    with run have "mint_nft_directly_to_nft E org p cl rcp am md tr rs s = Some (Inr u, s')" by simp
    then show ?thesis
      by (rule mint_directly_effect) (use that add_mint_resources_frame uniques_mint[OF laws] in fastforce)
  qed
  then show ?thesis by (intro itemisedI[OF ok]) (auto split: if_splits)
next
  case False
  have old: "nfts s j \<noteq> None" if "nfts s' j \<noteq> None" for j
    using withinD[OF keepsD[OF keeps_within_core[OF False] run within_records] that] by simp
  have owners: "uq_owner E (ext s') j \<noteq> None" if "nfts s' j \<noteq> None" "uq_owner E (ext s) j \<noteq> None" for j
    using core_call_owners[OF laws run]
  proof (cases rule: owner_change.cases)
    case (burned a k root m)
    with run have "burn_nft E org k m s = Some (Inr u, s')" by simp
    then have "nfts s' k = None" by (rule burn_nft_effect) (auto dest: nft_burn_rec_gone)
    with burned that show ?thesis by auto
  qed (use that in auto)
  show ?thesis by (rule itemisedI[OF ok]) (use old owners in blast)+
qed

lemma itemised_market:
  assumes laws: "uniques_laws E" "currency_laws E" and ok: "itemised E s"
    and run: "market_dispatch E org c s = Some (Inr u, s')"
  shows "itemised E s'"
proof (rule itemisedI[OF ok])
  show "nfts s j \<noteq> None \<or> uq_owner E (ext s') j \<noteq> None" if "nfts s' j \<noteq> None" for j
    using withinD[OF keepsD[OF keeps_within_market run within_records] that] by simp
  show "uq_owner E (ext s') j \<noteq> None" if "uq_owner E (ext s) j \<noteq> None" for j
    using market_call_changes[OF laws run]
    by (cases rule: market_change.cases)
      (use that in \<open>auto simp: currency_reserve(4)[OF laws(2)] currency_unreserve(3)[OF laws(2)]\<close>)
qed

definition items_kept :: "('a, 'l, 'x) env \<Rightarrow> ('x \<Rightarrow> 'x \<Rightarrow> bool) \<Rightarrow> bool" where
  "items_kept E F \<longleftrightarrow> (\<forall>x x' k. F x x' \<longrightarrow> uq_owner E x k \<noteq> None \<longrightarrow> uq_owner E x' k \<noteq> None)"

lemma keeps_itemised_equip:
  fixes E :: "('a, 'l, 'x) env"
  shows "keeps (itemised E) (equip_dispatch E' org c :: ('a, 'x, 'z, unit) equip_action)"
proof (rule keepsI)
  fix s s' :: "('a, 'x, 'z) equip_state_scheme" and r
  assume run: "equip_dispatch E' org c s = Some (Inr r, s')" and ok: "itemised E s"
  have "keeps (\<lambda>t. ext t = ext s) (equip_dispatch E' org c)"
    by (rule keeps_equip_dispatch) (auto intro!: keeps_base_operations)
  then have "ext s' = ext s" using run by (auto dest: keepsD)
  then show "itemised E s'"
    using withinD[OF keepsD[OF keeps_within_equip run within_records]] by (intro itemisedI[OF ok]) auto
qed

interpretation items: step_invariant "runtime_step E F"
  "\<lambda>s. uniques_laws E \<and> currency_laws E \<and> items_kept E F \<longrightarrow> itemised E s" for E F
proof unfold_locales
  fix s s' :: "('a, 'c, 'd) runtime_state_scheme"
  assume ok: "uniques_laws E \<and> currency_laws E \<and> items_kept E F \<longrightarrow> itemised E s"
    and step: "runtime_step E F s s'"
  show "uniques_laws E \<and> currency_laws E \<and> items_kept E F \<longrightarrow> itemised E s'"
  proof
    assume laws: "uniques_laws E \<and> currency_laws E \<and> items_kept E F"
    show "itemised E s'"
    proof (rule step_keepsI[OF _ keeps_itemised_equip _ keeps_template_dispatch _ _ step])
      show "keeps (itemised E) (core_dispatch E org c :: ('a, 'c, 'd, unit) runtime_action)" for org c
        using laws by (intro keepsI) (blast intro: itemised_core)
      show "keeps (itemised E) (market_dispatch E org c :: ('a, 'c, 'd, unit) runtime_action)" for org c
        using laws by (intro keepsI) (blast intro: itemised_market)
      show "itemised E s" using ok laws by blast
    qed (use laws in \<open>auto simp: itemised_def items_kept_def\<close>)
  qed
qed

section \<open>Every record has a collection\<close>

text \<open>
  A collection goes only when \<^verbatim>\<open>pallet_uniques\<close> counts no item in it; with every record having an
  item, no record is left behind. (The count rmrk-core keeps itself would not be enough: it is
  decremented with saturation.)
\<close>

definition housed :: "('a, 'x, 'z) core_state_scheme \<Rightarrow> bool" where
  "housed s \<longleftrightarrow> (\<forall>c n. nfts s (c, n) \<noteq> None \<longrightarrow> collections s c \<noteq> None)"

lemma housedI:
  assumes "housed s" "\<And>c n. nfts s' (c, n) \<noteq> None \<Longrightarrow> nfts s (c, n) \<noteq> None \<or> collections s' c \<noteq> None"
    and "\<And>c. collections s c \<noteq> None \<Longrightarrow> collections s' c \<noteq> None"
  shows "housed s'"
  using assms unfolding housed_def by blast

lemma housed_cong: "nfts s' = nfts s \<Longrightarrow> collections s' = collections s \<Longrightarrow> housed s' = housed s"
  by (simp add: housed_def)

lemma housed_update [simp]:
  "housed (s\<lparr>children := ch\<rparr>) = housed s" "housed (s\<lparr>priorities := ps\<rparr>) = housed s"
  "housed (s\<lparr>properties := prs\<rparr>) = housed s" "housed (s\<lparr>collection_index := i\<rparr>) = housed s"
  "housed (s\<lparr>next_nft_id := nn\<rparr>) = housed s" "housed (s\<lparr>lock := l\<rparr>) = housed s"
  "housed (s\<lparr>equippable_bases := eb\<rparr>) = housed s" "housed (s\<lparr>equippable_slots := es\<rparr>) = housed s"
  "housed (s\<lparr>resources := rs\<rparr>) = housed s" "housed (s\<lparr>next_resource_id := nr\<rparr>) = housed s"
  "housed (s\<lparr>ext := x\<rparr>) = housed s" "housed (s\<lparr>events := ev\<rparr>) = housed s"
  by (rule housed_cong; simp)+

lemma housed_outer [simp]:
  "housed (s\<lparr>bases := bs\<rparr>) = housed s" "housed (s\<lparr>parts := pts\<rparr>) = housed s"
  "housed (s\<lparr>next_base_id := j\<rparr>) = housed s" "housed (s\<lparr>equippings := eqs\<rparr>) = housed s"
  "housed (s\<lparr>themes := ts\<rparr>) = housed s" "housed (m\<lparr>listed_nfts := ls\<rparr>) = housed m"
  "housed (m\<lparr>offers := ofs\<rparr>) = housed m" "housed (r\<lparr>something := st\<rparr>) = housed r"
  by (rule housed_cong; simp)+

lemma housed_written:
  "housed s \<Longrightarrow> nfts s k = Some nft \<Longrightarrow> housed (s\<lparr>nfts := (nfts s)(k \<mapsto> nft')\<rparr>)"
  "housed s \<Longrightarrow> housed (s\<lparr>nfts := (nfts s)(k := None)\<rparr>)"
  "housed s \<Longrightarrow> housed (s\<lparr>nfts := mutate_exists k f (nfts s)\<rparr>)"
  "housed s \<Longrightarrow> housed (s\<lparr>collections := (collections s)(c \<mapsto> col)\<rparr>)"
  "housed s \<Longrightarrow> housed (s\<lparr>collections := mutate_exists c g (collections s)\<rparr>)"
  by (auto simp: housed_def)

lemma housed_minted:
  assumes "housed s"
  shows "housed (s\<lparr>next_nft_id := ids, collections := (collections s)(c \<mapsto> col),
    nfts := (nfts s)((c, n) \<mapsto> nft)\<rparr>)"
  using assms by (simp add: housed_def)

lemma keeps_housed_core:
  assumes "\<And>cl. c \<noteq> DestroyCollection cl"
  shows "keeps housed (core_dispatch E org c)"
proof (rule keeps_core_dispatch)
  show "keeps housed (nft_mint a ow cl rcp am md tr)" for a ow cl rcp am md tr
    by (rule keepsI) (auto simp: success_nft_mint housed_minted)
  show "keeps housed (nft_mint_directly_to_nft E a p cl rcp am md tr)" for a p cl rcp am md tr
    by (rule keepsI) (auto simp: success_nft_mint_directly housed_minted)
  show "keeps housed (nft_send E a k ow)" for a k ow
    by (rule keepsI) (auto elim!: nft_send_success intro!: housed_written(1))
  show "keeps housed (nft_accept E a k ow)" for a k ow
    by (rule keepsI) (auto simp: success_nft_accept intro!: housed_written(1))
  show "keeps housed (nft_burn_rec E d k)" for d k
    by (rule keeps_nft_burn_rec) (simp_all add: housed_written(2,4))
  show "keeps housed (collection_create a md mx sy)" for a md mx sy
    by (rule keepsI) (auto simp: success_collection_create housed_def)
  show "keeps housed (collection_change_issuer cl a)" for cl a
    by (rule keepsI) (auto simp: success_collection_change_issuer housed_written(5))
  show "keeps housed (collection_lock a cl)" for a cl
    by (rule keepsI) (auto simp: success_collection_lock intro!: housed_written(4))
qed (use assms in \<open>simp_all add: keeps_resource_add\<close>)

lemma housed_core:
  assumes law: "witness_law E" and ok: "itemised E s" "housed s"
    and run: "core_dispatch E org c s = Some (Inr u, s')"
  shows "housed s'"
proof (cases "\<exists>cl. c = DestroyCollection cl")
  case True
  then obtain cl where c: "c = DestroyCollection cl" by blast
  with run obtain w x where w: "uq_get_destroy_witness E (ext s) cl = Some w" "witness_items w = 0"
    and s': "nfts s' = nfts s" "collections s' = (collections s)(cl := None)"
    by (auto simp: destroy_collection_def success)
  have "nfts s (cl, n) = None" for n
    using law w ok(1) unfolding witness_law_def itemised_def by blast
  with ok(2) s' show ?thesis unfolding housed_def by auto
next
  case False
  then show ?thesis using keepsD[OF keeps_housed_core run ok(2)] by blast
qed

lemma keeps_housed_equip: "keeps housed (equip_dispatch E org c)"
  by (rule keeps_equip_dispatch) (auto intro!: keeps_base_operations housed_written(3))

lemma keeps_housed_market: "keeps housed (market_dispatch E org c)"
  using keeps_housed_core[of "Send k (AccountId b)" E for k b]
  by (intro keeps_market_dispatch) simp_all

definition record_laws :: "('a, 'l, 'x) env \<Rightarrow> ('x \<Rightarrow> 'x \<Rightarrow> bool) \<Rightarrow> bool" where
  "record_laws E F \<longleftrightarrow> uniques_laws E \<and> currency_laws E \<and> items_kept E F \<and> witness_law E"

interpretation houses: step_invariant "runtime_step E F"
  "\<lambda>s. record_laws E F \<longrightarrow> itemised E s \<and> housed s" for E F
proof unfold_locales
  fix s s' :: "('a, 'c, 'd) runtime_state_scheme"
  assume ok: "record_laws E F \<longrightarrow> itemised E s \<and> housed s" and step: "runtime_step E F s s'"
  show "record_laws E F \<longrightarrow> itemised E s' \<and> housed s'"
  proof
    assume laws: "record_laws E F"
    then have s: "itemised E s" "housed s" using ok by blast+
    have "itemised E s'"
      using items.step_keeps[of E F s s'] laws s(1) step by (simp add: record_laws_def)
    moreover have "housed s'"
      using step
    proof (cases rule: runtime_step.cases)
      case (call c org m r)
      show ?thesis
      proof (cases r)
        case (Inl e)
        then have "s' = s" using dispatch_error_unchanged call by blast
        then show ?thesis using s by simp
      next
        case (Inr u)
        have "housed s'" if "c = RmrkCore cc" for cc
          using that call Inr s laws by (auto simp: record_laws_def intro: housed_core)
        moreover have "keeps housed m" if "\<And>cc. c \<noteq> RmrkCore cc"
          using that call(2) keeps_housed_equip keeps_housed_market
            keeps_template_dispatch[of housed] by (cases c) auto
        ultimately show ?thesis using call(3) Inr s(2) by (auto dest: keepsD)
      qed
    qed (use s in simp)
    ultimately show "itemised E s' \<and> housed s'" by blast
  qed
qed

end
