(* ===== verification/Sale_Lock.thy ===== *)
theory Sale_Lock
  imports Genesis Market_Effects
begin

text \<open>
  The lock of rmrk-core and the listings of rmrk-market: an NFT is only ever locked while it is
  listed by its owner, so the lock is never left behind. The lock is set and cleared by the
  market only; what has to be seen is that a locked NFT keeps its owner and its listing.
\<close>

section \<open>The lock and the listings under the calls\<close>

lemma keeps_lock_core: "keeps (\<lambda>s. lock s = l \<and> listed_nfts s = m) (core_dispatch E org c)"
proof (rule keeps_core_outside)
qed simp_all

text \<open>A call of the market only locks an NFT that has a record.\<close>

lemma market_locks_a_record:
  assumes "market_dispatch E org c s = Some (Inr u, s')" "lock s' k"
  shows "lock s k \<or> nfts s k \<noteq> None"
proof (cases c)
  case (Buy j am)
  with assms(1) obtain a where "do_buy E a j am False s = Some (Inr (), s')"
    by (auto simp: success_buy)
  then have "lock s' = (lock s)(j := False)"
    by (rule do_buy_effect) (auto simp: success_listing_price)
  with assms(2) show ?thesis by (simp split: if_splits)
next
  case (AcceptOffer j b)
  with assms(1) have "accept_offer E org j b s = Some (Inr u, s')" by simp
  then have "lock s' = (lock s)(j := False)"
    by (rule accept_offer_effect) (auto simp: success_offer_price elim!: do_buy_effect)
  with assms(2) show ?thesis by (simp split: if_splits)
qed (use assms in \<open>auto simp: success_list_nft success_unlist success_make_offer
    success_withdraw_offer split: if_splits\<close>)

section \<open>A locked NFT is listed by its owner\<close>

definition listed_by_owner :: "('a, 'l, 'x) env \<Rightarrow> ('a, 'x, 'z) market_state_scheme \<Rightarrow> bool" where
  "listed_by_owner E s \<longleftrightarrow> (\<forall>k. lock s k \<longrightarrow> handed_out (fst k) (snd k) s \<and>
     (\<exists>li. listed_nfts s k = Some li \<and>
       (\<forall>a. uq_owner E (ext s) k = Some a \<longrightarrow> listed_by li = a)))"

lemma listed_by_ownerD:
  assumes "listed_by_owner E s" "lock s k"
  obtains li where "handed_out (fst k) (snd k) s" "listed_nfts s k = Some li"
    "\<And>a. uq_owner E (ext s) k = Some a \<Longrightarrow> listed_by li = a"
  using assms unfolding listed_by_owner_def by blast

text \<open>
  A change of the storage that locks nothing new, keeps the listings of locked NFTs and gives a
  locked NFT no new owner keeps the invariant.
\<close>

lemma listed_by_ownerI:
  assumes "listed_by_owner E s" "\<And>c i. handed_out c i s \<Longrightarrow> handed_out c i s'"
    and "\<And>k. lock s' k \<Longrightarrow> lock s k"
    and "\<And>k. lock s' k \<Longrightarrow> listed_nfts s' k = listed_nfts s k"
    and "\<And>k a. lock s k \<Longrightarrow> lock s' k \<Longrightarrow> handed_out (fst k) (snd k) s \<Longrightarrow>
      uq_owner E (ext s') k = Some a \<Longrightarrow> uq_owner E (ext s) k = Some a"
  shows "listed_by_owner E s'"
  unfolding listed_by_owner_def
proof (intro allI impI)
  fix k assume k: "lock s' k"
  then have "lock s k" by (rule assms(3))
  with assms(1) obtain li where "handed_out (fst k) (snd k) s" "listed_nfts s k = Some li"
    "\<And>a. uq_owner E (ext s) k = Some a \<Longrightarrow> listed_by li = a"
    by (rule listed_by_ownerD) blast
  then show "handed_out (fst k) (snd k) s' \<and> (\<exists>li. listed_nfts s' k = Some li \<and>
       (\<forall>a. uq_owner E (ext s') k = Some a \<longrightarrow> listed_by li = a))"
    using assms(2) assms(4)[OF k] assms(5)[OF \<open>lock s k\<close> k] by simp
qed

lemma listed_by_owner_core:
  fixes s s' :: "('a, 'x, 'z) market_state_scheme"
  assumes laws: "uniques_laws E" and ok: "listed_by_owner E s"
    and run: "core_dispatch E org c s = Some (Inr u, s')"
  shows "listed_by_owner E s'"
proof (rule listed_by_ownerI[OF ok])
  have frame: "lock s' = lock s \<and> listed_nfts s' = listed_nfts s"
    by (rule keepsD[OF keeps_lock_core run]) simp
  show "lock s' k \<Longrightarrow> lock s k" "listed_nfts s' k = listed_nfts s k" for k
    using frame by simp_all
  show "handed_out cl i s \<Longrightarrow> handed_out cl i s'" for cl i
    by (rule keepsD[OF keeps_handed_out_core run])
  fix k a assume locked: "lock s k" and out: "handed_out (fst k) (snd k) s"
    and owner: "uq_owner E (ext s') k = Some a"
  from core_call_owners[OF laws run] show "uq_owner E (ext s) k = Some a"
  proof (cases rule: owner_change.cases)
    case (minted j b)
    with out have "j \<noteq> k" by (auto simp: handed_out_def)
    with minted owner show ?thesis by simp
  qed (use locked owner in \<open>auto split: if_splits\<close>)
qed

lemma handed_out_market: "keeps (handed_out c i) (market_dispatch E org call)"
  using keeps_handed_out_core[of c i E _ "Send k (AccountId b)" for k b]
  by (intro keeps_market_dispatch) simp_all

lemma listed_by_owner_market:
  assumes laws: "uniques_laws E" "currency_laws E" and ok: "listed_by_owner E s"
    and records: "\<And>k. nfts s k \<noteq> None \<Longrightarrow> handed_out (fst k) (snd k) s"
    and run: "market_dispatch E org c s = Some (Inr u, s')"
  shows "listed_by_owner E s'"
  using market_call_changes[OF laws run]
proof (cases rule: market_change.cases)
  case (listed a k li)
  show ?thesis
    unfolding listed_by_owner_def
  proof (intro allI impI)
    fix j assume j: "lock s' j"
    have "handed_out (fst j) (snd j) s"
      using market_locks_a_record[OF run j] records ok by (auto elim: listed_by_ownerD)
    then have "handed_out (fst j) (snd j) s'" by (rule keepsD[OF handed_out_market run])
    moreover have "\<exists>li. listed_nfts s' j = Some li \<and>
      (\<forall>a. uq_owner E (ext s') j = Some a \<longrightarrow> listed_by li = a)"
    proof (cases "j = k")
      case False
      with j listed(7) have "lock s j" by simp
      with ok False listed(5,6) show ?thesis by (auto elim!: listed_by_ownerD)
    qed (use listed in simp)
    ultimately show "handed_out (fst j) (snd j) s' \<and> (\<exists>li. listed_nfts s' j = Some li \<and>
      (\<forall>a. uq_owner E (ext s') j = Some a \<longrightarrow> listed_by li = a))" by blast
  qed
qed (rule listed_by_ownerI[OF ok keepsD[OF handed_out_market run]];
    simp add: currency_reserve(4)[OF laws(2)] currency_unreserve(3)[OF laws(2)] split: if_splits)+

section \<open>The invariant\<close>

text \<open>
  What the rest of the chain must not do: hand an item to somebody, behind the back of the pallets.
  (It may burn items.)
\<close>

definition no_foreign_owners :: "('a, 'l, 'x) env \<Rightarrow> ('x \<Rightarrow> 'x \<Rightarrow> bool) \<Rightarrow> bool" where
  "no_foreign_owners E F \<longleftrightarrow> (\<forall>x x' k a. F x x' \<longrightarrow> uq_owner E x' k = Some a \<longrightarrow> uq_owner E x k = Some a)"

lemma listed_by_owner_cong:
  "lock s' = lock s \<Longrightarrow> listed_nfts s' = listed_nfts s \<Longrightarrow> next_nft_id s' = next_nft_id s \<Longrightarrow>
    ext s' = ext s \<Longrightarrow> listed_by_owner E s' = listed_by_owner E s"
  by (simp add: listed_by_owner_def handed_out_def)

lemma listed_by_owner_outside [simp]:
  "listed_by_owner E (s\<lparr>events := ev\<rparr>) = listed_by_owner E s"
  "listed_by_owner E (s\<lparr>nfts := ns\<rparr>) = listed_by_owner E s"
  "listed_by_owner E (s\<lparr>equippings := eqs\<rparr>) = listed_by_owner E s"
  "listed_by_owner E (s\<lparr>themes := ts\<rparr>) = listed_by_owner E s"
  "listed_by_owner E (s\<lparr>bases := bs\<rparr>) = listed_by_owner E s"
  "listed_by_owner E (s\<lparr>parts := pts\<rparr>) = listed_by_owner E s"
  "listed_by_owner E (s\<lparr>next_base_id := j\<rparr>) = listed_by_owner E s"
  "listed_by_owner E (r\<lparr>something := st\<rparr>) = listed_by_owner E r"
  by (rule listed_by_owner_cong; simp)+

lemma listed_by_owner_foreign:
  assumes "no_foreign_owners E F" "F (ext s) x" "listed_by_owner E s"
  shows "listed_by_owner E (s\<lparr>ext := x\<rparr>)"
  by (rule listed_by_ownerI[OF assms(3)]) (use assms(1,2) in \<open>auto simp: no_foreign_owners_def\<close>)

lemma listed_by_owner_step:
  fixes s s' :: "('a, 'x, 'z) runtime_state_scheme"
  assumes laws: "uniques_laws E" "currency_laws E" "no_foreign_owners E F"
    and ok: "supply_ok s \<and> listed_by_owner E s" and step: "runtime_step E F s s'"
  shows "supply_ok s' \<and> listed_by_owner E s'"
proof (rule step_keepsI[where I = "\<lambda>s. supply_ok s \<and> listed_by_owner E s" and s = s and s' = s' and E = E
      and F = F])
  show "keeps (\<lambda>s. supply_ok s \<and> listed_by_owner E s)
      (core_dispatch E org c :: ('a, 'x, 'z, unit) runtime_action)" for org c
    by (rule keepsI) (use keepsD[OF keeps_supply_core] listed_by_owner_core[OF laws(1)] in blast)
  show "keeps (\<lambda>s. supply_ok s \<and> listed_by_owner E s)
      (equip_dispatch E org c :: ('a, 'x, 'z, unit) runtime_action)" for org c
  proof -
    have "keeps (listed_by_owner E) (equip_dispatch E org c :: ('a, 'x, 'z, unit) runtime_action)"
      by (rule keeps_equip_dispatch) (auto intro!: keeps_base_operations)
    then show ?thesis
      by (intro keepsI) (use keepsD[OF keeps_supply_equip] in \<open>blast dest: keepsD\<close>)
  qed
  show "keeps (\<lambda>s. supply_ok s \<and> listed_by_owner E s)
      (market_dispatch E org c :: ('a, 'x, 'z, unit) runtime_action)" for org c
  proof (rule keepsI)
    fix t t' :: "('a, 'x, 'z) runtime_state_scheme" and u
    assume run: "market_dispatch E org c t = Some (Inr u, t')" and t: "supply_ok t \<and> listed_by_owner E t"
    have "handed_out (fst k) (snd k) t" if "nfts t k \<noteq> None" for k
      using that supply_okD(1)[of t "fst k" "snd k"] t by (auto simp: handed_out_def)
    then show "supply_ok t' \<and> listed_by_owner E t'"
      using keepsD[OF keeps_supply_market run] listed_by_owner_market[OF laws(1,2) _ _ run] t by blast
  qed
  show "keeps (\<lambda>s. supply_ok s \<and> listed_by_owner E s)
      (template_dispatch org c :: ('a, 'x, 'z, unit) runtime_action)" for org c
    by (rule keeps_template_dispatch) simp_all
qed (use ok step in \<open>auto intro: listed_by_owner_foreign[OF laws(3)]\<close>)

interpretation sale_lock: step_invariant "runtime_step E F"
  "\<lambda>s. supply_ok s \<and> (uniques_laws E \<and> currency_laws E \<and> no_foreign_owners E F \<longrightarrow> listed_by_owner E s)"
  for E F
  by unfold_locales (use listed_by_owner_step supplies.step_keeps in blast)

end
