(* ===== verification/Limits.thy ===== *)
theory Limits
  imports Genesis
begin

text \<open>
  The bounds of the \<^verbatim>\<open>BoundedVec\<close>s: what a call may carry, what the storage may hold, and that calls
  within the bounds keep the storage within them. The types of the source enforce this when a call
  is decoded; the lists of the model are unbounded, so it is an invariant here.
\<close>

section \<open>The limits\<close>

record limits =
  string_bytes :: nat
  symbol_bytes :: nat
  max_parts :: nat
  max_priorities :: nat
  max_minted_resources :: nat
  key_bytes :: nat
  value_bytes :: nat
  max_theme_properties :: nat
  max_equippable_collections :: nat

definition runtime_limits :: limits where
  "runtime_limits = \<lparr>string_bytes = unat UniquesStringLimit, symbol_bytes = unat CollectionSymbolLimit,
     max_parts = unat PartsLimit, max_priorities = unat MaxPriorities,
     max_minted_resources = unat MaxResourcesOnMint, key_bytes = unat KeyLimit,
     value_bytes = unat ValueLimit, max_theme_properties = unat MaxPropertiesPerTheme,
     max_equippable_collections = unat MaxCollectionsEquippablePerPart\<rparr>"

definition text_fits :: "limits \<Rightarrow> bytes \<Rightarrow> bool" where
  "text_fits L b \<longleftrightarrow> length b \<le> string_bytes L"

definition opt_text_fits :: "limits \<Rightarrow> bytes option \<Rightarrow> bool" where
  "opt_text_fits L b = (case b of None \<Rightarrow> True | Some t \<Rightarrow> text_fits L t)"

fun resource_fits :: "limits \<Rightarrow> resource_types \<Rightarrow> bool" where
  "resource_fits L (Basic r) = (opt_text_fits L (basic_src r) \<and> opt_text_fits L (basic_metadata r) \<and>
     opt_text_fits L (basic_license r) \<and> opt_text_fits L (basic_thumb r))"
| "resource_fits L (Composable r) = (length (composable_parts r) \<le> max_parts L \<and>
     opt_text_fits L (composable_src r) \<and> opt_text_fits L (composable_metadata r) \<and>
     opt_text_fits L (composable_license r) \<and> opt_text_fits L (composable_thumb r))"
| "resource_fits L (Slot r) = (opt_text_fits L (slot_src r) \<and> opt_text_fits L (slot_metadata r) \<and>
     opt_text_fits L (slot_license r) \<and> opt_text_fits L (slot_thumb r))"

fun equippables_fit :: "limits \<Rightarrow> equippable_list \<Rightarrow> bool" where
  "equippables_fit L (Custom cs) = (length cs \<le> max_equippable_collections L)"
| "equippables_fit L eqs = True"

fun part_fits :: "limits \<Rightarrow> part_type \<Rightarrow> bool" where
  "part_fits L (FixedPart p) = text_fits L (fixed_src p)"
| "part_fits L (SlotPart p) = (equippables_fit L (slot_equippable p) \<and> opt_text_fits L (slot_part_src p))"

definition parts_fit :: "limits \<Rightarrow> part_type list \<Rightarrow> bool" where
  "parts_fit L ps \<longleftrightarrow> length ps \<le> max_parts L \<and> list_all (part_fits L) ps"

definition theme_fits :: "limits \<Rightarrow> theme \<Rightarrow> bool" where
  "theme_fits L th \<longleftrightarrow> text_fits L (theme_name th) \<and>
     length (theme_properties th) \<le> max_theme_properties L \<and>
     list_all (\<lambda>p. text_fits L (prop_key p) \<and> text_fits L (prop_value p)) (theme_properties th)"

section \<open>Calls within the limits\<close>

definition mint_fits :: "limits \<Rightarrow> bytes \<Rightarrow> resource_types list option \<Rightarrow> bool" where
  "mint_fits L md ress \<longleftrightarrow> text_fits L md \<and> (case ress of None \<Rightarrow> True
     | Some rs \<Rightarrow> length rs \<le> max_minted_resources L \<and> list_all (resource_fits L) rs)"

fun core_call_fits :: "limits \<Rightarrow> ('a, 'l) core_call \<Rightarrow> bool" where
  "core_call_fits L (MintNft ow c rcp am md tr rs) = mint_fits L md rs"
| "core_call_fits L (MintNftDirectlyToNft p c rcp am md tr rs) = mint_fits L md rs"
| "core_call_fits L (CreateCollection md mx sy) =
     (text_fits L md \<and> length sy \<le> symbol_bytes L)"
| "core_call_fits L (SetProperty c n key val) =
     (length key \<le> key_bytes L \<and> length val \<le> value_bytes L)"
| "core_call_fits L (AddBasicResource k r) = resource_fits L (Basic r)"
| "core_call_fits L (AddComposableResource k r) = resource_fits L (Composable r)"
| "core_call_fits L (AddSlotResource k r) = resource_fits L (Slot r)"
| "core_call_fits L (SetPriority k rs) = (length rs \<le> max_priorities L)"
| "core_call_fits L call = True"

fun equip_call_fits :: "limits \<Rightarrow> 'l equip_call \<Rightarrow> bool" where
  "equip_call_fits L (CreateBase ty sy ps) = (text_fits L ty \<and> text_fits L sy \<and> parts_fit L ps)"
| "equip_call_fits L (EquippableCall b slot eqs) = equippables_fit L eqs"
| "equip_call_fits L (ThemeAdd b th) = theme_fits L th"
| "equip_call_fits L call = True"

fun call_fits :: "limits \<Rightarrow> ('a, 'l) runtime_call \<Rightarrow> bool" where
  "call_fits L (RmrkCore c) = core_call_fits L c"
| "call_fits L (RmrkEquip c) = equip_call_fits L c"
| "call_fits L call = True"

section \<open>Storage within the limits\<close>

text \<open>One predicate per storage item, with the writes the calls make to it.\<close>

definition collections_fit :: "limits \<Rightarrow> (collection_id \<rightharpoonup> 'a collection_info) \<Rightarrow> bool" where
  "collections_fit L m \<longleftrightarrow> (\<forall>c col. m c = Some col \<longrightarrow>
     text_fits L (col_metadata col) \<and> length (col_symbol col) \<le> symbol_bytes L)"

definition nfts_fit :: "limits \<Rightarrow> (nft \<rightharpoonup> 'a nft_info) \<Rightarrow> bool" where
  "nfts_fit L m \<longleftrightarrow> (\<forall>k nft. m k = Some nft \<longrightarrow> text_fits L (nft_metadata nft))"

definition resources_fit :: "limits \<Rightarrow> (nft \<times> resource_id \<rightharpoonup> resource_info) \<Rightarrow> bool" where
  "resources_fit L m \<longleftrightarrow> (\<forall>k res. m k = Some res \<longrightarrow> resource_fits L (resource res))"

definition properties_fit ::
  "limits \<Rightarrow> (collection_id \<times> nft_id option \<times> bytes \<rightharpoonup> bytes) \<Rightarrow> bool" where
  "properties_fit L m \<longleftrightarrow> (\<forall>c n key val. m (c, n, key) = Some val \<longrightarrow>
     length key \<le> key_bytes L \<and> length val \<le> value_bytes L)"

definition core_fits :: "limits \<Rightarrow> ('a, 'x, 'z) core_state_scheme \<Rightarrow> bool" where
  "core_fits L s \<longleftrightarrow> collections_fit L (collections s) \<and> nfts_fit L (nfts s) \<and>
     resources_fit L (resources s) \<and> properties_fit L (properties s)"

definition equip_fits :: "limits \<Rightarrow> ('a, 'x, 'z) equip_state_scheme \<Rightarrow> bool" where
  "equip_fits L s \<longleftrightarrow>
     (\<forall>b base. bases s b = Some base \<longrightarrow> text_fits L (base_type base) \<and>
        text_fits L (base_symbol base) \<and> parts_fit L (base_parts base)) \<and>
     (\<forall>k p. parts s k = Some p \<longrightarrow> part_fits L p) \<and>
     (\<forall>b name key val. (key, val) \<in> set (themes s (b, name)) \<longrightarrow>
        text_fits L name \<and> text_fits L key \<and> text_fits L val)"

lemma fitD:
  "collections_fit L m \<Longrightarrow> m c = Some col \<Longrightarrow> text_fits L (col_metadata col)"
  "collections_fit L m \<Longrightarrow> m c = Some col \<Longrightarrow> length (col_symbol col) \<le> symbol_bytes L"
  "nfts_fit L n \<Longrightarrow> n k = Some nft \<Longrightarrow> text_fits L (nft_metadata nft)"
  "resources_fit L r \<Longrightarrow> r i = Some res \<Longrightarrow> resource_fits L (resource res)"
  unfolding collections_fit_def nfts_fit_def resources_fit_def by blast+

lemma fit_insert [intro!]:
  "collections_fit L m \<Longrightarrow> text_fits L (col_metadata col) \<Longrightarrow>
    length (col_symbol col) \<le> symbol_bytes L \<Longrightarrow> collections_fit L (m(c \<mapsto> col))"
  "nfts_fit L n \<Longrightarrow> text_fits L (nft_metadata nft) \<Longrightarrow> nfts_fit L (n(k \<mapsto> nft))"
  "resources_fit L r \<Longrightarrow> resource_fits L (resource res) \<Longrightarrow> resources_fit L (r(i \<mapsto> res))"
  "properties_fit L p \<Longrightarrow> length key \<le> key_bytes L \<Longrightarrow> length val \<le> value_bytes L \<Longrightarrow>
    properties_fit L (p((c, j, key) \<mapsto> val))"
  by (simp_all add: collections_fit_def nfts_fit_def resources_fit_def properties_fit_def)

lemma fit_remove [intro!]:
  "collections_fit L m \<Longrightarrow> collections_fit L (m(c := None))"
  "nfts_fit L n \<Longrightarrow> nfts_fit L (n(k := None))"
  "nfts_fit L n \<Longrightarrow> nfts_fit L (mutate_exists k (\<lambda>nft. nft\<lparr>equipped := b\<rparr>) n)"
  "resources_fit L r \<Longrightarrow> resources_fit L (r(i := None))"
  "resources_fit L r \<Longrightarrow> resources_fit L (remove_prefix k r)"
  by (auto simp: collections_fit_def nfts_fit_def resources_fit_def split: if_splits)

section \<open>What the calls keep\<close>

lemma minted_fits: "core_call_fits L c \<Longrightarrow> minted_metadata c = Some md \<Longrightarrow> text_fits L md"
  by (cases c) (auto simp: mint_fits_def)

lemma added_fits: "core_call_fits L c \<Longrightarrow> res \<in> set (call_resources c) \<Longrightarrow> resource_fits L res"
  by (cases c) (auto simp: mint_fits_def list_all_iff split: option.splits)

lemma keeps_fits_core:
  assumes "core_call_fits L c"
  shows "keeps (core_fits L) (core_dispatch E org c)"
proof (rule keeps_core_dispatch)
  show "keeps (core_fits L) (nft_mint a ow cl rcp am md tr)"
    "keeps (core_fits L) (nft_mint_directly_to_nft E a p cl rcp am md tr)"
    if "minted_metadata c = Some md" for a ow p cl rcp am md tr
    using minted_fits[OF assms that]
    by (auto simp: core_fits_def success_nft_mint success_nft_mint_directly intro!: keepsI)
      (erule (1) fitD)+
  show "keeps (core_fits L) (collection_create a md mx sy)" if "c = CreateCollection md mx sy" for a md mx sy
    using assms that by (auto simp: core_fits_def success_collection_create intro!: keepsI)
  show "keeps (core_fits L) (collection_burn a cl)" "keeps (core_fits L) (collection_lock a cl)"
    "keeps (core_fits L) (collection_change_issuer cl a)" for a cl
    by (auto simp: core_fits_def success_collection_burn success_collection_lock
        success_collection_change_issuer mutate_exists_def intro!: keepsI)
      (erule (1) fitD)+
  show "keeps (core_fits L) (nft_burn_rec E d k)" for d k
    by (rule keeps_nft_burn_rec, auto simp: core_fits_def) (erule (1) fitD)+
  show "keeps (core_fits L) (nft_send E a k ow)" for a k ow
    by (rule keepsI, auto simp: core_fits_def sent_record_def elim!: nft_send_success) (erule (1) fitD)+
  show "keeps (core_fits L) (nft_accept E a k ow)" for a k ow
    by (auto simp: core_fits_def success_nft_accept intro!: keepsI)
      (erule (1) fitD)+
  show "keeps (core_fits L) (resource_add E a k res b)" if "res \<in> set (call_resources c)" for a k res b
    using added_fits[OF assms that]
    by (auto simp: core_fits_def success_resource_add success_register_equippable intro!: keepsI)
  show "core_fits L (s\<lparr>properties := (properties s)((cl, n, key) \<mapsto> val)\<rparr>)"
    if "c = SetProperty cl n key val" "core_fits L s" for s cl n key val
    using assms that by (auto simp: core_fits_def)
  show "core_fits L (s\<lparr>resources := (resources s)(k \<mapsto> res')\<rparr>)"
    if "core_fits L s" "resources s k = Some res" "resource res' = resource res" for s k res res'
    using that by (auto simp: core_fits_def) (erule (1) fitD)
qed (auto simp: core_fits_def)

text \<open>The two maps of rmrk-equip that hold data of the calls.\<close>

lemma equip_fitsD:
  "equip_fits L s \<Longrightarrow> bases s b = Some base \<Longrightarrow>
    text_fits L (base_type base) \<and> text_fits L (base_symbol base) \<and> parts_fit L (base_parts base)"
  "equip_fits L s \<Longrightarrow> parts s k = Some p \<Longrightarrow> part_fits L p"
  "equip_fits L s \<Longrightarrow> (key, val) \<in> set (themes s (b, name)) \<Longrightarrow>
    text_fits L name \<and> text_fits L key \<and> text_fits L val"
  unfolding equip_fits_def by blast+

lemma equip_fits_cong:
  "bases s' = bases s \<Longrightarrow> parts s' = parts s \<Longrightarrow> themes s' = themes s \<Longrightarrow>
    equip_fits L s' = equip_fits L s"
  by (simp add: equip_fits_def)

lemma equip_fits_inner [simp]:
  "equip_fits L (s\<lparr>children := ch\<rparr>) = equip_fits L s" "equip_fits L (s\<lparr>nfts := ns\<rparr>) = equip_fits L s"
  "equip_fits L (s\<lparr>priorities := ps\<rparr>) = equip_fits L s"
  "equip_fits L (s\<lparr>properties := prs\<rparr>) = equip_fits L s"
  "equip_fits L (s\<lparr>collections := cs\<rparr>) = equip_fits L s"
  "equip_fits L (s\<lparr>collection_index := i\<rparr>) = equip_fits L s"
  "equip_fits L (s\<lparr>next_nft_id := nn\<rparr>) = equip_fits L s" "equip_fits L (s\<lparr>lock := l\<rparr>) = equip_fits L s"
  "equip_fits L (s\<lparr>equippable_bases := eb\<rparr>) = equip_fits L s"
  "equip_fits L (s\<lparr>equippable_slots := es\<rparr>) = equip_fits L s"
  "equip_fits L (s\<lparr>resources := rs\<rparr>) = equip_fits L s"
  "equip_fits L (s\<lparr>next_resource_id := nr\<rparr>) = equip_fits L s"
  "equip_fits L (s\<lparr>ext := x\<rparr>) = equip_fits L s" "equip_fits L (s\<lparr>events := ev\<rparr>) = equip_fits L s"
  "equip_fits L (s\<lparr>next_base_id := j\<rparr>) = equip_fits L s"
  "equip_fits L (s\<lparr>equippings := eqs\<rparr>) = equip_fits L s"
  "equip_fits L (m\<lparr>listed_nfts := ls\<rparr>) = equip_fits L m" "equip_fits L (m\<lparr>offers := ofs\<rparr>) = equip_fits L m"
  "equip_fits L (r\<lparr>something := st\<rparr>) = equip_fits L r"
  by (rule equip_fits_cong; simp)+

lemma keeps_equip_fits_core: "keeps (equip_fits L) (core_dispatch E org c)"
  by (rule keeps_core_outside) simp_all

lemma stored_parts_fit:
  assumes "store_parts b ps m k = Some p" "parts_fit L ps" "\<And>k p. m k = Some p \<Longrightarrow> part_fits L p"
  shows "part_fits L p"
proof -
  obtain b' i where k: "k = (b', i)" by (cases k)
  show ?thesis
  proof (cases "b' = b")
    case True
    with assms(1) k have "m (b, i) = Some p \<or> p \<in> set ps" by (auto dest: store_parts_id)
    then show ?thesis using assms(2,3) by (auto simp: parts_fit_def list_all_iff)
  next
    case False
    then show ?thesis using assms(1,3) by (auto simp: k store_parts_other)
  qed
qed

lemma keeps_fits_base_create:
  assumes "text_fits L ty" "text_fits L sy" "parts_fit L ps"
  shows "keeps (equip_fits L) (base_create a ty sy ps)"
proof (rule keepsI)
  fix s r s' assume "base_create a ty sy ps s = Some (Inr r, s')" and ok: "equip_fits L s"
  then have s': "parts s' = store_parts r ps (parts s)" "themes s' = themes s"
    "bases s' = (bases s)(r \<mapsto> \<lparr>base_issuer = a, base_type = ty, base_symbol = sy, base_parts = ps\<rparr>)"
    by (auto simp: success_base_create)
  have "part_fits L p" if "parts s' k = Some p" for k p
    by (rule stored_parts_fit[OF that[unfolded s'] assms(3)]) (rule equip_fitsD(2)[OF ok])
  then show "equip_fits L s'"
    using ok assms unfolding equip_fits_def s'(2,3) by (auto split: if_splits)
qed

lemma set_update:
  "x \<in> set (AList.update k v al) \<Longrightarrow> x \<in> set al \<or> x = (k, v)"
  by (induction al) (auto split: if_splits)

lemma stored_theme:
  "(key, val) \<in> set (store_theme props al) \<Longrightarrow>
    (key, val) \<in> set al \<or> (\<exists>p \<in> set props. key = prop_key p \<and> val = prop_value p)"
proof (induction props arbitrary: al)
  case (Cons p props)
  have "(key, val) \<in> set (store_theme props (AList.update (prop_key p) (prop_value p) al))"
    using Cons.prems by (simp add: store_theme_def)
  from Cons.IH[OF this] show ?case
    by (auto dest: set_update)
qed (simp add: store_theme_def)

lemma keeps_fits_equip:
  assumes "equip_call_fits L c"
  shows "keeps (equip_fits L) (equip_dispatch E org c)"
proof (rule keeps_equip_dispatch)
  show "equip_fits L (s\<lparr>themes := (themes s)((b, theme_name th) :=
      store_theme (theme_properties th) (themes s (b, theme_name th)))\<rparr>)" (is "equip_fits L ?s'")
    if th: "c = ThemeAdd b th" and ok: "equip_fits L s" for s b th
  proof -
    have "theme_fits L th" using assms th by simp
    then have "text_fits L name \<and> text_fits L key \<and> text_fits L val"
      if "(key, val) \<in> set (themes ?s' (b', name))" for b' name key val
      using that equip_fitsD(3)[OF ok, of key val b' name] stored_theme[of key val]
      by (fastforce simp: theme_fits_def list_all_iff split: if_splits)
    then show ?thesis
      using ok unfolding equip_fits_def by simp
  qed
  show "keeps (equip_fits L) (base_create a ty sy ps)" if "c = CreateBase ty sy ps" for a ty sy ps
    using assms that by (intro keeps_fits_base_create) simp_all
  show "keeps (equip_fits L) (base_change_issuer b a)" for b a
    by (rule keepsI)
      (auto simp: success_base_change_issuer equip_fits_def mutate_exists_def split: if_splits)
  show "keeps (equip_fits L) (do_equippable a b p eqs)" if "c = EquippableCall b p eqs" for a b p eqs
  proof (rule keepsI)
    fix s r s' assume run: "do_equippable a b p eqs s = Some (Inr r, s')" and ok: "equip_fits L s"
    then obtain sp where sp: "parts s (b, p) = Some (SlotPart sp)" and
      s': "s' = s\<lparr>parts := (parts s)((b, p) \<mapsto> SlotPart (sp\<lparr>slot_equippable := eqs\<rparr>))\<rparr>"
      by (auto simp: success_do_equippable)
    have "part_fits L (SlotPart (sp\<lparr>slot_equippable := eqs\<rparr>))"
      using assms that equip_fitsD(2)[OF ok sp] by simp
    then show "equip_fits L s'" using ok unfolding s' equip_fits_def by simp
  qed
qed simp_all

lemma keeps_core_fits_equip: "keeps (core_fits L) (equip_dispatch E org c)"
  by (rule keeps_equip_dispatch) (auto simp: core_fits_def intro!: keeps_base_operations)

lemma keeps_fits_market:
  "keeps (core_fits L) (market_dispatch E org c)" "keeps (equip_fits L) (market_dispatch E org c)"
proof -
  show "keeps (core_fits L) (market_dispatch E org c)"
    using keeps_fits_core[of L "Send k (AccountId b)" E for k b]
    by (intro keeps_market_dispatch) (simp_all add: core_fits_def)
  show "keeps (equip_fits L) (market_dispatch E org c)"
    using keeps_equip_fits_core[of L E _ "Send k (AccountId b)" for k b]
    by (intro keeps_market_dispatch) simp_all
qed

lemma keeps_fits_template:
  "keeps (core_fits L) (template_dispatch org c)" "keeps (equip_fits L) (template_dispatch org c)"
  by (intro keeps_template_dispatch; simp add: core_fits_def)+

section \<open>Storage within the limits, along every run\<close>

text \<open>The steps of the chain whose calls were decoded within the limits.\<close>

inductive bounded_step ::
  "limits \<Rightarrow> ('a, 'l, 'x) env \<Rightarrow> ('x \<Rightarrow> 'x \<Rightarrow> bool) \<Rightarrow>
    ('a, 'x, 'z) runtime_state_scheme \<Rightarrow> ('a, 'x, 'z) runtime_state_scheme \<Rightarrow> bool"
  for L E F where
  call: "call_fits L c \<Longrightarrow> base_filter c \<Longrightarrow> runtime_dispatch E org c = Some m \<Longrightarrow>
    m s = Some (r, s') \<Longrightarrow> bounded_step L E F s s'"
| foreign: "F (ext s) x \<Longrightarrow> bounded_step L E F s (s\<lparr>ext := x\<rparr>)"

inductive_cases bounded_stepE: "bounded_step L E F s s'"

lemma bounded_runtime_step: "bounded_step L E F s s' \<Longrightarrow> runtime_step E F s s'"
  by (erule bounded_step.cases) (auto intro: runtime_step.intros)

definition storage_fits :: "limits \<Rightarrow> ('a, 'x, 'z) equip_state_scheme \<Rightarrow> bool" where
  "storage_fits L s \<longleftrightarrow> core_fits L s \<and> equip_fits L s"

lemma keeps_storage_fits:
  assumes "call_fits L c" "runtime_dispatch E org c = Some m"
  shows "keeps (storage_fits L) m"
proof -
  have "keeps (core_fits L) m \<and> keeps (equip_fits L) m"
    using assms keeps_fits_core keeps_equip_fits_core keeps_core_fits_equip keeps_fits_equip
      keeps_fits_market keeps_fits_template
    by (cases c) auto
  then show ?thesis unfolding keeps_def storage_fits_def by blast
qed

interpretation bounded: step_invariant "bounded_step L E F" "storage_fits L" for L E F
proof unfold_locales
  fix s s' :: "('a, 'c, 'd) runtime_state_scheme"
  assume ok: "storage_fits L s" and "bounded_step L E F s s'"
  from this(2) show "storage_fits L s'"
  proof (cases rule: bounded_step.cases)
    case (call c org m r)
    show ?thesis
    proof (cases r)
      case (Inl e)
      with call have "s' = s" using dispatch_error_unchanged by blast
      with ok show ?thesis by simp
    next
      case (Inr u)
      with call show ?thesis using keepsD[OF keeps_storage_fits[OF call(1,3)]] ok by blast
    qed
  next
    case (foreign x)
    with ok show ?thesis by (simp add: storage_fits_def core_fits_def)
  qed
qed

end
