(* ===== verification/Panics.thy ===== *)
theory Panics
  imports Limits
begin

text \<open>
  Panics. A panic in a dispatchable function stops the block, so the source must never reach one:
  the \<^verbatim>\<open>unwrap\<close>s and \<^verbatim>\<open>expect\<close>s it writes are branches of the model, and the rules here follow the
  structure of an action, as those of \<open>keeps\<close> do.
\<close>

section \<open>Actions that do not panic\<close>

definition calm :: "('s, dispatch_error, 'r) action \<Rightarrow> bool" where
  "calm m \<longleftrightarrow> (\<forall>s s'. m s \<noteq> Some (Inl Panic, s'))"

named_theorems calm_intros \<open>structural rules for calm\<close>

lemma calmD: "calm m \<Longrightarrow> m s \<noteq> Some (Inl Panic, s')"
  unfolding calm_def by blast

lemma calm_basic [calm_intros]:
  "calm (returnM r)" "calm (getsM f)" "calm (modifyM g)"
  "e \<noteq> Panic \<Longrightarrow> calm (failM e)" "e \<noteq> Panic \<Longrightarrow> calm (ensureM b e)" "e \<noteq> Panic \<Longrightarrow> calm (ok_orM x e)"
  "e \<noteq> Panic \<Longrightarrow> calm (get_okM h e)"
  by (auto simp: calm_def run_simps split: option.splits)

lemma calm_bind [calm_intros]: "calm m \<Longrightarrow> (\<And>q. calm (f q)) \<Longrightarrow> calm (bindM m f)"
  unfolding calm_def run_simps by (auto split: option.splits sum.splits)

lemma calm_seq [calm_intros]: "calm m \<Longrightarrow> calm n \<Longrightarrow> calm (seqM m n)"
  unfolding calm_def run_simps by (auto split: option.splits sum.splits)

lemma calm_transactional [calm_intros]: "calm m \<Longrightarrow> calm (transactionalM m)"
  unfolding calm_def run_simps by (auto split: option.splits sum.splits)

lemma calm_for [calm_intros]: "(\<And>x. calm (f x)) \<Longrightarrow> calm (forM xs f)"
  by (induction xs) (auto intro: calm_intros)

lemma calm_cases [calm_intros]:
  "calm m \<Longrightarrow> calm n \<Longrightarrow> calm (if b then m else n)"
  "calm m \<Longrightarrow> (\<And>y. calm (f y)) \<Longrightarrow> calm (case x of None \<Rightarrow> m | Some y \<Rightarrow> f y)"
  "(\<And>y z. calm (h y z)) \<Longrightarrow> calm (case p of (y, z) \<Rightarrow> h y z)"
  "(\<And>y. calm (f y)) \<Longrightarrow> (\<And>k l. calm (h k l)) \<Longrightarrow>
    calm (case ow of AccountId y \<Rightarrow> f y | CollectionAndNftTuple k l \<Rightarrow> h k l)"
  "(\<And>y. calm (f y)) \<Longrightarrow> calm (Let a f)"
  by (simp_all split: option.split prod.split account_id_or_nft.split)

text \<open>
  What the calls of the external pallets answer: a \<^verbatim>\<open>DispatchResult\<close>, not a panic. And an account
  identifier can be made from any NFT when it is wide enough.
\<close>

definition external_calm :: "('a, 'l, 'x) env \<Rightarrow> bool" where
  "external_calm E \<longleftrightarrow>
     (\<forall>k a x. fst (uq_do_mint E k a x) \<noteq> Inl Panic) \<and> (\<forall>k x. fst (uq_do_burn E k x) \<noteq> Inl Panic) \<and>
     (\<forall>lk k a x. fst (uq_do_transfer E lk k a x) \<noteq> Inl Panic) \<and>
     (\<forall>c a b v f x. fst (uq_do_create_collection E c a b v f x) \<noteq> Inl Panic) \<and>
     (\<forall>c w a x. fst (uq_do_destroy_collection E c w a x) \<noteq> Inl Panic) \<and>
     (\<forall>org c l x. fst (uq_transfer_ownership E org c l x) \<noteq> Inl Panic) \<and>
     (\<forall>a v x. fst (cur_reserve E a v x) \<noteq> Inl Panic) \<and>
     (\<forall>a b v k x. fst (cur_transfer E a b v k x) \<noteq> Inl Panic) \<and>
     (\<forall>l. account_lookup E l \<noteq> Inl Panic)"

lemma calm_external: "(\<And>x. fst (f x) \<noteq> Inl Panic) \<Longrightarrow> calm (externalM f)"
  unfolding calm_def externalM_def by (metis (lifting) fst_conv option.inject prod.case_eq_if surjective_pairing)

text \<open>A read whose \<^verbatim>\<open>unwrap\<close> comes after its guard.\<close>

lemma calm_guarded:
  assumes "e \<noteq> Panic" "\<And>v. calm (f v)"
  shows "calm (bindM (getsM (\<lambda>s. h s \<noteq> None)) (\<lambda>known. seqM (ensureM known e)
    (bindM (get_okM h Panic) f)))"
  using assms by (auto simp: calm_def run_simps split: option.splits)

lemma calm_calls:
  assumes "external_calm E"
  shows "calm (externalM (uq_do_mint E k a))" "calm (externalM (uq_do_burn E k))"
    "calm (externalM (uq_do_transfer E lk k a))"
    "calm (externalM (uq_do_create_collection E c a b v f))"
    "calm (externalM (uq_do_destroy_collection E c w a'))"
    "calm (externalM (uq_transfer_ownership E org c l))"
    "calm (externalM (cur_reserve E a v))" "calm (externalM (cur_transfer E a b v ka))"
  using assms by (auto simp: external_calm_def simp del: split_paired_All intro!: calm_external)

lemma calm_lookup: "external_calm E \<Longrightarrow> calm (lookupM E l)"
  by (auto simp: external_calm_def lookupM_def calm_def run_simps split: sum.split)

lemma calm_virtual:
  assumes "codec_laws E" "wide_accounts E"
  shows "calm (to_virtual_account E k)"
proof -
  obtain a where "nft_to_account_id E k = Some a"
    using nft_to_account_id_total[OF assms] by blast
  then show ?thesis by (simp add: to_virtual_account_def calm_def run_simps)
qed

section \<open>rmrk-core\<close>

lemma calm_helpers [calm_intros]:
  "calm (ensure_signed org)" "calm (ensure_unlocked k)" "calm (check_is_transferable nft)"
  "calm (check_is_not_equipped nft)"
  "calm (add_child p k)" "calm (remove_child p k)" "calm (set_lock k b)" "calm (deposit_event ev)"
  "calm (ensure_collection_owner E a c)" "calm (ensure_not_full col n)"
  "calm (get_next_nft_id c)" "calm (get_next_resource_id k)" "calm get_next_collection_id"
  by (auto simp: calm_def ensure_signed_def run_simps check_is_transferable_def
      check_is_not_equipped_def ensure_collection_owner_def
      ensure_not_full_def get_next_nft_id_def get_next_resource_id_def get_next_collection_id_def
      split: option.splits sum.splits raw_origin.splits if_splits)

text \<open>The walks: both are \<^verbatim>\<open>unwrap\<close>s behind a guard.\<close>

lemma lookup_never_panics: "lookup_root_owner E x k \<noteq> Some (Inl Panic)"
  using root.walk_missing[of E x k Panic] by auto

lemma calm_walks [calm_intros]: "calm (root_ownerM E k)" "calm (descendentM E j k)"
  using lookup_never_panics[of E _ k] descendent_never_panics[of E _ j k]
  by (auto simp: calm_def root_ownerM_def descendentM_def split: option.splits sum.splits)

lemma calm_drain: "(\<And>k. calm (body k)) \<Longrightarrow> calm (drain_children body p ks)"
  by (induction ks) (auto intro!: calm_intros)

lemma calm_burn_rec: "calm (nft_burn_rec E d k)"
proof (induction d arbitrary: k)
  case (Suc d)
  then show ?case
    by (auto simp: unlink_from_owner_def decrement_nfts_count_def intro!: calm_intros calm_drain)
qed (auto intro: calm_intros)

lemma calm_insert_priorities: "calm (insert_priorities k rs i)"
  by (induction rs arbitrary: i) (auto intro!: calm_intros)

lemma calm_resource_add [calm_intros]: "calm (resource_add E a k res b)"
proof -
  have "calm (register_equippable k r res)" for r
    by (auto simp: register_equippable_def intro!: calm_intros split: resource_types.split)
  then show ?thesis by (auto simp: resource_add_def intro!: calm_intros)
qed

lemma calm_nft_operations:
  assumes "codec_laws E" "wide_accounts E"
  shows "calm (nft_mint a ow c rcp am md tr)" "calm (nft_mint_directly_to_nft E a p c rcp am md tr)"
    "calm (nft_burn E k m)" "calm (nft_send E a k no)" "calm (nft_accept E a k no)"
    "calm (nft_reject E a k m)"
proof -
  have mint: "calm (increment_nfts_count col c)" for col
    by (auto simp: increment_nfts_count_def intro!: calm_intros)
  have target: "calm (check_nft_target E k t)" for k t
    by (auto simp: check_nft_target_def intro!: calm_intros)
  have move: "calm (move_child E k b b')" for b b'
    by (auto simp: calm_def run_simps)
  show "calm (nft_mint a ow c rcp am md tr)" "calm (nft_mint_directly_to_nft E a p c rcp am md tr)"
    by (auto simp: nft_mint_def nft_mint_directly_to_nft_def intro!: calm_intros mint)
  show burn: "calm (nft_burn E k m)"
    by (auto simp: nft_burn_def intro!: calm_intros calm_burn_rec)
  show "calm (nft_send E a k no)" "calm (nft_accept E a k no)"
    by (auto simp: nft_send_def nft_accept_def send_target_def store_sent_def
        intro!: calm_intros target move calm_virtual[OF assms])
  show "calm (nft_reject E a k m)"
    by (auto simp: nft_reject_def unlink_from_account_def intro!: calm_intros burn)
qed

lemma calm_collection_operations [calm_intros]:
  "calm (collection_create a md mx sy)" "calm (collection_burn a c)"
  "calm (collection_change_issuer c a)" "calm (collection_lock a c)"
  "calm (property_set E a c n key val)" "calm (priority_set E a k rs)"
  "calm (resource_remove E a k r)" "calm (accept_removal E a k r)" "calm (add_mint_resources E a k ress)"
  by (auto simp: collection_create_def collection_burn_def collection_change_issuer_def
      collection_lock_def property_set_def priority_set_def resource_remove_def accept_removal_def
      add_mint_resources_def intro!: calm_intros calm_insert_priorities)

lemma calm_core:
  assumes "external_calm E" "codec_laws E" "wide_accounts E"
  shows "calm (core_dispatch E org c)"
  by (cases c)
    (auto simp: core_call_defs add_resource_def uniques_transfer_def intro!: calm_intros
      calm_calls[OF assms(1)] calm_lookup[OF assms(1)] calm_virtual[OF assms(2,3)]
      calm_nft_operations[OF assms(2,3)])

section \<open>The other pallets\<close>

text \<open>The \<^verbatim>\<open>unwrap\<close>s of \<^verbatim>\<open>do_equippable\<close>, of \<^verbatim>\<open>add_theme\<close> and of \<^verbatim>\<open>do_equip\<close>.\<close>

lemma calm_base_issuer: "calm (ensure_base_issuer a b)"
  unfolding ensure_base_issuer_def by (intro calm_guarded calm_basic) simp_all

lemma calm_do_equippable: "calm (do_equippable a b p eqs)"
  unfolding do_equippable_def
  by (intro calm_seq[OF calm_base_issuer] calm_guarded)
    (auto intro!: calm_intros split: part_type.split)

lemma equip_never_panics:
  "equip E org item equipper rid b slot s \<noteq> Some (Inl Panic, s')"
  by (cases org)
    (auto simp: equip_def do_equip_def check_equip_def equip_into_part_def unequip_slot_def
      set_equipped_def root_ownerM_def run_simps lookup_never_panics
      split: option.splits sum.splits if_splits prod.splits part_type.splits equippable_list.splits)

lemma calm_equip:
  assumes "external_calm E" "length default_bytes \<le> string_limit E"
    and "equip_call_fits L c" "max_parts L < 2 ^ 32" "max_theme_properties L < 2 ^ 32"
  shows "calm (equip_dispatch E org c)"
proof (cases c)
  case (EquipCall item equipper r b slot)
  then show ?thesis by (simp add: calm_def equip_never_panics del: not_Some_eq)
next
  case (ThemeAdd b th)
  then have "length (theme_properties th) < 2 ^ 32"
    using assms(3,5) by (simp add: theme_fits_def)
  then have panics: "calm (length_u32M (theme_properties th))"
    "calm (ensureM (length default_bytes \<le> string_limit E) Panic)"
    using assms(2) by (simp_all add: length_u32M_def calm_def run_simps)
  show ?thesis
    unfolding ThemeAdd equip_dispatch.simps theme_add_def add_theme_def
    by (intro panics calm_base_issuer calm_intros) simp_all
next
  case (CreateBase ty sy ps)
  then have "length ps < 2 ^ 32"
    using assms(3,4) by (simp add: parts_fit_def)
  then have "calm (length_u32M ps)" by (simp add: length_u32M_def calm_def run_simps)
  then show ?thesis
    using CreateBase
    by (auto simp: create_base_def base_create_def get_next_base_id_def intro!: calm_intros
        split: part_type.split)
next
  case (ChangeBaseIssuer b l)
  then show ?thesis
    by (auto simp: change_base_issuer_def base_change_issuer_def
        intro!: calm_intros calm_lookup[OF assms(1)])
next
  case (EquippableCall b slot eqs)
  then show ?thesis
    by (auto simp: equippable_def intro!: calm_do_equippable calm_intros)
qed

lemma calm_market:
  assumes "external_calm E" "codec_laws E" "wide_accounts E"
  shows "calm (market_dispatch E org c)"
proof -
  have send: "calm (send E org k no)" for org k no
    using calm_core[OF assms, of org "Send k no"] by simp
  have "calm (do_buy E a k am b)" for a k am b
    by (auto simp: do_buy_def uniques_ownerM_def offer_price_def listing_price_def
        intro!: calm_intros send calm_calls[OF assms(1)])
  then show ?thesis
    by (cases c) (auto simp: market_call_defs uniques_ownerM_def take_offer_def unreserveM_def
        intro!: calm_intros calm_calls[OF assms(1)])
qed

lemma calm_template: "calm (template_dispatch org c)"
  by (cases c) (auto simp: do_something_def cause_error_def intro!: calm_intros)

lemma calm_dispatch:
  assumes "external_calm E" "codec_laws E" "wide_accounts E" "length default_bytes \<le> string_limit E"
    and "call_fits L c" "max_parts L < 2 ^ 32" "max_theme_properties L < 2 ^ 32"
    and "runtime_dispatch E org c = Some m"
  shows "calm m"
  using assms calm_core[OF assms(1-3)] calm_equip[OF assms(1,4)] calm_market[OF assms(1-3)]
    calm_template
  by (cases c) auto

end
