(* ===== verification/Desk.thy ===== *)
theory Desk
  imports Genesis Market_Effects
begin

text \<open>
  An abstract specification of what the four pallets promise about the ownership of NFTs: a trading
  desk that knows who holds each NFT, which ones are held back from transfers, the asks and the
  bids, and nothing else. Every call of the runtime is a step of the desk taken by its signer, or
  no step at all.
\<close>

section \<open>The desk\<close>

record 'a desk =
  holder :: "nft \<rightharpoonup> 'a"
  held :: "nft \<Rightarrow> bool"
  asks :: "nft \<rightharpoonup> 'a list_info"
  bids :: "nft \<times> 'a \<rightharpoonup> 'a offer"

text \<open>
  \<open>dec\<close> says which accounts stand for NFTs. An NFT is in the hands of the account at the end of its
  chain of holders.
\<close>

definition in_hands_of :: "('a \<Rightarrow> nft option) \<Rightarrow> (nft \<rightharpoonup> 'a) \<Rightarrow> nft \<Rightarrow> 'a \<Rightarrow> bool" where
  "in_hands_of dec h k a \<longleftrightarrow> (\<exists>r. (k = r \<or> below (\<lambda>j. Option.bind (h j) dec) k r) \<and>
     h r = Some a \<and> dec a = None)"

text \<open>
  The steps, labelled with the account that takes them: minting a new NFT, burning or moving one by
  the account whose hands it is in (a move not while it is held), asking and withdrawing an ask by
  the holder, bidding by somebody else and withdrawing a bid, and the two ways of a sale: somebody
  takes the ask of the holder, or the holder takes a bid.
\<close>

inductive desk_step :: "('a \<Rightarrow> nft option) \<Rightarrow> 'a \<Rightarrow> 'a desk \<Rightarrow> 'a desk \<Rightarrow> bool" for dec a D where
  mint: "holder D k = None \<Longrightarrow> D' = D\<lparr>holder := (holder D)(k \<mapsto> b)\<rparr> \<Longrightarrow> desk_step dec a D D'"
| burn: "in_hands_of dec (holder D) k a \<Longrightarrow> D' = D\<lparr>holder := (holder D)(k := None)\<rparr> \<Longrightarrow>
    desk_step dec a D D'"
| move: "in_hands_of dec (holder D) k a \<Longrightarrow> \<not> held D k \<Longrightarrow>
    D' = D\<lparr>holder := (holder D)(k \<mapsto> b)\<rparr> \<Longrightarrow> desk_step dec a D D'"
| ask: "holder D k = Some a \<Longrightarrow> dec a = None \<Longrightarrow> listed_by li = a \<Longrightarrow>
    D' = D\<lparr>held := (held D)(k := True), asks := (asks D)(k \<mapsto> li)\<rparr> \<Longrightarrow> desk_step dec a D D'"
| withdraw_ask: "holder D k = Some a \<Longrightarrow> asks D k \<noteq> None \<Longrightarrow>
    D' = D\<lparr>held := (held D)(k := False), asks := (asks D)(k := None)\<rparr> \<Longrightarrow> desk_step dec a D D'"
| bid: "holder D k = Some b \<Longrightarrow> a \<noteq> b \<Longrightarrow> bids D (k, a) = None \<Longrightarrow> maker off = a \<Longrightarrow>
    D' = D\<lparr>bids := (bids D)((k, a) \<mapsto> off)\<rparr> \<Longrightarrow> desk_step dec a D D'"
| withdraw_bid: "bids D (k, a) \<noteq> None \<Longrightarrow> D' = D\<lparr>bids := (bids D)((k, a) := None)\<rparr> \<Longrightarrow>
    desk_step dec a D D'"
| take_ask: "holder D k = Some b \<Longrightarrow> dec b = None \<Longrightarrow> a \<noteq> b \<Longrightarrow> asks D k = Some li \<Longrightarrow>
    listed_by li = b \<Longrightarrow> D' = D\<lparr>holder := (holder D)(k \<mapsto> a), held := (held D)(k := False),
      asks := (asks D)(k := None)\<rparr> \<Longrightarrow> desk_step dec a D D'"
| take_bid: "holder D k = Some a \<Longrightarrow> dec a = None \<Longrightarrow> a \<noteq> b \<Longrightarrow> bids D (k, b) \<noteq> None \<Longrightarrow>
    D' = D\<lparr>holder := (holder D)(k \<mapsto> b), held := (held D)(k := False),
      bids := (bids D)((k, b) := None)\<rparr> \<Longrightarrow> desk_step dec a D D'"

inductive_cases desk_stepE: "desk_step dec a D D'"

text \<open>
  What the desk promises: an NFT leaves its holder only by the hand of the account it is in the
  hands of, or by a sale both sides agreed to.
\<close>

lemma desk_consent:
  assumes "desk_step dec a D D'" "holder D k = Some b" "holder D' k \<noteq> Some b"
  shows "in_hands_of dec (holder D) k a \<or>
    (\<exists>li. asks D k = Some li \<and> listed_by li = b \<and> holder D' k = Some a)"
  using assms(1)
proof (cases rule: desk_step.cases)
  case (take_bid j c)
  then have "j = k" using assms(2,3) by (auto split: if_splits)
  then show ?thesis using take_bid(1,2) unfolding in_hands_of_def by blast
qed (use assms(2,3) in \<open>auto split: if_splits\<close>)

section \<open>The runtime as a desk\<close>

definition desk_of ::
  "('a, 'l, 'x) env \<Rightarrow> ('a, 'x, 'z) market_state_scheme \<Rightarrow> 'a desk" where
  "desk_of E s = \<lparr>holder = uq_owner E (ext s), held = lock s, asks = listed_nfts s, bids = offers s\<rparr>"

lemma desk_of_simps [simp]:
  "holder (desk_of E s) = uq_owner E (ext s)" "held (desk_of E s) = lock s"
  "asks (desk_of E s) = listed_nfts s" "bids (desk_of E s) = offers s"
  by (simp_all add: desk_of_def)

lemma desk_of_eqI:
  "uq_owner E (ext s') = uq_owner E (ext s) \<Longrightarrow> lock s' = lock s \<Longrightarrow>
    listed_nfts s' = listed_nfts s \<Longrightarrow> offers s' = offers s \<Longrightarrow> desk_of E s' = desk_of E s"
  by (simp add: desk_of_def)

text \<open>Being in the hands of an account is what \<^verbatim>\<open>lookup_root_owner\<close> computes.\<close>

lemma in_hands_of_lookup:
  "in_hands_of (decode_nft_account_id E) (uq_owner E x) k a \<longleftrightarrow>
    (\<exists>r. lookup_root_owner E x k = Some (Inr (a, r)))"
proof -
  have "(\<lambda>j. Option.bind (uq_owner E x j) (decode_nft_account_id E)) = nft_parent E x"
    by (rule HOL.ext) (simp add: nft_parent_def)
  then show ?thesis unfolding in_hands_of_def root.walk_iff by (simp only:)
qed

text \<open>The calls of rmrk-core: they touch no ask, no bid and nothing that is held.\<close>

lemma core_desk:
  fixes s s' :: "('a, 'x, 'z) market_state_scheme"
  assumes "core_dispatch E org c s = Some (Inr u, s')"
  shows "lock s' = lock s" "listed_nfts s' = listed_nfts s" "offers s' = offers s"
proof -
  have "keeps (\<lambda>t. lock t = lock s) (core_dispatch E org c :: ('a, 'x, 'z, unit) market_action)"
    "keeps (\<lambda>t. listed_nfts t = listed_nfts s) (core_dispatch E org c :: ('a, 'x, 'z, unit) market_action)"
    "keeps (\<lambda>t. offers t = offers s) (core_dispatch E org c :: ('a, 'x, 'z, unit) market_action)"
    by (rule keeps_core_outside; simp)+
  from this[THEN keepsD, OF assms]
  show "lock s' = lock s" "listed_nfts s' = listed_nfts s" "offers s' = offers s" by simp_all
qed

text \<open>Every call of rmrk-core that is not signed fails.\<close>

lemma core_signed: "core_dispatch E org c s = Some (Inr u, s') \<Longrightarrow> \<exists>a. org = Signed a"
  by (cases c) (auto simp: core_call_defs success)

lemma core_refines:
  fixes s s' :: "('a, 'x, 'z) market_state_scheme"
  assumes laws: "uniques_laws E" and run: "core_dispatch E org c s = Some (Inr u, s')"
  shows "\<exists>a. org = Signed a \<and> (desk_step (decode_nft_account_id E) a (desk_of E s) (desk_of E s') \<or>
    desk_of E s' = desk_of E s)"
proof -
  obtain a where a: "org = Signed a" using core_signed[OF run] by blast
  note same = core_desk[OF run]
  from core_call_owners[OF laws run]
  have "desk_step (decode_nft_account_id E) a (desk_of E s) (desk_of E s') \<or>
    desk_of E s' = desk_of E s"
  proof (cases rule: owner_change.cases)
    case kept
    then show ?thesis using same by (intro disjI2 desk_of_eqI)
  next
    case (minted k b)
    then show ?thesis
      using same by (intro disjI1 desk_step.mint[of _ k]) (simp_all add: desk_of_def)
  next
    case (burned a' k root m)
    then have "in_hands_of (decode_nft_account_id E) (uq_owner E (ext s)) k a"
      using a unfolding in_hands_of_lookup by auto
    with burned(4) show ?thesis
      using same by (intro disjI1 desk_step.burn[of _ _ k]) (simp_all add: desk_of_def)
  next
    case (moved a' k root b)
    then have "in_hands_of (decode_nft_account_id E) (uq_owner E (ext s)) k a"
      using a unfolding in_hands_of_lookup by auto
    with moved(3,4) show ?thesis
      using same by (intro disjI1 desk_step.move[of _ _ k]) (simp_all add: desk_of_def)
  qed
  with a show ?thesis by blast
qed

lemma market_refines:
  assumes laws: "uniques_laws E" "currency_laws E" and ok: "offers_ok s"
    and run: "market_dispatch E org c s = Some (Inr u, s')"
  shows "\<exists>a. org = Signed a \<and> desk_step (decode_nft_account_id E) a (desk_of E s) (desk_of E s')"
  using market_call_changes[OF laws run]
proof (cases rule: market_change.cases)
  case (bought a k ow li x)
  then show ?thesis
    by (intro exI[of _ a] conjI desk_step.take_ask[of _ k ow]) (simp_all add: desk_of_def)
next
  case (taken ow k off b x)
  have "maker off = b" using ok taken(5) unfolding offers_ok_def by blast
  with taken show ?thesis
    by (intro exI[of _ ow] conjI desk_step.take_bid[of _ k ow _ b]) (auto simp: desk_of_def)
next
  case (listed a k li)
  then show ?thesis
    by (intro exI[of _ a] conjI desk_step.ask[of _ k a]) (simp_all add: desk_of_def)
next
  case (unlisted a k)
  then show ?thesis
    by (intro exI[of _ a] conjI desk_step.withdraw_ask[of _ k a]) (simp_all add: desk_of_def)
next
  case (offered a k ow off)
  then show ?thesis
    by (intro exI[of _ a] conjI desk_step.bid[of _ k ow])
      (simp_all add: desk_of_def currency_reserve(4)[OF laws(2) offered(6)])
next
  case (withdrawn a k ow off)
  then show ?thesis
    by (intro exI[of _ a] conjI desk_step.withdraw_bid[of _ k a])
      (simp_all add: desk_of_def currency_unreserve(3)[OF laws(2)])
qed

lemma equip_desk:
  fixes s s' :: "('a, 'x, 'z) market_state_scheme"
  assumes "equip_dispatch E' org c s = Some (Inr u, s')"
  shows "desk_of E s' = desk_of E s"
proof -
  have "keeps (\<lambda>t. desk_of E t = desk_of E s) (equip_dispatch E' org c :: ('a, 'x, 'z, unit) market_action)"
    by (rule keeps_equip_dispatch) (auto simp: desk_of_def intro!: keeps_base_operations)
  from keepsD[OF this assms] show ?thesis by simp
qed

lemma template_desk:
  assumes "template_dispatch org c s = Some (Inr u, s')"
  shows "desk_of E s' = desk_of E s"
proof -
  have "keeps (\<lambda>t. desk_of E t = desk_of E s) (template_dispatch org c)"
    by (rule keeps_template_dispatch) (simp_all add: desk_of_def)
  from keepsD[OF this assms] show ?thesis by simp
qed

text \<open>Every call that succeeds is a step of the desk, taken by its signer, or changes nothing of it.\<close>

lemma runtime_refines:
  assumes laws: "uniques_laws E" "currency_laws E" and ok: "offers_ok s"
    and call: "runtime_dispatch E org c = Some m" and run: "m s = Some (Inr u, s')"
  shows "desk_of E s' = desk_of E s \<or>
    (\<exists>a. org = Signed a \<and> desk_step (decode_nft_account_id E) a (desk_of E s) (desk_of E s'))"
proof (cases c)
  case (RmrkCore call')
  with call run have "core_dispatch E org call' s = Some (Inr u, s')" by auto
  from core_refines[OF laws(1) this] show ?thesis by blast
next
  case (RmrkEquip call')
  with call run show ?thesis by (auto dest: equip_desk)
next
  case (RmrkMarket call')
  with call run have "market_dispatch E org call' s = Some (Inr u, s')" by auto
  from market_refines[OF laws ok this] show ?thesis by blast
next
  case (TemplateModule call')
  with call run show ?thesis by (auto dest: template_desk)
qed (use call in simp_all)

text \<open>So does every run, when the rest of the chain leaves the items alone.\<close>

definition owners_kept :: "('a, 'l, 'x) env \<Rightarrow> ('x \<Rightarrow> 'x \<Rightarrow> bool) \<Rightarrow> bool" where
  "owners_kept E F \<longleftrightarrow> (\<forall>x x'. F x x' \<longrightarrow> uq_owner E x' = uq_owner E x)"

definition some_step :: "('a \<Rightarrow> nft option) \<Rightarrow> 'a desk \<Rightarrow> 'a desk \<Rightarrow> bool" where
  "some_step dec D D' \<longleftrightarrow> (\<exists>a. desk_step dec a D D')"

lemma step_refines:
  assumes laws: "uniques_laws E" "currency_laws E" "owners_kept E F" and ok: "offers_ok s"
    and step: "runtime_step E F s s'"
  shows "(some_step (decode_nft_account_id E))\<^sup>*\<^sup>* (desk_of E s) (desk_of E s')"
  using step
proof (cases rule: runtime_step.cases)
  case (call c org m r)
  show ?thesis
  proof (cases r)
    case (Inl e)
    with call have "s' = s" using dispatch_error_unchanged by blast
    then show ?thesis by simp
  next
    case (Inr u)
    have "m s = Some (Inr u, s')" using call(3) Inr by simp
    from runtime_refines[OF laws(1,2) ok call(2) this] show ?thesis
    proof (elim disjE exE conjE)
      assume "desk_of E s' = desk_of E s"
      then show ?thesis by (simp only: rtranclp.rtrancl_refl)
    next
      fix a assume "desk_step (decode_nft_account_id E) a (desk_of E s) (desk_of E s')"
      then have "some_step (decode_nft_account_id E) (desk_of E s) (desk_of E s')"
        unfolding some_step_def by (rule exI)
      then show ?thesis by (rule r_into_rtranclp)
    qed
  qed
next
  case (foreign x)
  then have "desk_of E s' = desk_of E s"
    using laws(3) by (intro desk_of_eqI) (auto simp: owners_kept_def)
  then show ?thesis by (simp only: rtranclp.rtrancl_refl)
qed

lemma run_refines:
  assumes laws: "uniques_laws E" "currency_laws E" "owners_kept E F" and ok: "chain_ok s"
    and steps: "(runtime_step E F)\<^sup>*\<^sup>* s s'"
  shows "(some_step (decode_nft_account_id E))\<^sup>*\<^sup>* (desk_of E s) (desk_of E s')"
  using steps
proof (induction rule: rtranclp_induct)
  case (step t t')
  have "offers_ok t" using chain.steps_keep[OF step(1) ok] by (simp add: chain_ok_def)
  from rtranclp_trans[OF step.IH step_refines[OF laws this step(2)]] show ?case .
qed simp

end
