(* ===== verification/Progress.thy ===== *)
theory Progress
  imports Desk
begin

text \<open>
  Every call returns. The walks to the root owner are recursions the code does not bound; they
  return as long as every chain of owners ends. The rules here show that a call returns when it
  starts in such a state, and that calls keep the state so, provided NFTs are handed to ordinary
  accounts only.
\<close>

section \<open>Actions that return\<close>

text \<open>
  \<open>ends\<close>: the action returns when all chains of owners end. \<open>goes\<close>: moreover they still end where it
  succeeded, so that more can follow.
\<close>

definition ends :: "('a, 'l, 'x) env \<Rightarrow> (('a, 'x, 'z) frame_scheme, 'e, 'r) action \<Rightarrow> bool" where
  "ends E m \<longleftrightarrow> (\<forall>s. nesting_ok E (ext s) \<longrightarrow> m s \<noteq> None)"

definition goes :: "('a, 'l, 'x) env \<Rightarrow> (('a, 'x, 'z) frame_scheme, 'e, 'r) action \<Rightarrow> bool" where
  "goes E m \<longleftrightarrow> ends E m \<and> keeps (\<lambda>s. nesting_ok E (ext s)) m"

named_theorems goes_intros \<open>structural rules for goes\<close>

lemma goes_basic [goes_intros]:
  "goes E (returnM r)" "goes E (failM e)" "goes E (getsM f)" "goes E (ensureM b e)"
  "goes E (ok_orM x e)" "(\<And>s. ext (g s) = ext s) \<Longrightarrow> goes E (modifyM g)"
  by (auto simp: goes_def ends_def keeps_def run_simps split: option.splits)

lemma goes_get_ok [goes_intros]: "goes E (get_okM h e)"
  by (auto simp: goes_def ends_def keeps_def run_simps split: option.splits)

lemma goes_bind [goes_intros]: "goes E m \<Longrightarrow> (\<And>q. goes E (f q)) \<Longrightarrow> goes E (bindM m f)"
  unfolding goes_def ends_def
  by (intro conjI keeps_bind allI impI)
    (auto simp: run_simps dest: keepsD split: option.split sum.split)

lemma goes_seq [goes_intros]: "goes E m \<Longrightarrow> goes E n \<Longrightarrow> goes E (seqM m n)"
  unfolding seqM_def by (rule goes_bind)

lemma goes_for [goes_intros]: "(\<And>x. goes E (f x)) \<Longrightarrow> goes E (forM xs f)"
  by (induction xs) (auto intro: goes_intros)

lemma goes_cases [goes_intros]:
  "goes E m \<Longrightarrow> goes E n \<Longrightarrow> goes E (if b then m else n)"
  "goes E m \<Longrightarrow> (\<And>y. goes E (f y)) \<Longrightarrow> goes E (case x of None \<Rightarrow> m | Some y \<Rightarrow> f y)"
  "(\<And>y z. goes E (h y z)) \<Longrightarrow> goes E (case p of (y, z) \<Rightarrow> h y z)"
  "(\<And>y. goes E (f y)) \<Longrightarrow> (\<And>k l. goes E (h k l)) \<Longrightarrow>
    goes E (case ow of AccountId y \<Rightarrow> f y | CollectionAndNftTuple k l \<Rightarrow> h k l)"
  by (simp_all split: option.split prod.split account_id_or_nft.split)

lemma goes_ends: "goes E m \<Longrightarrow> ends E m"
  by (simp add: goes_def)

lemma endsD: "ends E m \<Longrightarrow> nesting_ok E (ext s) \<Longrightarrow> m s \<noteq> None"
  unfolding ends_def by blast

lemma ends_bind: "goes E m \<Longrightarrow> (\<And>q. ends E (f q)) \<Longrightarrow> ends E (bindM m f)"
  unfolding goes_def ends_def by (auto simp: run_simps dest: keepsD split: option.split sum.split)

lemma ends_seq: "goes E m \<Longrightarrow> ends E n \<Longrightarrow> ends E (seqM m n)"
  unfolding seqM_def by (rule ends_bind)

lemma ends_transactional: "ends E m \<Longrightarrow> ends E (transactionalM m)"
  unfolding ends_def by (auto simp: run_simps split: option.split sum.split)

lemma ends_case_prod: "(\<And>y z. ends E (h y z)) \<Longrightarrow> ends E (case p of (y, z) \<Rightarrow> h y z)"
  by (simp split: prod.split)

lemma ends_case_option:
  "ends E m \<Longrightarrow> (\<And>y. ends E (f y)) \<Longrightarrow> ends E (case x of None \<Rightarrow> m | Some y \<Rightarrow> f y)"
  by (simp split: option.split)

lemma ends_if: "ends E m \<Longrightarrow> ends E n \<Longrightarrow> ends E (if b then m else n)"
  by simp

text \<open>The end of a handler: what returns in any state, after anything that returns.\<close>

lemma ends_then_event:
  "ends E m \<Longrightarrow> ends E (seqM m (deposit_event ev))"
  unfolding ends_def by (auto simp: run_simps split: option.split sum.split)

lemma ends_external: "ends E (externalM f)"
  by (simp add: ends_def run_simps split: prod.split)

text \<open>Calls that leave the owners of items alone.\<close>

lemma goes_external:
  assumes "\<And>x x'. f x = (Inr (), x') \<Longrightarrow> nesting_ok E x \<Longrightarrow> nesting_ok E x'"
  shows "goes E (externalM f)"
  unfolding goes_def
  by (intro conjI ends_external keeps_external) (simp add: assms)

lemma goes_currency:
  assumes "currency_laws E"
  shows "goes E (externalM (cur_reserve E a v))" "goes E (externalM (cur_transfer E a b v KeepAlive))"
    "goes E (modifyM (\<lambda>s. s\<lparr>ext := cur_unreserve E a v (ext s)\<rparr>))"
proof -
  show "goes E (externalM (cur_reserve E a v))"
    by (rule goes_external) (simp add: nesting_ok_same[OF currency_reserve(4)[OF assms]])
  show "goes E (externalM (cur_transfer E a b v KeepAlive))"
    by (rule goes_external) (simp add: nesting_ok_same[OF currency_transfer(4)[OF assms]])
  show "goes E (modifyM (\<lambda>s. s\<lparr>ext := cur_unreserve E a v (ext s)\<rparr>))"
    unfolding goes_def ends_def keeps_def
    by (auto simp: run_simps nesting_ok_same[OF currency_unreserve(3)[OF assms]])
qed

section \<open>rmrk-core\<close>

lemma goes_root [goes_intros]: "goes E (root_ownerM E k)"
proof -
  have "root_ownerM E k s \<noteq> None" if "nesting_ok E (ext s)" for s :: "('a, 'c, 'd) frame_scheme"
    using that root.walk_returns[of E "ext s" k] nesting_okD[OF that]
    by (auto simp: root_ownerM_def split: option.split sum.split)
  then show ?thesis unfolding goes_def ends_def by (blast intro: keeps_root_owner)
qed

lemma goes_descendent [goes_intros]: "goes E (descendentM E j k)"
  unfolding goes_def ends_def descendentM_def
  by (auto simp: descendent_returns[OF nesting_okD] keeps_descendent[unfolded descendentM_def])

lemma goes_helpers [goes_intros]:
  "goes E (ensure_signed org)" "goes E (ensure_unlocked k)" "goes E (check_is_transferable nft)"
  "goes E (check_is_not_equipped nft)" "goes E (add_child p k)" "goes E (remove_child p k)"
  "goes E (set_lock k b)" "goes E (deposit_event ev)" "goes E (ensure_collection_owner E a c)"
  "goes E (ensure_not_full col n)" "goes E (get_next_nft_id c)" "goes E (get_next_resource_id k)"
  "goes E get_next_collection_id" "goes E (to_virtual_account E' k)" "goes E (lookupM E' l)"
  unfolding ensure_unlocked_def check_is_transferable_def check_is_not_equipped_def add_child_def
    remove_child_def set_lock_def deposit_event_def ensure_collection_owner_def ensure_not_full_def
    get_next_nft_id_def get_next_resource_id_def get_next_collection_id_def to_virtual_account_def
  by (auto simp: ensure_signed_def lookupM_def intro!: goes_intros split: raw_origin.split sum.split)

lemma goes_nft_burn [goes_intros]: "goes E (nft_burn E k m)"
  unfolding goes_def nft_burn_def
proof
  show "ends E (seqM (nft_burn_rec E (unat m) k) (returnM k))"
    unfolding ends_def
    by (intro allI impI returns_seq[OF returns_nft_burn_rec returns_basic(1),
          unfolded returns_def, rule_format])
  show "keeps (\<lambda>s. nesting_ok E (ext s)) (seqM (nft_burn_rec E (unat m) k) (returnM k))"
    by (intro keeps_intros keeps_nft_burn_rec) simp_all
qed

lemma goes_insert_priorities: "goes E (insert_priorities k rs i)"
  by (induction rs arbitrary: i) (auto intro!: goes_intros)

lemma goes_resource_add [goes_intros]: "goes E (resource_add E a k res b)"
proof -
  have "goes E (register_equippable k r res)" for r
    by (auto simp: register_equippable_def intro!: goes_intros split: resource_types.split)
  then show ?thesis by (auto simp: resource_add_def intro!: goes_intros)
qed

lemma goes_nft_operations [goes_intros]:
  "goes E (nft_mint a ow c rcp am md tr)" "goes E (nft_mint_directly_to_nft E a p c rcp am md tr)"
  "goes E (nft_send E a k no)" "goes E (nft_accept E a k no)" "goes E (nft_reject E a k m)"
proof -
  have mint: "goes E (increment_nfts_count col c)" for col
    by (auto simp: increment_nfts_count_def intro!: goes_intros)
  have target: "goes E (check_nft_target E k t)" for k t
    by (auto simp: check_nft_target_def intro!: goes_intros)
  have move: "goes E (move_child E k b b')" for b b'
    by (auto simp: move_child_def intro!: goes_intros)
  show "goes E (nft_mint a ow c rcp am md tr)" "goes E (nft_mint_directly_to_nft E a p c rcp am md tr)"
    by (auto simp: nft_mint_def nft_mint_directly_to_nft_def intro!: goes_intros mint)
  show "goes E (nft_send E a k no)" "goes E (nft_accept E a k no)"
    by (auto simp: nft_send_def nft_accept_def send_target_def store_sent_def
        intro!: goes_intros target move)
  show "goes E (nft_reject E a k m)"
    by (auto simp: nft_reject_def unlink_from_account_def intro!: goes_intros)
qed

lemma goes_collection_operations [goes_intros]:
  "goes E (collection_create a md mx sy)" "goes E (collection_burn a c)"
  "goes E (collection_change_issuer c a)" "goes E (collection_lock a c)"
  "goes E (property_set E a c n key val)" "goes E (priority_set E a k rs)"
  "goes E (resource_remove E a k r)" "goes E (accept_removal E a k r)"
  "goes E (add_mint_resources E a k ress)"
  by (auto simp: collection_create_def collection_burn_def collection_change_issuer_def
      collection_lock_def property_set_def priority_set_def resource_remove_def accept_removal_def
      add_mint_resources_def intro!: goes_intros goes_insert_priorities)

lemma goes_mint:
  assumes "uniques_laws E" "decode_nft_account_id E b = None"
  shows "goes E (externalM (uq_do_mint E k b))"
proof (rule goes_external)
  fix x x' assume run: "uq_do_mint E k b x = (Inr (), x')" and ok: "nesting_ok E x"
  show "nesting_ok E x'"
    by (rule nesting_minted[OF ok uniques_mint[OF assms(1) run]]) (simp add: assms(2))
qed

text \<open>A handler knows more after an operation than that the chains are finite.\<close>

lemma ends_bind_success:
  "goes E m \<Longrightarrow> (\<And>q s s'. nesting_ok E (ext s) \<Longrightarrow> m s = Some (Inr q, s') \<Longrightarrow> f q s' \<noteq> None) \<Longrightarrow>
    ends E (bindM m f)"
  unfolding goes_def ends_def by (auto simp: run_simps split: option.split sum.split)

lemma bind_return: "bindM (returnM a) f = f a"
  by (rule ext) (simp add: run_simps)

lemma bind_virtual:
  "nft_to_account_id E p = Some a \<Longrightarrow> bindM (to_virtual_account E p) f = f a"
  by (simp add: to_virtual_account_def ok_orM_def bind_return)

lemma bind_unsigned: "\<forall>a. org \<noteq> Signed a \<Longrightarrow> bindM (ensure_signed org) f = failM BadOrigin"
  by (cases org) (simp_all add: ensure_signed_def bindM_def failM_def)

lemma external_then:
  assumes "\<And>x. f (ext s) = (Inr (), x) \<Longrightarrow> n (s\<lparr>ext := x\<rparr>) \<noteq> None"
  shows "seqM (externalM f) n s \<noteq> None"
proof -
  obtain r x where f: "f (ext s) = (r, x)" by fastforce
  then show ?thesis
    using assms[of x] by (cases r) (simp_all add: run_seq run_external del: not_None_eq)
qed

lemma ends_mint_directly:
  fixes E :: "('a, 'l, 'x) env"
  assumes "codec_laws E" "wide_accounts E" "uniques_laws E"
  shows "ends E (mint_nft_directly_to_nft E org p c rcp am md tr ress :: ('a, 'x, 'z, unit) core_action)"
  unfolding mint_nft_directly_to_nft_def
proof (rule ends_transactional, rule ends_bind, rule goes_helpers(1), rule ends_seq,
    rule goes_helpers(9), rule ends_bind_success, rule goes_nft_operations(2))
  fix a k and s s' :: "('a, 'x, 'z) core_state_scheme"
  assume ok: "nesting_ok E (ext s)"
    and run: "nft_mint_directly_to_nft E a p c rcp am md tr s = Some (Inr k, s')"
  then obtain r where same: "ext s' = ext s" and root: "lookup_root_owner E (ext s) p = Some (Inr r)"
    by (auto simp: success_nft_mint_directly)
  obtain acc where acc: "nft_to_account_id E p = Some acc" "decode_nft_account_id E acc = Some p"
    using nft_to_account_id_total[OF assms(1,2)] by blast
  have "nesting_ok E x" if "uq_do_mint E k acc (ext s) = (Inr (), x)" for x
    using root acc(2)
    by (intro nesting_minted[OF ok uniques_mint[OF assms(3) that]]) (metis option.inject)
  then show "bindM (to_virtual_account E p) (\<lambda>uniques_owner.
      seqM (externalM (uq_do_mint E k uniques_owner)) (seqM (add_mint_resources E a k ress)
        (deposit_event (CoreEvent
          (NftMinted (CollectionAndNftTuple (fst p) (snd p)) (fst k) (snd k)))))) s' \<noteq> None"
    unfolding bind_virtual[OF acc(1)]
    by (intro external_then endsD[where E = E] goes_ends goes_intros) (simp_all add: same)
qed

section \<open>Every call\<close>

text \<open>
  The signer of the call and the accounts it hands NFTs to are ordinary accounts: nobody has the key
  of a virtual account, but the code does not keep a caller from naming one.
\<close>

definition plain_call ::
  "('a, 'l, 'x) env \<Rightarrow> 'a raw_origin \<Rightarrow> ('a, 'l) runtime_call \<Rightarrow> bool" where
  "plain_call E org c \<longleftrightarrow> (\<forall>a. org = Signed a \<longrightarrow> decode_nft_account_id E a = None) \<and>
     (\<forall>call. c = RmrkCore call \<longrightarrow> list_all (\<lambda>b. decode_nft_account_id E b = None) (handed_to org call))"

lemma ends_core:
  assumes laws: "codec_laws E" "wide_accounts E" "uniques_laws E"
    and plain: "\<forall>b\<in>set (handed_to org c). decode_nft_account_id E b = None"
  shows "ends E (core_dispatch E org c)"
proof (cases c)
  case (MintNft ow cl rcp am md tr rs)
  have "ends E (mint_nft E (Signed a) ow cl rcp am md tr rs)" if "org = Signed a" for a
  proof -
    have "decode_nft_account_id E (case ow of Some b \<Rightarrow> b | None \<Rightarrow> a) = None"
      using plain that by (cases ow) (simp_all add: MintNft)
    from goes_mint[OF laws(3) this] show ?thesis
      unfolding mint_nft_def Let_def ensure_signed_def raw_origin.case bind_return
      by (intro ends_transactional goes_ends goes_intros)
  qed
  moreover have "ends E (mint_nft E org ow cl rcp am md tr rs)" if "\<forall>a. org \<noteq> Signed a"
    unfolding mint_nft_def bind_unsigned[OF that] by (intro ends_transactional goes_ends goes_intros)
  ultimately show ?thesis using MintNft by auto
next
  case (MintNftDirectlyToNft p cl rcp am md tr rs)
  then show ?thesis by (simp add: ends_mint_directly[OF laws])
qed (auto simp: core_call_defs add_resource_def uniques_transfer_def
    intro!: ends_transactional ends_bind ends_seq ends_then_event ends_external ends_case_prod
      goes_intros intro: goes_ends)

lemma goes_equip: "goes E (equip_dispatch E org c)"
proof -
  have equipped: "goes E (set_equipped k b)" for k b
    by (auto simp: set_equipped_def intro!: goes_intros)
  have "goes E (do_equip E a item equipper r b slot)" for a item equipper r b slot
    by (auto simp: do_equip_def unequip_slot_def check_equip_def equip_into_part_def
        intro!: goes_intros equipped split: part_type.split equippable_list.split)
  then show ?thesis
    by (cases c) (auto simp: change_base_issuer_def base_change_issuer_def equip_def equippable_def
        do_equippable_def ensure_base_issuer_def theme_add_def length_u32M_def add_theme_def
        create_base_def base_create_def get_next_base_id_def
        intro!: goes_intros split: part_type.split)
qed

lemma goes_template: "goes E (template_dispatch org c)"
  by (cases c) (auto simp: do_something_def cause_error_def intro!: goes_intros)

lemma ends_market:
  assumes "currency_laws E"
  shows "ends E (market_dispatch E org c)"
proof -
  note money = goes_currency[OF assms]
  have send: "ends E (send E org k no)" for org k no
    by (auto simp: send_def uniques_transfer_def intro!: ends_transactional ends_bind
        ends_then_event ends_external ends_case_prod goes_intros)
  have price: "goes E (if b then offer_price k a else listing_price E k ow)" for b k a ow
    by (auto simp: offer_price_def listing_price_def intro!: goes_intros)
  have buy: "ends E (do_buy E a k am b)" for a k am b
    unfolding do_buy_def uniques_ownerM_def
    by (auto intro!: ends_bind ends_seq ends_then_event send price money goes_intros)
  have taken: "ends E (take_offer k a body)" if "\<And>off. ends E (body off)" for k a body
  proof -
    have "ends E (seqM (body off) (modifyM g))" for off and g
      using that[of off] unfolding ends_def by (auto simp: run_simps split: option.split sum.split)
    then show ?thesis unfolding take_offer_def by (intro ends_bind goes_intros)
  qed
  have unreserve: "goes E (unreserveM E a v)" for a v
    unfolding unreserveM_def by (rule money)
  show ?thesis
    by (cases c) (auto simp: market_call_defs uniques_ownerM_def intro!: ends_transactional ends_bind
        ends_seq taken buy ends_then_event unreserve money goes_intros intro: goes_ends)
qed

text \<open>No call hangs when all chains of owners end.\<close>

lemma dispatch_returns:
  assumes "codec_laws E" "wide_accounts E" "uniques_laws E" "currency_laws E"
    and "plain_call E org c" "runtime_dispatch E org c = Some m" "nesting_ok E (ext s)"
  shows "m s \<noteq> None"
proof -
  have "\<forall>b\<in>set (handed_to org call). decode_nft_account_id E b = None" if "c = RmrkCore call" for call
    using assms(5) that by (simp add: plain_call_def list_all_iff)
  then have "ends E m"
    using assms(6) ends_core[OF assms(1-3)] goes_ends[OF goes_equip] ends_market[OF assms(4)]
      goes_ends[OF goes_template]
    by (cases c) auto
  from endsD[OF this assms(7)] show ?thesis .
qed

section \<open>Along every run\<close>

inductive plain_step ::
  "('a, 'l, 'x) env \<Rightarrow> ('x \<Rightarrow> 'x \<Rightarrow> bool) \<Rightarrow>
    ('a, 'x, 'z) runtime_state_scheme \<Rightarrow> ('a, 'x, 'z) runtime_state_scheme \<Rightarrow> bool"
  for E F where
  call: "plain_call E org c \<Longrightarrow> base_filter c \<Longrightarrow> runtime_dispatch E org c = Some m \<Longrightarrow>
    m s = Some (r, s') \<Longrightarrow> plain_step E F s s'"
| foreign: "F (ext s) x \<Longrightarrow> plain_step E F s (s\<lparr>ext := x\<rparr>)"

inductive_cases plain_stepE: "plain_step E F s s'"

text \<open>What the runs keep: finite chains, and offers by ordinary accounts.\<close>

definition going :: "('a, 'l, 'x) env \<Rightarrow> ('a, 'x, 'z) market_state_scheme \<Rightarrow> bool" where
  "going E s \<longleftrightarrow> nesting_ok E (ext s) \<and> offers_ok s \<and>
     (\<forall>k a. offers s (k, a) \<noteq> None \<longrightarrow> decode_nft_account_id E a = None)"

lemma going_same:
  "going E s \<Longrightarrow> uq_owner E (ext s') = uq_owner E (ext s) \<Longrightarrow> offers s' = offers s \<Longrightarrow> going E s'"
  using nesting_ok_same[of E "ext s'" "ext s"] by (simp add: going_def offers_ok_def)

lemma going_core:
  fixes s s' :: "('a, 'x, 'z) market_state_scheme"
  assumes laws: "codec_laws E" "wide_accounts E" "uniques_laws E" and ok: "going E s"
    and plain: "plain_call E org (RmrkCore c)" and run: "core_dispatch E org c s = Some (Inr u, s')"
  shows "going E s'"
proof -
  have "nesting_ok E (ext s')"
    using ok plain by (intro core_keeps_nesting[OF laws _ _ run])
      (simp_all add: going_def plain_call_def list_all_iff)
  with ok core_desk(3)[OF run] show ?thesis by (simp add: going_def offers_ok_def)
qed

lemma going_sold:
  assumes ok: "going E s" and owners: "uq_owner E (ext s') = (uq_owner E (ext s))(k \<mapsto> a)"
    and "decode_nft_account_id E a = None"
    and offers: "offers s' = offers s \<or> offers s' = (offers s)(j := None)"
  shows "going E s'"
proof -
  have "nesting_ok E (ext s')"
    using ok assms(3) by (intro nesting_ok_owner[OF _ owners]) (simp_all add: going_def)
  moreover have "offers s i = Some off" if "offers s' i = Some off" for i off
    using offers that by (auto split: if_splits)
  ultimately show ?thesis
    using ok unfolding going_def offers_ok_def by blast
qed

lemma going_market:
  assumes laws: "uniques_laws E" "currency_laws E" and ok: "going E s"
    and plain: "\<And>a. org = Signed a \<Longrightarrow> decode_nft_account_id E a = None"
    and run: "market_dispatch E org c s = Some (Inr u, s')"
  shows "going E s'"
  using market_call_changes[OF laws run]
proof (cases rule: market_change.cases)
  case (bought a k ow li x)
  show ?thesis by (rule going_sold[OF ok bought(7) plain[OF bought(1)]]) (simp add: bought(10))
next
  case (taken ow k off b x)
  have "maker off = b" "decode_nft_account_id E b = None"
    using ok taken(5) unfolding going_def offers_ok_def by blast+
  then show ?thesis
    by (intro going_sold[OF ok taken(6), of "(k, b)"]) (simp_all add: taken(9))
next
  case (listed a k li)
  then show ?thesis by (intro going_same[OF ok]) simp_all
next
  case (unlisted a k)
  then show ?thesis by (intro going_same[OF ok]) simp_all
next
  case (offered a k ow off)
  have "nesting_ok E (ext s')"
    using ok nesting_ok_same[OF currency_reserve(4)[OF laws(2) offered(6)]] by (simp add: going_def)
  then show ?thesis
    using ok offered(5,9) plain[OF offered(1)]
    by (auto simp: going_def offers_ok_def split: if_splits)
next
  case (withdrawn a k ow off)
  have "nesting_ok E (ext s')"
    using ok withdrawn(4) nesting_ok_same[OF currency_unreserve(3)[OF laws(2)]] by (simp add: going_def)
  then show ?thesis
    using ok withdrawn(7) by (auto simp: going_def offers_ok_def split: if_splits)
qed

text \<open>The other two pallets touch neither the external storage nor the offers.\<close>

lemma keeps_going_others:
  "keeps (going E) (equip_dispatch E' org c)" "keeps (going E) (template_dispatch org c')"
  by (intro keeps_equip_dispatch keeps_template_dispatch keeps_base_operations;
      auto intro: going_same)+

lemma dispatch_keeps_going:
  assumes laws: "codec_laws E" "wide_accounts E" "uniques_laws E" "currency_laws E"
    and plain: "plain_call E org c" and dispatch: "runtime_dispatch E org c = Some m"
    and run: "m s = Some (Inr u, s')" and ok: "going E s"
  shows "going E s'"
proof (cases c)
  case (RmrkCore call)
  with dispatch run have "core_dispatch E org call s = Some (Inr u, s')" by auto
  then show ?thesis using plain RmrkCore by (intro going_core[OF laws(1-3) ok]) simp_all
next
  case (RmrkEquip call)
  with dispatch run show ?thesis using keepsD[OF keeps_going_others(1)] ok by auto
next
  case (RmrkMarket call)
  with dispatch run have "market_dispatch E org call s = Some (Inr u, s')" by auto
  then show ?thesis using plain by (intro going_market[OF laws(3,4) ok]) (simp_all add: plain_call_def)
next
  case (TemplateModule call)
  with dispatch run show ?thesis using keepsD[OF keeps_going_others(2)] ok by auto
qed (use dispatch in simp_all)

definition progress_laws :: "('a, 'l, 'x) env \<Rightarrow> ('x \<Rightarrow> 'x \<Rightarrow> bool) \<Rightarrow> bool" where
  "progress_laws E F \<longleftrightarrow> codec_laws E \<and> wide_accounts E \<and> uniques_laws E \<and> currency_laws E \<and>
     owners_kept E F"

interpretation alive: step_invariant "plain_step E F" "\<lambda>s. progress_laws E F \<longrightarrow> going E s" for E F
proof unfold_locales
  fix s s' :: "('a, 'c, 'd) runtime_state_scheme"
  assume ok: "progress_laws E F \<longrightarrow> going E s" and step: "plain_step E F s s'"
  show "progress_laws E F \<longrightarrow> going E s'"
  proof
    assume laws: "progress_laws E F"
    then have going: "going E s" using ok by blast
    from step show "going E s'"
    proof (cases rule: plain_step.cases)
      case (call c org m r)
      show ?thesis
      proof (cases r)
        case (Inl e)
        with call have "s' = s" using dispatch_error_unchanged by blast
        with going show ?thesis by simp
      next
        case (Inr u)
        have "m s = Some (Inr u, s')" using call(4) Inr by simp
        with laws going call(1,3) show ?thesis
          unfolding progress_laws_def by (blast intro: dispatch_keeps_going)
      qed
    next
      case (foreign x)
      with laws have "uq_owner E x = uq_owner E (ext s)"
        unfolding progress_laws_def owners_kept_def by blast
      with foreign show ?thesis by (intro going_same[OF going]) simp_all
    qed
  qed
qed

lemma alive_returns:
  assumes "progress_laws E F" "going E s" "(plain_step E F)\<^sup>*\<^sup>* s s'"
    and "plain_call E org c" "runtime_dispatch E org c = Some m"
  shows "m s' \<noteq> None"
proof -
  have "going E s'" using alive.steps_keep[OF assms(3)] assms(1,2) by blast
  with assms(1) show ?thesis
    by (intro dispatch_returns[OF _ _ _ _ assms(4,5)]) (simp_all add: progress_laws_def going_def)
qed

end
