(* ===== verification/Sample_Env.thy ===== *)
theory Sample_Env
  imports Runtime Core_Effects
begin

text \<open>
  One concrete environment that satisfies every law of \<open>External\<close>, for the witnesses: accounts are
  strings of 32 bytes, identifiers are little-endian, and the external storage is a small ledger of
  items, collection owners and balances. It is not a model of the external pallets: it shows that
  the hypotheses of the properties can hold together, and gives them a storage to run on.
\<close>

section \<open>Accounts\<close>

typedef account32 = "{bs :: bytes. length bs = 32}"
  morphisms account_bytes Account
  by (rule exI[of _ "replicate 32 0"]) simp

lemma length_account_bytes [simp]: "length (account_bytes a) = 32"
  using account_bytes by simp

instantiation account32 :: equal
begin

definition equal_account32 :: "account32 \<Rightarrow> account32 \<Rightarrow> bool" where
  "equal_account32 a b \<longleftrightarrow> account_bytes a = account_bytes b"

instance by standard (simp add: equal_account32_def account_bytes_inject)

end

definition alice :: account32 where "alice = Account (replicate 32 1)"
definition bob :: account32 where "bob = Account (replicate 32 2)"
definition charlie :: account32 where "charlie = Account (replicate 32 3)"

lemma account_bytes_sample [simp]:
  "account_bytes alice = replicate 32 1" "account_bytes bob = replicate 32 2"
  "account_bytes charlie = replicate 32 3"
  by (simp_all add: alice_def bob_def charlie_def Account_inverse)

lemma accounts_distinct [simp]:
  "alice \<noteq> bob" "bob \<noteq> alice" "alice \<noteq> charlie" "charlie \<noteq> alice" "bob \<noteq> charlie" "charlie \<noteq> bob"
  by (simp_all add: alice_def bob_def charlie_def Account_inject)

section \<open>Codec\<close>

definition le_u32 :: "u32 \<Rightarrow> bytes" where
  "le_u32 w = [ucast w, ucast (drop_bit 8 w), ucast (drop_bit 16 w), ucast (drop_bit 24 w)]"

definition join_u32 :: "u8 \<Rightarrow> u8 \<Rightarrow> u8 \<Rightarrow> u8 \<Rightarrow> u32" where
  "join_u32 b0 b1 b2 b3 = word_cat b3 (word_cat b2 (word_cat b1 b0 :: 16 word) :: 24 word)"

fun unle_u32 :: "bytes \<Rightarrow> (u32 \<times> bytes) option" where
  "unle_u32 (b0 # b1 # b2 # b3 # bs) = Some (join_u32 b0 b1 b2 b3, bs)"
| "unle_u32 _ = None"

fun_cases unle_u32_SomeE: "unle_u32 bs = Some r"

definition read_account :: "bytes \<Rightarrow> (account32 \<times> bytes) option" where
  "read_account bs = (if length bs < 32 then None else Some (Account (take 32 bs), drop 32 bs))"

lemma length_le_u32 [simp]: "length (le_u32 w) = 4"
  by (simp add: le_u32_def)

lemma unle_le [simp]: "unle_u32 (le_u32 w @ bs) = Some (w, bs)"
proof -
  have "join_u32 (ucast w) (ucast (drop_bit 8 w)) (ucast (drop_bit 16 w)) (ucast (drop_bit 24 w)) = w"
    unfolding join_u32_def by (rule bit_word_eqI) (auto simp: bit_simps)
  then show ?thesis by (simp add: le_u32_def)
qed

lemma le_join: "le_u32 (join_u32 b0 b1 b2 b3) = [b0, b1, b2, b3]"
  unfolding le_u32_def join_u32_def by (simp, intro conjI; rule bit_word_eqI; auto simp: bit_simps)

lemma unle_u32_inv: "unle_u32 bs = Some (w, rest) \<Longrightarrow> bs = le_u32 w @ rest"
  by (erule unle_u32_SomeE) (simp add: le_join)

lemma read_account_bytes [simp]: "read_account (account_bytes a @ bs) = Some (a, bs)"
  by (simp add: read_account_def account_bytes_inverse)

lemma account_bytes_onto: "length bs = 32 \<Longrightarrow> \<exists>a. bs = account_bytes a"
  by (rule exI[of _ "Account bs"]) (simp add: Account_inverse)

section \<open>Ledger\<close>

record ledger =
  items :: "nft \<Rightarrow> account32 option"
  collection_owner :: "collection_id \<Rightarrow> account32 option"
  free :: "account32 \<Rightarrow> nat"
  reserved :: "account32 \<Rightarrow> nat"
  now :: block_number

definition sample_mint :: "nft \<Rightarrow> account32 \<Rightarrow> ledger ext_op" where
  "sample_mint k a x = (if items x k = None
     then (Inr (), x\<lparr>items := (items x)(k := Some a)\<rparr>)
     else (Inl (UniquesError (OtherUniquesError 0)), x))"

definition sample_burn :: "nft \<Rightarrow> ledger ext_op" where
  "sample_burn k x = (if items x k = None
     then (Inl (UniquesError (OtherUniquesError 1)), x)
     else (Inr (), x\<lparr>items := (items x)(k := None)\<rparr>))"

definition sample_transfer :: "(nft \<Rightarrow> bool) \<Rightarrow> nft \<Rightarrow> account32 \<Rightarrow> ledger ext_op" where
  "sample_transfer lk k a x = (if lk k then (Inl (UniquesError Locked), x)
     else if items x k = None then (Inl (UniquesError (OtherUniquesError 1)), x)
     else (Inr (), x\<lparr>items := (items x)(k := Some a)\<rparr>))"

definition sample_create :: "collection_id \<Rightarrow> account32 \<Rightarrow> account32 \<Rightarrow> balance \<Rightarrow> bool \<Rightarrow> ledger ext_op" where
  "sample_create c a b v f x = (if collection_owner x c = None
     then (Inr (), x\<lparr>collection_owner := (collection_owner x)(c := Some a)\<rparr>)
     else (Inl (UniquesError (OtherUniquesError 0)), x))"

text \<open>The items a collection has, as many as a \<^verbatim>\<open>u32\<close> can say.\<close>

definition sample_items :: "ledger \<Rightarrow> collection_id \<Rightarrow> nat" where
  "sample_items x c = min (2 ^ 32 - 1) (card {n. items x (c, n) \<noteq> None})"

definition sample_witness :: "ledger \<Rightarrow> collection_id \<Rightarrow> destroy_witness option" where
  "sample_witness x c = map_option (\<lambda>_. \<lparr>witness_items = of_nat (sample_items x c),
     witness_item_metadatas = 0, witness_attributes = 0\<rparr>) (collection_owner x c)"

definition sample_destroy :: "collection_id \<Rightarrow> destroy_witness \<Rightarrow> account32 option \<Rightarrow> ledger ext_op" where
  "sample_destroy c w a x = (if collection_owner x c = a \<and> a \<noteq> None
     then (Inr (), x\<lparr>collection_owner := (collection_owner x)(c := None)\<rparr>)
     else (Inl (UniquesError (OtherUniquesError 2)), x))"

definition sample_ownership :: "account32 raw_origin \<Rightarrow> collection_id \<Rightarrow> account32 \<Rightarrow> ledger ext_op" where
  "sample_ownership org c l x = (case org of
     Signed a \<Rightarrow> (if collection_owner x c = Some a
       then (Inr (), x\<lparr>collection_owner := (collection_owner x)(c := Some l)\<rparr>)
       else (Inl (UniquesError (OtherUniquesError 2)), x))
   | _ \<Rightarrow> (Inl BadOrigin, x))"

definition sample_reserve :: "account32 \<Rightarrow> balance \<Rightarrow> ledger ext_op" where
  "sample_reserve a v x = (if unat v \<le> free x a
     then (Inr (), x\<lparr>free := (free x)(a := free x a - unat v),
            reserved := (reserved x)(a := reserved x a + unat v)\<rparr>)
     else (Inl (ExternalError 0), x))"

definition sample_unreserve :: "account32 \<Rightarrow> balance \<Rightarrow> ledger \<Rightarrow> ledger" where
  "sample_unreserve a v x = (let m = min (unat v) (reserved x a) in
     x\<lparr>free := (free x)(a := free x a + m), reserved := (reserved x)(a := reserved x a - m)\<rparr>)"

definition sample_pay :: "account32 \<Rightarrow> account32 \<Rightarrow> balance \<Rightarrow> existence_requirement \<Rightarrow> ledger ext_op" where
  "sample_pay a b v req x = (if unat v \<le> free x a
     then (Inr (), if a = b then x
       else x\<lparr>free := (free x)(a := free x a - unat v, b := free x b + unat v)\<rparr>)
     else (Inl (ExternalError 0), x))"

section \<open>The environment\<close>

definition sample :: "(account32, account32, ledger) env" where
  "sample =
    \<lparr>enc_u32 = le_u32, dec_u32 = unle_u32, enc_account = account_bytes,
     dec_account = read_account, account_width = 32,
     uq_owner = items, uq_collection_owner = collection_owner,
     uq_get_destroy_witness = sample_witness, uq_do_mint = sample_mint, uq_do_burn = sample_burn,
     uq_do_transfer = sample_transfer, uq_do_create_collection = sample_create,
     uq_do_destroy_collection = sample_destroy, uq_transfer_ownership = sample_ownership,
     cur_free = free, cur_reserved = reserved, cur_reserve = sample_reserve,
     cur_unreserve = sample_unreserve, cur_transfer = sample_pay,
     block_now = now, account_lookup = Inr, iter_order = (\<lambda>ks. ks),
     max_recursions = 10, collection_deposit = 0, string_limit = 128,
     max_properties_per_theme = 100, minimum_offer_amount = 100\<rparr>"

lemma sample_simps [simp]:
  "enc_u32 sample = le_u32" "dec_u32 sample = unle_u32" "enc_account sample = account_bytes"
  "dec_account sample = read_account" "account_width sample = 32"
  "uq_owner sample = items" "uq_collection_owner sample = collection_owner"
  "uq_get_destroy_witness sample = sample_witness"
  "uq_do_mint sample = sample_mint" "uq_do_burn sample = sample_burn"
  "uq_do_transfer sample = sample_transfer" "uq_do_create_collection sample = sample_create"
  "uq_do_destroy_collection sample = sample_destroy"
  "uq_transfer_ownership sample = sample_ownership"
  "cur_free sample = free" "cur_reserved sample = reserved" "cur_reserve sample = sample_reserve"
  "cur_unreserve sample = sample_unreserve" "cur_transfer sample = sample_pay"
  "block_now sample = now" "account_lookup sample = Inr" "iter_order sample ks = ks"
  "max_recursions sample = 10" "collection_deposit sample = 0" "string_limit sample = 128"
  "max_properties_per_theme sample = 100" "minimum_offer_amount sample = 100"
  by (simp_all add: sample_def)

lemma sample_codec: "codec_laws sample"
  unfolding codec_laws_def
  using unle_u32_inv account_bytes_onto by simp

lemma sample_wide: "wide_accounts sample"
  by (simp add: wide_accounts_def)

lemma sample_uniques: "uniques_laws sample"
  unfolding uniques_laws_def
  by (simp add: sample_mint_def sample_burn_def sample_transfer_def sample_create_def
      sample_destroy_def sample_ownership_def split: if_splits raw_origin.splits)

lemma sample_witnesses: "witness_law sample"
proof -
  have "items x (c, n) = None" if "of_nat (sample_items x c) = (0 :: u32)" for x c n
  proof -
    have "sample_items x c < 2 ^ LENGTH(32)" by (simp add: sample_items_def min_less_iff_disj)
    then have "unat (of_nat (sample_items x c) :: u32) = sample_items x c"
      by (simp add: unsigned_of_nat take_bit_nat_eq_self)
    then have "sample_items x c = 0" using that by simp
    then have "card {n. items x (c, n) \<noteq> None} = 0" by (simp add: sample_items_def min_def split: if_splits)
    then have "{n. items x (c, n) \<noteq> None} = {}" by simp
    then show ?thesis by blast
  qed
  then show ?thesis by (auto simp: witness_law_def sample_witness_def)
qed

lemma sample_iteration: "iteration_laws sample"
  by (simp add: iteration_laws_def)

lemma sample_currency: "currency_laws sample"
  unfolding currency_laws_def
  by (auto simp: sample_reserve_def sample_unreserve_def sample_pay_def sample_transfer_def Let_def
      split: if_splits)

section \<open>Virtual accounts of the sample\<close>

definition virtual :: "nft \<Rightarrow> account32" where
  "virtual k = the (nft_to_account_id sample k)"

lemma sample_virtual [simp]: "nft_to_account_id sample k = Some (virtual k)"
proof -
  obtain a where "nft_to_account_id sample k = Some a"
    by (rule nft_to_account_id_total[OF sample_codec sample_wide])
  then show ?thesis by (simp add: virtual_def)
qed

lemma decode_virtual_sample [simp]: "decode_nft_account_id sample (virtual k) = Some k"
  by (rule decode_nft_to_account_id[OF sample_codec sample_wide sample_virtual])

lemma decode_plain:
  "account_bytes a = replicate 32 b \<Longrightarrow> b \<noteq> 82 \<Longrightarrow> decode_nft_account_id sample a = None"
proof (rule ccontr)
  assume a: "account_bytes a = replicate 32 b" "b \<noteq> 82" "decode_nft_account_id sample a \<noteq> None"
  then obtain k where "enc_account sample a = virtual_bytes sample k"
    using decode_Some_bytes[OF sample_codec] by blast
  then have "replicate 32 b = virtual_bytes sample k" using a(1) by simp
  then have "hd (replicate 32 b) = hd (virtual_bytes sample k)" by (rule arg_cong)
  then show False using a(2) by (simp add: virtual_bytes_def SALT_RMRK_NFT_def hd_replicate)
qed

lemma decode_sample_accounts [simp]:
  "decode_nft_account_id sample alice = None" "decode_nft_account_id sample bob = None"
  "decode_nft_account_id sample charlie = None"
  by (simp_all add: decode_plain)

lemma virtual_neq [simp]:
  "virtual k \<noteq> alice" "virtual k \<noteq> bob" "virtual k \<noteq> charlie"
  "alice \<noteq> virtual k" "bob \<noteq> virtual k" "charlie \<noteq> virtual k"
  using decode_sample_accounts decode_virtual_sample[of k] by (metis option.distinct(1))+

lemma virtual_inject [simp]: "virtual j = virtual k \<longleftrightarrow> j = k"
  using decode_virtual_sample by (metis option.inject)

section \<open>A storage\<close>

text \<open>
  Collection 0 of Alice with three NFTs: 0 of Alice, 1 nested in it, 2 of Bob. Nothing is listed,
  offered, equipped or locked. \<open>demo\<close> is what the witnesses run on, with one or two of its items
  changed where a property needs it.
\<close>

definition plain_nft :: "account32 account_id_or_nft \<Rightarrow> account32 nft_info" where
  "plain_nft ow = \<lparr>nft_owner = ow, royalty = None, nft_metadata = [], equipped = False,
     nft_pending = False, transferable = True\<rparr>"

lemma plain_nft_simps [simp]:
  "nft_owner (plain_nft ow) = ow" "royalty (plain_nft ow) = None"
  "nft_metadata (plain_nft ow) = []" "\<not> equipped (plain_nft ow)"
  "\<not> nft_pending (plain_nft ow)" "transferable (plain_nft ow)"
  by (simp_all add: plain_nft_def)

definition demo_ledger :: ledger where
  "demo_ledger = \<lparr>items = [(0, 0) \<mapsto> alice, (0, 1) \<mapsto> virtual (0, 0), (0, 2) \<mapsto> bob],
     collection_owner = [0 \<mapsto> alice],
     free = (\<lambda>_. 1000), reserved = (\<lambda>_. 0), now = 5\<rparr>"

definition demo_collection :: "account32 collection_info" where
  "demo_collection = \<lparr>col_issuer = alice, col_metadata = [], col_max = None, col_symbol = [],
     nfts_count = 3\<rparr>"

definition demo :: "(account32, ledger) runtime_state" where
  "demo = \<lparr>ext = demo_ledger, events = [],
     next_nft_id = (\<lambda>c. if c = 0 then 3 else 0), collection_index = 1,
     next_resource_id = (\<lambda>_. 0), collections = [0 \<mapsto> demo_collection],
     nfts = [(0, 0) \<mapsto> plain_nft (AccountId alice),
             (0, 1) \<mapsto> plain_nft (CollectionAndNftTuple 0 0),
             (0, 2) \<mapsto> plain_nft (AccountId bob)],
     priorities = Map.empty, children = (\<lambda>k. if k = (0, 0) then [(0, 1)] else []),
     resources = Map.empty, equippable_bases = Map.empty, equippable_slots = Map.empty,
     properties = Map.empty, lock = (\<lambda>_. False),
     bases = Map.empty, parts = Map.empty, next_base_id = 0, next_part_id = (\<lambda>_. 0),
     equippings = Map.empty, themes = (\<lambda>_. []),
     listed_nfts = Map.empty, offers = Map.empty, something = None\<rparr>"

lemma demo_simps [simp]:
  "ext demo = demo_ledger" "events demo = []" "next_nft_id demo 0 = 3" "collection_index demo = 1"
  "next_resource_id demo k = 0" "collections demo = [0 \<mapsto> demo_collection]"
  "nfts demo (0, 0) = Some (plain_nft (AccountId alice))"
  "nfts demo (0, 1) = Some (plain_nft (CollectionAndNftTuple 0 0))"
  "nfts demo (0, 2) = Some (plain_nft (AccountId bob))"
  "priorities demo = Map.empty" "children demo = (\<lambda>k. if k = (0, 0) then [(0, 1)] else [])"
  "resources demo = Map.empty" "equippable_bases demo = Map.empty"
  "equippable_slots demo = Map.empty" "properties demo = Map.empty" "lock demo k = False"
  "bases demo = Map.empty" "parts demo = Map.empty" "next_base_id demo = 0"
  "next_part_id demo b = 0" "equippings demo = Map.empty" "themes demo p = []"
  "listed_nfts demo = Map.empty" "offers demo = Map.empty" "something demo = None"
  by (simp_all add: demo_def)

lemma demo_ledger_simps [simp]:
  "items demo_ledger (0, 0) = Some alice" "items demo_ledger (0, 1) = Some (virtual (0, 0))"
  "items demo_ledger (0, 2) = Some bob" "items demo_ledger (0, 3) = None"
  "collection_owner demo_ledger = [0 \<mapsto> alice]"
  "free demo_ledger a = 1000" "reserved demo_ledger a = 0" "now demo_ledger = 5"
  by (simp_all add: demo_ledger_def)

lemma demo_collection_simps [simp]:
  "col_issuer demo_collection = alice" "col_max demo_collection = None"
  "nfts_count demo_collection = 3" "col_metadata demo_collection = []"
  "col_symbol demo_collection = []"
  by (simp_all add: demo_collection_def)

lemma demo_nfts: "nfts demo k \<noteq> None \<longleftrightarrow> k \<in> {(0, 0), (0, 1), (0, 2)}"
  by (auto simp: demo_def)

text \<open>The ownership chains of the sample.\<close>

lemma demo_lookup [simp]:
  "lookup_root_owner sample demo_ledger (0, 0) = Some (Inr (alice, (0, 0)))"
  "lookup_root_owner sample demo_ledger (0, 1) = Some (Inr (alice, (0, 0)))"
  "lookup_root_owner sample demo_ledger (0, 2) = Some (Inr (bob, (0, 2)))"
proof -
  show root: "lookup_root_owner sample demo_ledger (0, 0) = Some (Inr (alice, (0, 0)))"
    and "lookup_root_owner sample demo_ledger (0, 2) = Some (Inr (bob, (0, 2)))"
    by (simp_all add: lookup_step)
  show "lookup_root_owner sample demo_ledger (0, 1) = Some (Inr (alice, (0, 0)))"
    by (subst lookup_step) (simp add: root)
qed

end
