(* ===== verification/Ownership_Props.thy ===== *)
theory Ownership_Props
  imports Sample_Env
begin

text \<open>
  Properties of virtual accounts and of the ownership hierarchy: the encoding of an NFT as an
  account is a bijection onto the accounts it decodes, the walks compute the path relation, the
  calls of rmrk-core keep every walk finite as long as no account they hand an NFT to is a virtual
  one, and what happens otherwise.
\<close>

section \<open>Virtual accounts\<close>

text \<open>C26. An account decodes to an NFT exactly when it is the account that NFT encodes to: the two
  directions of \<^verbatim>\<open>nft_to_account_id\<close> and \<^verbatim>\<open>decode_nft_account_id\<close> are inverse to each other, for
  accounts of at least sixteen bytes.\<close>

theorem virtual_account_roundtrip:
  assumes "codec_laws E" "wide_accounts E"
  shows "decode_nft_account_id E a = Some k \<longleftrightarrow> nft_to_account_id E k = Some a"
  using decode_nft_to_account_id[OF assms] nft_to_account_id_decode[OF assms(1)] by blast

theorem virtual_account_roundtrip_witness:
  "decode_nft_account_id sample (virtual (7, 9)) = Some (7, 9)"
  using virtual_account_roundtrip[OF sample_codec sample_wide, of "virtual (7, 9)" "(7, 9)"] by simp

text \<open>Encoding an NFT never panics, and two NFTs never share an account.\<close>

theorem virtual_account_total:
  assumes "codec_laws E" "wide_accounts E"
  shows "(\<exists>a. nft_to_account_id E k = Some a) \<and>
    (nft_to_account_id E j = nft_to_account_id E k \<longleftrightarrow> j = k)"
proof -
  obtain a where a: "nft_to_account_id E k = Some a" "decode_nft_account_id E a = Some k"
    by (rule nft_to_account_id_total[OF assms])
  have "j = k" if "nft_to_account_id E j = nft_to_account_id E k"
  proof -
    have "nft_to_account_id E j = Some a" using that a(1) by (rule trans)
    from decode_nft_to_account_id[OF assms this] a(2) show ?thesis by (metis option.inject)
  qed
  with a(1) show ?thesis by metis
qed

theorem virtual_account_total_witness:
  "nft_to_account_id sample (0, 1) \<noteq> nft_to_account_id sample (1, 0)"
  using virtual_account_total[OF sample_codec sample_wide, of "(0, 1)" "(1, 0)"]
  by (metis prod.inject zero_neq_one)

section \<open>The walks\<close>

text \<open>C25. \<^verbatim>\<open>lookup_root_owner\<close> gives the account \<open>a\<close> and the NFT \<open>r\<close> exactly when \<open>r\<close> is the NFT itself
  or above it in the hierarchy, and \<open>a\<close> owns \<open>r\<close> and is not itself a virtual account; and it
  returns at all exactly when the chain of owners ends.\<close>

theorem lookup_root_owner_correct:
  "(lookup_root_owner E x k = Some (Inr (a, r)) \<longleftrightarrow>
      (k = r \<or> below (nft_parent E x) k r) \<and> uq_owner E x r = Some a \<and>
      decode_nft_account_id E a = None) \<and>
   (lookup_root_owner E x k \<noteq> None \<longleftrightarrow> grounded (nft_parent E x) k)"
  by (intro conjI root.walk_iff root.walk_returns)

text \<open>On a chain that ends, \<^verbatim>\<open>is_x_descendent_of_y\<close> returns, and says whether the second NFT is
  above the first one.\<close>

theorem is_x_descendent_of_y_correct:
  assumes "grounded (nft_parent E x) k"
  shows "is_x_descendent_of_y E x k y = Some (Inr (below (nft_parent E x) k y))"
  using assms by (rule descendent_returns)

theorem is_x_descendent_of_y_correct_witness:
  "is_x_descendent_of_y sample demo_ledger (0, 1) (0, 0) = Some (Inr True)"
proof -
  have p: "nft_parent sample demo_ledger (0, 1) = Some (0, 0)"
    "nft_parent sample demo_ledger (0, 0) = None"
    by (simp_all add: nft_parent_def)
  then have "grounded (nft_parent sample demo_ledger) (0, 1)"
    by (auto intro: grounded.intros)
  from is_x_descendent_of_y_correct[OF this, of "(0, 0)"] show ?thesis
    using below.direct[of "nft_parent sample demo_ledger", OF p(1)] by simp
qed

section \<open>Sample runs\<close>

lemma demo_parent: "nft_parent sample demo_ledger k = (if k = (0, 1) then Some (0, 0) else None)"
  by (auto simp: nft_parent_def demo_ledger_def)

lemma demo_lookups_finite: "\<forall>k. lookup_root_owner sample demo_ledger k \<noteq> None"
proof -
  have top: "grounded (nft_parent sample demo_ledger) k" if "k \<noteq> (0, 1)" for k
    using that by (intro grounded.ground) (simp add: demo_parent)
  have "grounded (nft_parent sample demo_ledger) (0, 1)"
    by (rule grounded.nested[of _ _ "(0, 0)"]) (simp_all add: demo_parent top)
  with top have "grounded (nft_parent sample demo_ledger) k" for k by (cases "k = (0, 1)") simp_all
  then show ?thesis using root.walk_returns[of sample demo_ledger] by metis
qed

lemma demo_send_owner:
  "send sample (Signed bob) (0, 2) (AccountId a) demo = Some (Inr (), s') \<Longrightarrow>
    uq_owner sample (ext s') (0, 2) = Some a"
  by (erule send_effect) (auto simp: success sample_transfer_def split: if_splits)

lemma demo_send:
  "\<exists>s'. send sample (Signed bob) (0, 2) (AccountId a) demo = Some (Inr (), s')"
  by (auto simp: send_def nft_send_def success store_sent_def sample_transfer_def is_locked_def)

section \<open>The hierarchy stays finite\<close>

text \<open>C15. As long as the accounts a call hands an NFT to are not virtual accounts, a call of rmrk-core
  keeps the hierarchy finite: if every lookup of a root owner returned before, every lookup returns
  after. Minting into an NFT, sending to an NFT and accepting an NFT are all covered, by the checks
  the code makes.\<close>

theorem core_calls_keep_lookups_finite:
  assumes laws: "codec_laws E" "wide_accounts E" "uniques_laws E"
    and finite: "\<forall>k. lookup_root_owner E (ext s) k \<noteq> None"
    and plain: "\<forall>b\<in>set (handed_to org c). decode_nft_account_id E b = None"
    and run: "core_dispatch E org c s = Some (Inr (), s')"
  shows "\<forall>k. lookup_root_owner E (ext s') k \<noteq> None"
  by (rule core_keeps_nesting[OF laws _ plain run, unfolded nesting_ok_lookup]) (rule finite)

theorem core_calls_keep_lookups_finite_witness:
  "\<exists>s'. core_dispatch sample (Signed bob) (Send (0, 2) (AccountId charlie)) demo = Some (Inr (), s') \<and>
     (\<forall>k. lookup_root_owner sample (ext s') k \<noteq> None)"
proof -
  obtain s' where run: "core_dispatch sample (Signed bob) (Send (0, 2) (AccountId charlie)) demo
      = Some (Inr (), s')"
    using demo_send by auto
  have "\<forall>k. lookup_root_owner sample (ext s') k \<noteq> None"
    by (rule core_calls_keep_lookups_finite[OF sample_codec sample_wide sample_uniques _ _ run])
      (simp_all add: demo_lookups_finite del: split_paired_All)
  with run show ?thesis by blast
qed

text \<open>C31. The check that stops an NFT from being sent into itself is only made for destinations that
  are named as NFTs. The root owner of a transferable NFT that is not equipped can send it to the
  account its own identifiers encode to, if \<^verbatim>\<open>pallet_uniques\<close> makes the transfer: the call succeeds, and
  from then on looking up its root owner never returns, nor does any attempt to burn the NFT or to
  send it on.\<close>

theorem send_to_own_virtual_account_diverges:
  assumes laws: "codec_laws E" "wide_accounts E" "uniques_laws E"
    and own: "nft_to_account_id E k = Some acc"
    and may: "lookup_root_owner E (ext s) k = Some (Inr (a, root))" "nfts s k = Some nft"
      "transferable nft" "\<not> equipped nft"
    and moved: "uq_do_transfer E (lock s) k acc (ext s) = (Inr (), x)"
  shows "\<exists>s'. send E (Signed a) k (AccountId acc) s = Some (Inr (), s') \<and>
    lookup_root_owner E (ext s') k = None \<and> burn_nft E (Signed b) k m s' = None \<and>
    send E (Signed b) k ow s' = None"
proof -
  obtain cur where cur: "uq_owner E (ext s) k = Some cur"
    using may(1) by (cases "uq_owner E (ext s) k") simp_all
  have locks: "is_locked t = lock t" for t :: "('a, 'c, 'd) core_state_scheme"
    by (rule ext) (simp add: is_locked_def)
  have "\<exists>s'. send E (Signed a) k (AccountId acc) s = Some (Inr (), s') \<and> ext s' = x"
    using may cur moved
    by (auto simp: send_def nft_send_def success success_store_sent uniques_transfer_def locks)
  then obtain s' where run: "send E (Signed a) k (AccountId acc) s = Some (Inr (), s')" "ext s' = x"
    by blast
  have "uq_owner E x = (uq_owner E (ext s))(k := Some acc)"
    by (rule uniques_transfer(2)[OF laws(3) moved])
  then have self: "nft_parent E x k = Some k" "uq_owner E x k = Some acc"
    using nft_parent_update(1)[of E x "ext s" k acc] decode_nft_to_account_id[OF laws(1,2) own]
    by simp_all
  have "lookup_root_owner E (ext s') k = None"
    using root.walk_cycle[of E x k] self(1) run(2) by (simp add: below.direct)
  moreover from this have "burn_nft E (Signed b) k m s' = None"
    "send E (Signed b) k ow s' = None"
    using self(2) run(2) by (simp_all add: burn_nft_def send_def nft_send_def root_ownerM_def run_simps)
  ultimately show ?thesis using run(1) by blast
qed

theorem send_to_own_virtual_account_diverges_witness:
  "\<exists>s'. send sample (Signed bob) (0, 2) (AccountId (virtual (0, 2))) demo = Some (Inr (), s') \<and>
     burn_nft sample (Signed bob) (0, 2) 1 s' = None"
proof -
  have "\<exists>x. uq_do_transfer sample (lock demo) (0, 2) (virtual (0, 2)) (ext demo) = (Inr (), x)"
    by (simp add: sample_transfer_def)
  then obtain x where moved: "uq_do_transfer sample (lock demo) (0, 2) (virtual (0, 2)) (ext demo) = (Inr (), x)"
    by blast
  have "lookup_root_owner sample (ext demo) (0, 2) = Some (Inr (bob, (0, 2)))" by simp
  from send_to_own_virtual_account_diverges[OF sample_codec sample_wide sample_uniques
      sample_virtual this demo_simps(9) _ _ moved, of bob 1]
  show ?thesis by auto
qed

text \<open>C13. Only the account that root-owns an NFT changes its owner in \<^verbatim>\<open>pallet_uniques\<close> through a call
  of rmrk-core, for any call and any caller; and while the NFT is locked (listed for sale) nothing
  but burning it does.\<close>

theorem only_root_owner_moves_an_nft:
  assumes "uniques_laws E" "core_dispatch E org c s = Some (Inr (), s')"
    and "uq_owner E (ext s) k \<noteq> None" "uq_owner E (ext s') k \<noteq> uq_owner E (ext s) k"
  shows "\<exists>a root. org = Signed a \<and> lookup_root_owner E (ext s) k = Some (Inr (a, root)) \<and>
    ((\<exists>m. c = BurnNft k m) \<or> \<not> lock s k)"
  using core_call_owners[OF assms(1,2)]
proof (cases rule: owner_change.cases)
  case kept
  then show ?thesis using assms(4) by simp
next
  case (minted j b)
  then have "j = k" using assms(4) by (auto split: if_splits)
  then show ?thesis using minted(1) assms(3) by simp
next
  case (burned a j root m)
  then have "j = k" using assms(4) by (auto split: if_splits)
  then show ?thesis using burned by blast
next
  case (moved a j root b)
  then have "j = k" using assms(4) by (auto split: if_splits)
  then show ?thesis using moved by blast
qed

theorem only_root_owner_moves_an_nft_witness:
  "\<exists>s'. core_dispatch sample (Signed bob) (Send (0, 2) (AccountId alice)) demo = Some (Inr (), s') \<and>
     (\<exists>a root. Signed bob = Signed a \<and>
       lookup_root_owner sample (ext demo) (0, 2) = Some (Inr (a, root)))"
proof -
  obtain s' where run: "core_dispatch sample (Signed bob) (Send (0, 2) (AccountId alice)) demo
      = Some (Inr (), s')"
    using demo_send by auto
  have "uq_owner sample (ext s') (0, 2) \<noteq> uq_owner sample (ext demo) (0, 2)"
    using demo_send_owner run by simp
  with only_root_owner_moves_an_nft[OF sample_uniques run] run show ?thesis by auto
qed

end
