(* ===== verification/Burn_Limit.thy ===== *)
theory Burn_Limit
  imports Burn_Effect
begin

text \<open>
  When a burn stays within its limit. \<open>nested_within s d k\<close>: no chain of children that starts at \<open>k\<close> has
  more than \<open>d\<close> NFTs. A burn within this depth succeeds; in a forest, where no NFT is among the
  children of two others, a deeper one fails with \<^verbatim>\<open>TooManyRecursions\<close>.
\<close>

primrec nested_within :: "('a, 'x, 'z) core_state_scheme \<Rightarrow> nat \<Rightarrow> nft \<Rightarrow> bool" where
  "nested_within s 0 k = False"
| "nested_within s (Suc d) k = (\<forall>c\<in>set (children s k). nested_within s d c)"

text \<open>It depends only on the children at and below the NFT.\<close>

lemma nested_within_mono:
  assumes "\<And>q. set (children t q) \<subseteq> set (children s q)" "nested_within s d k"
  shows "nested_within t d k"
  using assms(2)
proof (induction d arbitrary: k)
  case (Suc d)
  then show ?case using assms(1)[of k] by (auto simp del: split_paired_All)
qed simp

lemma nested_within_cong:
  assumes "\<And>q. child_reach s k q \<Longrightarrow> set (children t q) = set (children s q)"
  shows "nested_within t d k \<longleftrightarrow> nested_within s d k"
  using assms
proof (induction d arbitrary: k)
  case (Suc d)
  have "nested_within t d c \<longleftrightarrow> nested_within s d c" if "c \<in> set (children s k)" for c
    using Suc.prems that by (intro Suc.IH) (blast intro: converse_rtranclp_into_rtranclp)
  then show ?case using Suc.prems[OF rtranclp.rtrancl_refl] by simp
qed simp

section \<open>The first step of a burn\<close>

text \<open>
  A burn takes the NFT out of the children of its recorded owner and removes its record; the rest
  happens to the children that are left. All collections that exist stay.
\<close>

lemma burn_head:
  obtains t where "nft_burn_rec E (Suc d) k s =
      seqM (drain_children (nft_burn_rec E d) k (iter_order E (children t k))) (decrement_nfts_count (fst k)) t"
    "\<And>q. set (children t q) \<subseteq> set (children s q)"
    "\<And>q. set (children s q) - {k} \<subseteq> set (children t q)" "collections t = collections s"
proof -
  obtain s1 where s1: "unlink_from_owner k s = Some (Inr (), s1)" "collections s1 = collections s"
    "\<And>q. set (children s1 q) \<subseteq> set (children s q)" "\<And>q. set (children s q) - {k} \<subseteq> set (children s1 q)"
  proof (cases "nfts s k")
    case None
    then show ?thesis by (intro that[of s]) (auto simp: unlink_from_owner_def run_simps)
  next
    case (Some nft)
    show ?thesis
    proof (cases "nft_owner nft")
      case (AccountId a)
      with Some show ?thesis by (intro that[of s]) (auto simp: unlink_from_owner_def run_simps)
    next
      case (CollectionAndNftTuple c n)
      with Some show ?thesis
        by (intro that[of "s\<lparr>children := (children s)((c, n) := removeAll k (children s (c, n)))\<rparr>"])
          (auto simp: unlink_from_owner_def remove_child_def run_simps)
    qed
  qed
  show ?thesis
    by (rule that[of "s1\<lparr>nfts := (nfts s1)(k := None), resources := remove_prefix k (resources s1)\<rparr>"])
      (use s1 in \<open>auto simp: run_simps seqM_def\<close>)
qed

lemma burn_keeps_collections: "keeps (\<lambda>s. collections s c \<noteq> None) (nft_burn_rec E d k)"
  by (rule keeps_nft_burn_rec) auto

text \<open>What a successful burn leaves of the children, and of the collections.\<close>

lemma burn_leaves:
  assumes "iteration_laws E" "nft_burn_rec E d k s = Some (Inr u, s')"
  shows "set (children s' q) \<subseteq> set (children s q)"
    "x \<in> set (children s q) \<Longrightarrow> \<not> child_reach s k x \<Longrightarrow> x \<in> set (children s' q)"
    "collections s c \<noteq> None \<Longrightarrow> collections s' c \<noteq> None"
proof -
  obtain B where "burns k s s' B" using nft_burn_rec_burns[OF assms] by blast
  then show "set (children s' q) \<subseteq> set (children s q)"
    "x \<in> set (children s q) \<Longrightarrow> \<not> child_reach s k x \<Longrightarrow> x \<in> set (children s' q)"
    unfolding burns_def burned_set_def by blast+
  show "collections s c \<noteq> None \<Longrightarrow> collections s' c \<noteq> None"
    using keepsD[OF burn_keeps_collections assms(2)] by simp
qed

section \<open>Within the limit\<close>

text \<open>The collections of the NFT and of everything below it exist.\<close>

definition housed_below :: "('a, 'x, 'z) core_state_scheme \<Rightarrow> nft \<Rightarrow> bool" where
  "housed_below s k \<longleftrightarrow> (\<forall>j. child_reach s k j \<longrightarrow> collections s (fst j) \<noteq> None)"

lemma housed_below_mono:
  assumes "\<And>q. set (children t q) \<subseteq> set (children s q)"
    "\<And>c. collections s c \<noteq> None \<Longrightarrow> collections t c \<noteq> None" "housed_below s k"
  shows "housed_below t k"
  unfolding housed_below_def
proof (intro allI impI)
  fix j assume "child_reach t k j"
  then have "child_reach s k j"
    by (rule rtranclp_mono[THEN predicate2D, rotated]) (use assms(1) in blast)
  then show "collections t (fst j) \<noteq> None" using assms(2,3) unfolding housed_below_def by blast
qed

lemma housed_below_child:
  "housed_below s k \<Longrightarrow> c \<in> set (children s k) \<Longrightarrow> housed_below s c"
  unfolding housed_below_def by (blast intro: converse_rtranclp_into_rtranclp)

lemma drain_succeeds:
  fixes E :: "('a, 'l, 'x) env" and t :: "('a, 'x, 'z) core_state_scheme"
  assumes iter: "iteration_laws E"
    and body: "\<And>c (t :: ('a, 'x, 'z) core_state_scheme). nested_within t d c \<Longrightarrow> housed_below t c \<Longrightarrow>
      \<exists>t'. nft_burn_rec E d c t = Some (Inr (), t')"
  shows "nested_within t (Suc d) k \<Longrightarrow> housed_below t k \<Longrightarrow>
    \<exists>t'. drain_children (nft_burn_rec E d) k ks t = Some (Inr (), t') \<and> collections t' (fst k) \<noteq> None"
proof (induction ks arbitrary: t)
  case Nil
  then have "collections t (fst k) \<noteq> None" unfolding housed_below_def by blast
  then show ?case by (simp add: run_simps)
next
  case (Cons c ks)
  show ?case
  proof (cases "c \<in> set (children t k)")
    case True
    let ?t1 = "t\<lparr>children := (children t)(k := removeAll c (children t k))\<rparr>"
    have sub: "set (children ?t1 q) \<subseteq> set (children t q)" for q by auto
    have "nested_within t d c" using Cons.prems(1) True by simp
    then have "nested_within ?t1 d c" by (rule nested_within_mono[OF sub])
    moreover have "housed_below ?t1 c"
      using housed_below_mono[OF sub _ housed_below_child[OF Cons.prems(2) True]] by simp
    ultimately obtain t2 where t2: "nft_burn_rec E d c ?t1 = Some (Inr (), t2)" using body by blast
    note left = burn_leaves[OF iter t2]
    have sub2: "set (children t2 q) \<subseteq> set (children t q)" for q
      using left(1)[of q] sub[of q] by (rule subset_trans)
    have "nested_within t2 (Suc d) k" by (rule nested_within_mono[OF sub2 Cons.prems(1)])
    moreover have "housed_below t2 k"
      by (rule housed_below_mono[OF sub2 _ Cons.prems(2)]) (rule left(3), simp)
    ultimately show ?thesis
      using Cons.IH[of t2] True t2 by (auto simp: run_simps remove_child_def)
  next
    case False
    then show ?thesis using Cons.IH[OF Cons.prems] by (simp add: run_simps)
  qed
qed

lemma burn_within_limit:
  fixes E :: "('a, 'l, 'x) env" and s :: "('a, 'x, 'z) core_state_scheme"
  assumes iter: "iteration_laws E"
  shows "nested_within s d k \<Longrightarrow> housed_below s k \<Longrightarrow> \<exists>s'. nft_burn_rec E d k s = Some (Inr (), s')"
proof (induction d arbitrary: k s)
  case (Suc d)
  obtain t where t: "nft_burn_rec E (Suc d) k s =
      seqM (drain_children (nft_burn_rec E d) k (iter_order E (children t k))) (decrement_nfts_count (fst k)) t"
    "\<And>q. set (children t q) \<subseteq> set (children s q)" "collections t = collections s"
    using burn_head[of E d k s] by metis
  have "nested_within t (Suc d) k" "housed_below t k"
    using nested_within_mono[OF t(2) Suc.prems(1)] housed_below_mono[OF t(2) _ Suc.prems(2)] t(3)
    by simp_all
  from drain_succeeds[OF iter Suc.IH this] obtain t' where
    "drain_children (nft_burn_rec E d) k (iter_order E (children t k)) t = Some (Inr (), t')"
    "collections t' (fst k) \<noteq> None" by blast
  then show ?case unfolding t(1) by (auto simp: run_simps decrement_nfts_count_def)
qed simp

section \<open>Beyond the limit\<close>

text \<open>No NFT is among the children of two others.\<close>

definition forest :: "('a, 'x, 'z) core_state_scheme \<Rightarrow> bool" where
  "forest s \<longleftrightarrow> (\<forall>p q c. c \<in> set (children s p) \<longrightarrow> c \<in> set (children s q) \<longrightarrow> p = q)"

definition below_itself :: "('a, 'x, 'z) core_state_scheme \<Rightarrow> nft \<Rightarrow> bool" where
  "below_itself s k \<longleftrightarrow> (\<exists>c\<in>set (children s k). child_reach s c k)"

lemma forest_mono:
  "(\<And>q. set (children t q) \<subseteq> set (children s q)) \<Longrightarrow> forest s \<Longrightarrow> forest t"
  unfolding forest_def by blast

lemma reach_mono:
  assumes "\<And>q. set (children t q) \<subseteq> set (children s q)"
  shows "child_reach t p c \<Longrightarrow> child_reach s p c" "below_itself t k \<Longrightarrow> below_itself s k"
proof -
  show reach: "child_reach t p c \<Longrightarrow> child_reach s p c" for p c
    using assms by (elim rtranclp_mono[THEN predicate2D, rotated]) blast
  show "below_itself t k \<Longrightarrow> below_itself s k"
    using assms reach unfolding below_itself_def by blast
qed

text \<open>Of two NFTs above a third one, one is above the other.\<close>

lemma above_comparable:
  assumes "forest s" "child_reach s a q" "child_reach s b q"
  shows "child_reach s a b \<or> child_reach s b a"
  using assms(2,3)
proof (induction rule: rtranclp_induct)
  case (step y z)
  from step.prems show ?case
  proof (cases rule: rtranclp.cases)
    case rtrancl_refl
    then show ?thesis using step.hyps by (blast intro: rtranclp.rtrancl_into_rtrancl)
  next
    case (rtrancl_into_rtrancl y')
    then have "y' = y" using assms(1) step.hyps(2) unfolding forest_def by blast
    then show ?thesis using rtrancl_into_rtrancl step.IH by blast
  qed
qed simp

text \<open>
  In a forest, two children \<open>c\<close> and \<open>c'\<close> of an NFT that is not below itself have nothing in common
  below them, and \<open>c\<close> is not below itself.
\<close>

lemma siblings_apart:
  assumes "forest s" "\<not> below_itself s k" "c \<in> set (children s k)" "c' \<in> set (children s k)" "c \<noteq> c'"
    and "child_reach s c q"
  shows "\<not> child_reach s c' q"
proof
  have up: "child_reach s a k" if "child_reach s a b" "b \<in> set (children s k)" "a \<noteq> b" for a b
    using that(1)
  proof (cases rule: rtranclp.cases)
    case (rtrancl_into_rtrancl y)
    then have "y = k" using assms(1) that(2) unfolding forest_def by blast
    then show ?thesis using rtrancl_into_rtrancl by simp
  qed (use that(3) in simp)
  assume "child_reach s c' q"
  then have "child_reach s c k \<or> child_reach s c' k"
    using above_comparable[OF assms(1,6)] up assms(3-5) by blast
  then show False using assms(2-4) unfolding below_itself_def by blast
qed

lemma child_not_below_itself:
  assumes "forest s" "\<not> below_itself s k" "c \<in> set (children s k)"
  shows "\<not> below_itself s c"
proof
  assume "below_itself s c"
  then obtain y where y: "y \<in> set (children s c)" "child_reach s y c" unfolding below_itself_def by blast
  from y(2) have "child_reach s c k"
  proof (cases rule: rtranclp.cases)
    case rtrancl_refl
    then show ?thesis using assms(1,3) y(1) unfolding forest_def by blast
  next
    case (rtrancl_into_rtrancl p)
    then have "p = k" using assms(1,3) unfolding forest_def by blast
    then show ?thesis using y(1) rtrancl_into_rtrancl by (blast intro: converse_rtranclp_into_rtranclp)
  qed
  with assms(2,3) show False unfolding below_itself_def by blast
qed

text \<open>A loop over children one of which lies too deep fails, whichever comes first.\<close>

lemma drain_fails:
  fixes E :: "('a, 'l, 'x) env" and t :: "('a, 'x, 'z) core_state_scheme"
  assumes iter: "iteration_laws E"
    and body: "\<And>c (t :: ('a, 'x, 'z) core_state_scheme). forest t \<Longrightarrow> \<not> below_itself t c \<Longrightarrow>
      housed_below t c \<Longrightarrow> \<not> nested_within t d c \<Longrightarrow>
      \<exists>t'. nft_burn_rec E d c t = Some (Inl (CoreError TooManyRecursions), t')"
  shows "forest t \<Longrightarrow> \<not> below_itself t k \<Longrightarrow> housed_below t k \<Longrightarrow>
    deep \<in> set ks \<Longrightarrow> deep \<in> set (children t k) \<Longrightarrow> \<not> nested_within t d deep \<Longrightarrow>
    \<exists>t'. drain_children (nft_burn_rec E d) k ks t = Some (Inl (CoreError TooManyRecursions), t')"
proof (induction ks arbitrary: t)
  case (Cons c ks)
  note forest = Cons.prems(1) and acyclic = Cons.prems(2) and deep = Cons.prems(5)
  show ?case
  proof (cases "c \<in> set (children t k)")
    case c: True
    let ?t1 = "t\<lparr>children := (children t)(k := removeAll c (children t k))\<rparr>"
    have sub: "set (children ?t1 q) \<subseteq> set (children t q)" for q by auto
    have "q \<noteq> k" if "child_reach t c' q" "c' \<in> set (children t k)" for q c'
      using acyclic that unfolding below_itself_def by blast
    then have same: "nested_within ?t1 d c' \<longleftrightarrow> nested_within t d c'" if "c' \<in> set (children t k)" for c'
      using that by (intro nested_within_cong) simp
    have housed: "housed_below ?t1 c"
      using housed_below_mono[OF sub _ housed_below_child[OF Cons.prems(3) c]] by simp
    show ?thesis
    proof (cases "nested_within ?t1 d c")
      case True
      then have "deep \<noteq> c" using same[OF c] Cons.prems(6) by blast
      obtain t2 where t2: "nft_burn_rec E d c ?t1 = Some (Inr (), t2)"
        using burn_within_limit[OF iter True housed] by blast
      note left = burn_leaves[OF iter t2]
      have sub2: "set (children t2 q) \<subseteq> set (children t q)" for q
        using left(1)[of q] sub[of q] by (rule subset_trans)
      have apart: "\<not> child_reach ?t1 c x" if "child_reach t deep x" for x
        using siblings_apart[OF forest acyclic deep c \<open>deep \<noteq> c\<close> that] reach_mono(1)[OF sub] by blast
      have "set (children t q) \<subseteq> set (children t2 q)" if q: "child_reach t deep q" for q
      proof
        fix x assume x: "x \<in> set (children t q)"
        with q have "child_reach t deep x" by (rule rtranclp.rtrancl_into_rtrancl)
        moreover have "q \<noteq> k" using acyclic q deep unfolding below_itself_def by blast
        ultimately show "x \<in> set (children t2 q)" using left(2)[OF _ apart] x by simp
      qed
      with sub2 have "nested_within t2 d deep \<longleftrightarrow> nested_within t d deep"
        by (intro nested_within_cong) blast
      moreover have "deep \<in> set (children t2 k)"
        using deep \<open>deep \<noteq> c\<close> by (intro left(2)[OF _ apart]) auto
      moreover have "housed_below t2 k"
        by (rule housed_below_mono[OF sub2 _ Cons.prems(3)]) (rule left(3), simp)
      ultimately have "\<exists>t'. drain_children (nft_burn_rec E d) k ks t2 = Some (Inl (CoreError TooManyRecursions), t')"
        using Cons.prems(4,6) \<open>deep \<noteq> c\<close> forest_mono[OF sub2 forest] reach_mono(2)[OF sub2, where k = k] acyclic
        by (intro Cons.IH) auto
      then show ?thesis using c t2 by (simp add: run_simps remove_child_def)
    next
      case False
      have "\<not> below_itself ?t1 c"
        using child_not_below_itself[OF forest acyclic c] reach_mono(2)[OF sub] by blast
      from body[OF forest_mono[OF sub forest] this housed False] show ?thesis
        using c by (auto simp: run_simps remove_child_def)
    qed
  next
    case False
    then show ?thesis using Cons.IH[of t] Cons.prems by (auto simp: run_simps)
  qed
qed simp

lemma burn_beyond_limit:
  fixes E :: "('a, 'l, 'x) env" and s :: "('a, 'x, 'z) core_state_scheme"
  assumes iter: "iteration_laws E"
  shows "forest s \<Longrightarrow> \<not> below_itself s k \<Longrightarrow> housed_below s k \<Longrightarrow> \<not> nested_within s d k \<Longrightarrow>
    \<exists>s'. nft_burn_rec E d k s = Some (Inl (CoreError TooManyRecursions), s')"
proof (induction d arbitrary: k s)
  case 0
  then show ?case by (simp add: run_simps)
next
  case (Suc d)
  obtain t where t: "nft_burn_rec E (Suc d) k s =
      seqM (drain_children (nft_burn_rec E d) k (iter_order E (children t k))) (decrement_nfts_count (fst k)) t"
    "\<And>q. set (children t q) \<subseteq> set (children s q)"
    "\<And>q. set (children s q) - {k} \<subseteq> set (children t q)" "collections t = collections s"
    using burn_head[of E d k s] by metis
  have below: "x \<noteq> k" if "child_reach s c x" "c \<in> set (children s k)" for x c
    using Suc.prems(2) that unfolding below_itself_def by blast
  obtain deep where deep: "deep \<in> set (children s k)" "\<not> nested_within s d deep"
    using Suc.prems(4) by auto
  have "set (children t q) = set (children s q)" if "child_reach s deep q" for q
    using t(2,3)[of q] below[OF rtranclp.rtrancl_into_rtrancl[OF that] deep(1)] by blast
  then have "\<not> nested_within t d deep" using deep(2) nested_within_cong[of s deep t d] by blast
  moreover have "deep \<in> set (children t k)"
    using deep(1) t(3)[of k] below[OF rtranclp.rtrancl_refl deep(1)] by blast
  moreover have "housed_below t k"
    using housed_below_mono[OF t(2) _ Suc.prems(3)] t(4) by simp
  moreover have "set (iter_order E (children t k)) = set (children t k)"
    using iter by (simp add: iteration_laws_def)
  ultimately have "\<exists>t'. drain_children (nft_burn_rec E d) k (iter_order E (children t k)) t
      = Some (Inl (CoreError TooManyRecursions), t')"
    using forest_mono[OF t(2) Suc.prems(1)] reach_mono(2)[OF t(2), where k = k] Suc.prems(2)
    by (intro drain_fails[OF iter Suc.IH, where deep = deep]) auto
  then show ?case unfolding t(1) by (auto simp: run_simps)
qed

end
