(* ===== verification/Nft_Props.thy ===== *)
theory Nft_Props
  imports Ownership_Props Burn_Limit
begin

text \<open>
  Properties of minting, sending, accepting, rejecting and burning NFTs.
\<close>

section \<open>Minting\<close>

text \<open>C23. A successful \<^verbatim>\<open>mint_nft\<close>: the caller owns the collection in \<^verbatim>\<open>pallet_uniques\<close>; the new NFT has
  the next identifier of the collection, which is below the collection's maximum and not owned by
  anyone; its record is the one the arguments ask for, pending exactly when it goes to somebody
  else; the counter and the count go up by one without wrapping; every other NFT, owner and child
  is untouched.\<close>

theorem mint_nft_correct:
  assumes "uniques_laws E" "mint_nft E org owner c rcp am md tr ress s = Some (Inr (), s')"
  shows "\<exists>a col. org = Signed a \<and> uq_collection_owner E (ext s) c = Some a \<and>
    collections s c = Some col \<and>
    (let n = next_nft_id s c; ow = mint_owner a owner in
      (\<forall>mx. col_max col = Some mx \<longrightarrow> n < mx) \<and> n < n + 1 \<and> nfts_count col < nfts_count col + 1 \<and>
      nfts s' = (nfts s)((c, n) \<mapsto> \<lparr>nft_owner = AccountId ow, royalty = mint_royalty a rcp am,
        nft_metadata = md, equipped = False, nft_pending = (ow \<noteq> a), transferable = tr\<rparr>) \<and>
      next_nft_id s' = (next_nft_id s)(c := n + 1) \<and>
      collections s' = (collections s)(c \<mapsto> col\<lparr>nfts_count := nfts_count col + 1\<rparr>) \<and>
      uq_owner E (ext s) (c, n) = None \<and>
      uq_owner E (ext s') = (uq_owner E (ext s))((c, n) \<mapsto> ow) \<and> children s' = children s)"
  using assms(2)
proof (rule mint_nft_effect)
  fix a n col x t
  assume eff: "org = Signed a" "n = next_nft_id s c" "n \<noteq> - 1"
    "uq_collection_owner E (ext s) c = Some a" "collections s c = Some col"
    "\<And>mx. col_max col = Some mx \<Longrightarrow> n < mx" "nfts_count col \<noteq> - 1"
    "uq_do_mint E (c, n) (mint_owner a owner) (ext s) = (Inr (), x)"
    "add_mint_resources E a (c, n) ress
      (s\<lparr>next_nft_id := (next_nft_id s)(c := n + 1),
         collections := (collections s)(c \<mapsto> col\<lparr>nfts_count := nfts_count col + 1\<rparr>),
         nfts := (nfts s)((c, n) \<mapsto> \<lparr>nft_owner = AccountId (mint_owner a owner),
           royalty = mint_royalty a rcp am, nft_metadata = md, equipped = False,
           nft_pending = (mint_owner a owner \<noteq> a), transferable = tr\<rparr>), ext := x\<rparr>)
      = Some (Inr (), t)"
    "s' = t\<lparr>events := events s @ [CoreEvent (NftMinted (AccountId (mint_owner a owner)) c n)]\<rparr>"
  show ?thesis
    using eff add_mint_resources_frame[OF eff(9)] uniques_mint[OF assms(1) eff(8)]
      less_plus_one_u32[OF eff(3)] less_plus_one_u32[OF eff(7)]
    by (intro exI[of _ a] exI[of _ col]) (simp add: Let_def)
qed

lemma demo_mint:
  "\<exists>s'. mint_nft sample (Signed alice) owner 0 rcp am md tr None demo = Some (Inr (), s')"
  by (auto simp: mint_nft_def success sample_mint_def add_mint_resources_def Let_def
      split: option.splits)

theorem mint_nft_correct_witness:
  "\<exists>s'. mint_nft sample (Signed alice) (Some bob) 0 None None [] True None demo = Some (Inr (), s') \<and>
     uq_owner sample (ext s') (0, 3) = Some bob \<and> next_nft_id s' 0 = 4"
proof -
  obtain s' where run: "mint_nft sample (Signed alice) (Some bob) 0 None None [] True None demo
      = Some (Inr (), s')"
    using demo_mint by blast
  with mint_nft_correct[OF sample_uniques run] show ?thesis
    by (auto simp: Let_def mint_owner_def)
qed

text \<open>\<^verbatim>\<open>mint_nft_directly_to_nft\<close> makes the parent's virtual account the owner of the new NFT, so
  the new NFT is nested in the parent, but it does not enter it among the parent's \<^verbatim>\<open>Children\<close>.\<close>

theorem mint_directly_does_not_register_the_child:
  assumes laws: "codec_laws E" "wide_accounts E" "uniques_laws E"
    and run: "mint_nft_directly_to_nft E org p c rcp am md tr ress s = Some (Inr (), s')"
  shows "nft_parent E (ext s') (c, next_nft_id s c) = Some p \<and> children s' = children s"
  using run
proof (rule mint_directly_effect)
  fix a n col owner r acc x t
  assume eff: "n = next_nft_id s c" "nft_to_account_id E p = Some acc"
    "uq_do_mint E (c, n) acc (ext s) = (Inr (), x)"
    "add_mint_resources E a (c, n) ress
      (s\<lparr>next_nft_id := (next_nft_id s)(c := n + 1),
         collections := (collections s)(c \<mapsto> col\<lparr>nfts_count := nfts_count col + 1\<rparr>),
         nfts := (nfts s)((c, n) \<mapsto> \<lparr>nft_owner = CollectionAndNftTuple (fst p) (snd p),
           royalty = mint_royalty owner rcp am, nft_metadata = md, equipped = False,
           nft_pending = (owner \<noteq> a), transferable = tr\<rparr>), ext := x\<rparr>)
      = Some (Inr (), t)"
    "s' = t\<lparr>events := events s @ [CoreEvent (NftMinted (CollectionAndNftTuple (fst p) (snd p)) c n)]\<rparr>"
  show ?thesis
    using eff(1,5) add_mint_resources_frame[OF eff(4)] nft_parent_update(1)[OF uniques_mint(2)[OF laws(3) eff(3)]]
      decode_nft_to_account_id[OF laws(1,2) eff(2)]
    by simp
qed

lemma demo_mint_directly:
  "\<exists>s'. mint_nft_directly_to_nft sample (Signed alice) (0, 0) 0 rcp am md tr None demo
     = Some (Inr (), s')"
  by (auto simp: mint_nft_directly_to_nft_def success sample_mint_def add_mint_resources_def)

theorem mint_directly_does_not_register_the_child_witness:
  "\<exists>s'. mint_nft_directly_to_nft sample (Signed alice) (0, 0) 0 None None [] True None demo
      = Some (Inr (), s') \<and> nft_parent sample (ext s') (0, 3) = Some (0, 0) \<and>
     (0, 3) \<notin> set (children s' (0, 0))"
proof -
  obtain s' where run: "mint_nft_directly_to_nft sample (Signed alice) (0, 0) 0 None None [] True
      None demo = Some (Inr (), s')"
    using demo_mint_directly by blast
  with mint_directly_does_not_register_the_child[OF sample_codec sample_wide sample_uniques run]
  show ?thesis by simp
qed

section \<open>Sending\<close>

text \<open>A successful \<^verbatim>\<open>send\<close> to an ordinary account: the caller root-owns the NFT, which is
  transferable, not equipped and not locked; its record and its owner in \<^verbatim>\<open>pallet_uniques\<close> both
  name the account, it leaves the children of the NFT that owned it, and nothing else of the NFTs,
  owners and children changes.\<close>

theorem send_to_account_correct:
  assumes "uniques_laws E" "decode_nft_account_id E b = None"
    and "send E org k (AccountId b) s = Some (Inr (), s')"
  shows "\<exists>a root nft cur. org = Signed a \<and>
    lookup_root_owner E (ext s) k = Some (Inr (a, root)) \<and> uq_owner E (ext s) k = Some cur \<and>
    nfts s k = Some nft \<and> transferable nft \<and> \<not> equipped nft \<and> \<not> lock s k \<and>
    nfts s' = (nfts s)(k \<mapsto> nft\<lparr>nft_owner := AccountId b\<rparr>) \<and>
    uq_owner E (ext s') = (uq_owner E (ext s))(k \<mapsto> b) \<and>
    children s' = (case decode_nft_account_id E cur of None \<Rightarrow> children s
      | Some p \<Rightarrow> (children s)(p := removeAll k (children s p)))"
  using assms(3)
proof (rule send_effect)
  fix a root cur nft acc ask x
  assume eff: "org = Signed a" "lookup_root_owner E (ext s) k = Some (Inr (a, root))"
    "uq_owner E (ext s) k = Some cur" "nfts s k = Some nft" "transferable nft" "\<not> equipped nft"
    "send_target E k a (AccountId b) s = Some (Inr (acc, ask), s)"
    "uq_do_transfer E (lock s) k acc (ext s) = (Inr (), x)"
    "s' = s\<lparr>nfts := (nfts s)(k \<mapsto> sent_record (AccountId b) ask nft),
           children := moved_children E k cur acc (children s), ext := x,
           events := events s @ [CoreEvent (NFTSent a (AccountId b) (fst k) (snd k) ask)]\<rparr>"
  have "acc = b" "\<not> ask" using eff(7) by (simp_all add: success)
  then show ?thesis
    using eff uniques_transfer[OF assms(1) eff(8)] assms(2)
    by (intro exI[of _ a] exI[of _ root] exI[of _ nft] exI[of _ cur])
      (simp add: sent_record_def moved_children_def)
qed

theorem send_to_account_correct_witness:
  "\<exists>s'. send sample (Signed bob) (0, 2) (AccountId charlie) demo = Some (Inr (), s') \<and>
     uq_owner sample (ext s') (0, 2) = Some charlie \<and>
     nfts s' (0, 2) = Some (plain_nft (AccountId charlie))"
proof -
  obtain s' where run: "send sample (Signed bob) (0, 2) (AccountId charlie) demo = Some (Inr (), s')"
    using demo_send by blast
  from send_to_account_correct[OF sample_uniques _ run] run show ?thesis
    by (auto simp: plain_nft_def)
qed

lemma sent_to_nft:
  assumes laws: "codec_laws E" "wide_accounts E" "uniques_laws E"
    and run: "send E org k (CollectionAndNftTuple c n) s = Some (Inr (), s')"
  shows "\<exists>a root nft owner t. org = Signed a \<and>
    lookup_root_owner E (ext s) k = Some (Inr (a, root)) \<and>
    lookup_root_owner E (ext s) (c, n) = Some (Inr (owner, t)) \<and>
    nfts s k = Some nft \<and> transferable nft \<and> \<not> equipped nft \<and> \<not> lock s k \<and>
    nfts s (c, n) \<noteq> None \<and> k \<noteq> (c, n) \<and> \<not> below (nft_parent E (ext s)) (c, n) k \<and>
    nfts s' = (nfts s)(k \<mapsto> (if owner = a then nft\<lparr>nft_owner := CollectionAndNftTuple c n\<rparr>
      else nft\<lparr>nft_pending := True\<rparr>)) \<and>
    nft_parent E (ext s') = (nft_parent E (ext s))(k \<mapsto> (c, n)) \<and>
    (\<forall>p. set (children s' p) =
      (if p = (c, n) then insert k (set (children s p))
       else if nft_parent E (ext s) k = Some p then set (children s p) - {k}
       else set (children s p)))"
  using run
proof (rule send_effect)
  fix a root cur nft acc ask x
  assume eff: "org = Signed a" "lookup_root_owner E (ext s) k = Some (Inr (a, root))"
    "uq_owner E (ext s) k = Some cur" "nfts s k = Some nft" "transferable nft" "\<not> equipped nft"
    "send_target E k a (CollectionAndNftTuple c n) s = Some (Inr (acc, ask), s)"
    "uq_do_transfer E (lock s) k acc (ext s) = (Inr (), x)"
    "s' = s\<lparr>nfts := (nfts s)(k \<mapsto> sent_record (CollectionAndNftTuple c n) ask nft),
           children := moved_children E k cur acc (children s), ext := x,
           events := events s @
             [CoreEvent (NFTSent a (CollectionAndNftTuple c n) (fst k) (snd k) ask)]\<rparr>"
  obtain owner t where target: "nfts s (c, n) \<noteq> None" "k \<noteq> (c, n)"
    "is_x_descendent_of_y E (ext s) (c, n) k = Some (Inr False)"
    "lookup_root_owner E (ext s) (c, n) = Some (Inr (owner, t))"
    "nft_to_account_id E (c, n) = Some acc" "ask = (owner \<noteq> a)"
    using eff(7) by (auto simp: success)
  have decode: "decode_nft_account_id E acc = Some (c, n)"
    by (rule decode_nft_to_account_id[OF laws(1,2) target(5)])
  have "set (moved_children E k cur acc (children s) p) =
      (if p = (c, n) then insert k (set (children s p))
       else if nft_parent E (ext s) k = Some p then set (children s p) - {k}
       else set (children s p))" for p
    using decode eff(3)
    by (auto simp: moved_children_def nft_parent_def Let_def split: option.split if_splits)
  then show ?thesis
    using eff target descendent_False[OF target(3)] uniques_transfer(1)[OF laws(3) eff(8)]
      nft_parent_update(1)[OF uniques_transfer(2)[OF laws(3) eff(8)]] decode
    by (intro exI[of _ a] exI[of _ root] exI[of _ nft] exI[of _ owner] exI[of _ t])
      (simp add: sent_record_def)
qed

text \<open>C19. A successful \<^verbatim>\<open>send\<close> to an NFT: the target exists, is not the NFT itself and is not nested
  below it; the NFT becomes nested in the target. It leaves the children of the NFT it was nested in
  and joins those of the target, and no other children change. When the caller root-owns the target
  too the record names the target as owner; otherwise the record only becomes pending, and keeps
  naming the previous owner.\<close>

theorem send_to_nft_correct:
  assumes "codec_laws E" "wide_accounts E" "uniques_laws E"
    and "send E org k (CollectionAndNftTuple c n) s = Some (Inr (), s')"
  shows "\<exists>a root nft owner t. org = Signed a \<and>
    lookup_root_owner E (ext s) k = Some (Inr (a, root)) \<and>
    lookup_root_owner E (ext s) (c, n) = Some (Inr (owner, t)) \<and>
    nfts s k = Some nft \<and> transferable nft \<and> \<not> equipped nft \<and> \<not> lock s k \<and>
    nfts s (c, n) \<noteq> None \<and> k \<noteq> (c, n) \<and> \<not> below (nft_parent E (ext s)) (c, n) k \<and>
    nfts s' = (nfts s)(k \<mapsto> (if owner = a then nft\<lparr>nft_owner := CollectionAndNftTuple c n\<rparr>
      else nft\<lparr>nft_pending := True\<rparr>)) \<and>
    nft_parent E (ext s') = (nft_parent E (ext s))(k \<mapsto> (c, n)) \<and>
    (\<forall>p. set (children s' p) =
      (if p = (c, n) then insert k (set (children s p))
       else if nft_parent E (ext s) k = Some p then set (children s p) - {k}
       else set (children s p)))"
  by (rule sent_to_nft[OF assms])

lemma demo_descendent [simp]:
  "is_x_descendent_of_y sample demo_ledger (0, 0) y = Some (Inr False)"
  by (rule descendent_step) (simp add: demo_parent)

lemma demo_send_to_nft:
  "\<exists>s'. send sample (Signed bob) (0, 2) (CollectionAndNftTuple 0 0) demo = Some (Inr (), s')"
  by (auto simp: send_def nft_send_def success store_sent_def sample_transfer_def is_locked_def)

theorem send_to_nft_correct_witness:
  "\<exists>s'. send sample (Signed bob) (0, 2) (CollectionAndNftTuple 0 0) demo = Some (Inr (), s') \<and>
     nft_parent sample (ext s') (0, 2) = Some (0, 0) \<and>
     nfts s' (0, 2) = Some (plain_nft (AccountId bob)\<lparr>nft_pending := True\<rparr>)"
proof -
  obtain s' where run: "send sample (Signed bob) (0, 2) (CollectionAndNftTuple 0 0) demo
      = Some (Inr (), s')"
    using demo_send_to_nft by blast
  from send_to_nft_correct[OF sample_codec sample_wide sample_uniques run] run show ?thesis
    by auto
qed

text \<open>A non-transferable NFT and an equipped NFT are never sent, whoever asks and wherever to.\<close>

theorem soulbound_or_equipped_is_never_sent:
  assumes "nfts s k = Some nft" "\<not> transferable nft \<or> equipped nft"
  shows "send E org k new_owner s \<noteq> Some (Inr u, s')"
  using assms by (auto elim!: send_effect)

theorem soulbound_or_equipped_is_never_sent_witness:
  "send sample (Signed bob) (0, 2) (AccountId alice)
     (demo\<lparr>nfts := [(0, 2) \<mapsto> (plain_nft (AccountId bob))\<lparr>transferable := False\<rparr>]\<rparr>)
   \<noteq> Some (Inr (), s')"
  by (rule soulbound_or_equipped_is_never_sent[where
      nft = "(plain_nft (AccountId bob))\<lparr>transferable := False\<rparr>"]) simp_all

section \<open>Accepting\<close>

text \<open>C33. \<^verbatim>\<open>accept_nft\<close> checks neither that the NFT is pending nor that it is transferable or not
  equipped. Whatever its record says, the root owner of an NFT hands it to any account through it, if
  \<^verbatim>\<open>pallet_uniques\<close> makes the transfer (it does not while the NFT is locked): the call succeeds, the owner
  in \<^verbatim>\<open>pallet_uniques\<close> changes, and the record still names the old owner, as the children of the NFT
  it was nested in still count it.\<close>

theorem accept_nft_hands_over_any_nft:
  assumes "uniques_laws E" "lookup_root_owner E (ext s) k = Some (Inr (a, root))" "nfts s k = Some nft"
    and "uq_do_transfer E (lock s) k b (ext s) = (Inr (), x)"
  shows "\<exists>s'. accept_nft E (Signed a) k (AccountId b) s = Some (Inr (), s') \<and>
    nfts s' = (nfts s)(k \<mapsto> nft\<lparr>nft_pending := False\<rparr>) \<and>
    uq_owner E (ext s') = (uq_owner E (ext s))(k \<mapsto> b) \<and> children s' = children s"
proof -
  have locks: "is_locked t = lock t" for t :: "('a, 'c, 'd) core_state_scheme"
    by (rule ext) (simp add: is_locked_def)
  show ?thesis
    using assms(2-4) uniques_transfer(2)[OF assms(1,4)]
    by (auto simp: accept_nft_def nft_accept_def success uniques_transfer_def locks mutate_exists_def)
qed

definition soulbound_demo :: "(account32, ledger) runtime_state" where
  "soulbound_demo = demo\<lparr>nfts := [(0, 2) \<mapsto>
     (plain_nft (AccountId bob))\<lparr>equipped := True, transferable := False\<rparr>]\<rparr>"

theorem accept_nft_hands_over_any_nft_witness:
  "\<exists>s' nft. accept_nft sample (Signed bob) (0, 2) (AccountId charlie) soulbound_demo
      = Some (Inr (), s') \<and> uq_owner sample (ext s') (0, 2) = Some charlie \<and>
     nfts s' (0, 2) = Some nft \<and> nft_owner nft = AccountId bob \<and> \<not> transferable nft \<and> equipped nft"
proof -
  have own: "lookup_root_owner sample (ext soulbound_demo) (0, 2) = Some (Inr (bob, (0, 2)))"
    "nfts soulbound_demo (0, 2) = Some ((plain_nft (AccountId bob))\<lparr>equipped := True, transferable := False\<rparr>)"
    by (simp_all add: soulbound_demo_def)
  have "\<exists>x. uq_do_transfer sample (lock soulbound_demo) (0, 2) charlie (ext soulbound_demo) = (Inr (), x)"
    by (simp add: sample_transfer_def soulbound_demo_def)
  then obtain x where
    "uq_do_transfer sample (lock soulbound_demo) (0, 2) charlie (ext soulbound_demo) = (Inr (), x)" by blast
  from accept_nft_hands_over_any_nft[OF sample_uniques own this] show ?thesis by auto
qed

text \<open>Sending to an NFT of another owner and accepting there, the way the two-step transfer is meant
  to be used, leaves the record of the NFT naming its previous owner: \<^verbatim>\<open>nft_accept\<close> clears the pending
  flag but never writes the new owner, although the NFT is nested in the target for
  \<^verbatim>\<open>pallet_uniques\<close> and for \<^verbatim>\<open>Children\<close>.\<close>

theorem accepted_nft_keeps_the_old_owner_in_its_record:
  assumes laws: "codec_laws E" "wide_accounts E" "uniques_laws E"
    and send: "send E (Signed a) k (CollectionAndNftTuple c n) s = Some (Inr (), s1)"
    and other: "lookup_root_owner E (ext s) (c, n) = Some (Inr (b, t))" "b \<noteq> a"
    and accept: "accept_nft E (Signed b) k (CollectionAndNftTuple c n) s1 = Some (Inr (), s2)"
  shows "\<exists>nft nft2. nfts s k = Some nft \<and> nfts s2 k = Some nft2 \<and> \<not> nft_pending nft2 \<and>
    nft_owner nft2 = nft_owner nft \<and> nft_parent E (ext s2) k = Some (c, n) \<and>
    k \<in> set (children s2 (c, n))"
proof -
  obtain nft where s1: "nfts s k = Some nft" "nfts s1 = (nfts s)(k \<mapsto> nft\<lparr>nft_pending := True\<rparr>)"
    "k \<in> set (children s1 (c, n))"
    using sent_to_nft[OF laws send] other by auto
  from accept show ?thesis
  proof (rule accept_nft_effect)
    fix a' root nft1 acc x
    assume eff: "nfts s1 k = Some nft1"
      "send_target E k a' (CollectionAndNftTuple c n) s1 = Some (Inr (acc, False), s1)"
      "uq_do_transfer E (lock s1) k acc (ext s1) = (Inr (), x)"
      "s2 = s1\<lparr>nfts := (nfts s1)(k \<mapsto> nft1\<lparr>nft_pending := False\<rparr>), ext := x,
         events := events s1 @ [CoreEvent (NFTAccepted a' (CollectionAndNftTuple c n) (fst k) (snd k))]\<rparr>"
    have "nft_to_account_id E (c, n) = Some acc" using eff(2) by (simp add: success)
    then have "nft_parent E x k = Some (c, n)"
      using nft_parent_update(1)[OF uniques_transfer(2)[OF laws(3) eff(3)]]
        decode_nft_to_account_id[OF laws(1,2)] by simp
    then show ?thesis using s1 eff(1,4) by auto
  qed
qed

lemma demo_sent:
  assumes "send sample (Signed bob) (0, 2) (CollectionAndNftTuple 0 0) demo = Some (Inr (), s1)"
  shows "ext s1 = demo_ledger\<lparr>items := (items demo_ledger)((0, 2) \<mapsto> virtual (0, 0))\<rparr>"
    "nfts s1 = (nfts demo)((0, 2) \<mapsto> (plain_nft (AccountId bob))\<lparr>nft_pending := True\<rparr>)"
    "lock s1 = lock demo"
  using assms
  by (rule send_effect; auto simp: success sample_transfer_def sent_record_def split: if_splits)+

lemma demo_sent_lookups:
  "lookup_root_owner sample (demo_ledger\<lparr>items := (items demo_ledger)((0, 2) \<mapsto> virtual (0, 0))\<rparr>) (0, 0)
     = Some (Inr (alice, (0, 0)))"
  "lookup_root_owner sample (demo_ledger\<lparr>items := (items demo_ledger)((0, 2) \<mapsto> virtual (0, 0))\<rparr>) (0, 2)
     = Some (Inr (alice, (0, 0)))"
  "is_x_descendent_of_y sample (demo_ledger\<lparr>items := (items demo_ledger)((0, 2) \<mapsto> virtual (0, 0))\<rparr>)
     (0, 0) y = Some (Inr False)"
proof -
  let ?x = "demo_ledger\<lparr>items := (items demo_ledger)((0, 2) \<mapsto> virtual (0, 0))\<rparr>"
  show top: "lookup_root_owner sample ?x (0, 0) = Some (Inr (alice, (0, 0)))"
    by (subst lookup_step) simp
  show "lookup_root_owner sample ?x (0, 2) = Some (Inr (alice, (0, 0)))"
    by (subst lookup_step) (simp add: top)
  show "is_x_descendent_of_y sample ?x (0, 0) y = Some (Inr False)"
    by (subst descendent_unfold) simp
qed

theorem accepted_nft_keeps_the_old_owner_in_its_record_witness:
  "\<exists>s1 s2 nft2.
     send sample (Signed bob) (0, 2) (CollectionAndNftTuple 0 0) demo = Some (Inr (), s1) \<and>
     accept_nft sample (Signed alice) (0, 2) (CollectionAndNftTuple 0 0) s1 = Some (Inr (), s2) \<and>
     nfts s2 (0, 2) = Some nft2 \<and> nft_owner nft2 = AccountId bob \<and>
     nft_parent sample (ext s2) (0, 2) = Some (0, 0)"
proof -
  obtain s1 where run: "send sample (Signed bob) (0, 2) (CollectionAndNftTuple 0 0) demo
      = Some (Inr (), s1)"
    using demo_send_to_nft by blast
  have "\<exists>s2. accept_nft sample (Signed alice) (0, 2) (CollectionAndNftTuple 0 0) s1
      = Some (Inr (), s2)"
    using demo_sent[OF run]
    by (auto simp: accept_nft_def nft_accept_def success demo_sent_lookups sample_transfer_def
        is_locked_def)
  then obtain s2 where run2: "accept_nft sample (Signed alice) (0, 2) (CollectionAndNftTuple 0 0) s1
      = Some (Inr (), s2)" by blast
  have "lookup_root_owner sample (ext demo) (0, 0) = Some (Inr (alice, (0, 0)))" by simp
  from accepted_nft_keeps_the_old_owner_in_its_record[OF sample_codec sample_wide sample_uniques
      run this _ run2] run run2
  show ?thesis by auto
qed

section \<open>Burning and rejecting\<close>

text \<open>C30. \<^verbatim>\<open>burn_nft\<close> of the root owner always returns, and whether it burns is a matter of depth. Where no NFT
  is a child of two others (\<^verbatim>\<open>accept_nft\<close> followed by \<^verbatim>\<open>send\<close> can make one so), the burned one is not
  below itself and all collections below exist, it succeeds exactly when no chain of children from the NFT on has more NFTs than the limit in the
  call (and \<^verbatim>\<open>pallet_uniques\<close> burns the item); beyond the limit it fails with \<^verbatim>\<open>TooManyRecursions\<close> and
  everything is rolled back, however many NFTs were burned before the chain was found too long.\<close>

theorem burn_nft_succeeds_within_its_limit:
  assumes laws: "iteration_laws E"
    and tree: "forest s" "\<not> below_itself s k" "housed_below s k"
    and root: "lookup_root_owner E (ext s) k = Some (Inr (a, root))"
  shows "((\<exists>s'. burn_nft E (Signed a) k m s = Some (Inr (), s')) \<longleftrightarrow>
      nested_within s (unat m) k \<and> (\<exists>x. uq_do_burn E k (ext s) = (Inr (), x))) \<and>
    (\<not> nested_within s (unat m) k \<longrightarrow>
      burn_nft E (Signed a) k m s = Some (Inl (CoreError TooManyRecursions), s)) \<and>
    burn_nft E (Signed a) k m s \<noteq> None"
proof -
  have run: "burn_nft E (Signed a) k m s = transactionalM (seqM (nft_burn_rec E (unat m) k)
      (seqM (externalM (uq_do_burn E k)) (deposit_event (CoreEvent (NFTBurned a (snd k)))))) s"
    using root
    by (simp add: burn_nft_def nft_burn_def root_ownerM_def run_simps split: option.split sum.split)
  show ?thesis
  proof (cases "nested_within s (unat m) k")
    case True
    from burn_within_limit[OF laws True tree(3)] obtain t
      where t: "nft_burn_rec E (unat m) k s = Some (Inr (), t)" by blast
    with True nft_burn_rec_frame(1)[OF t] show ?thesis
      by (auto simp: run run_simps split: prod.splits sum.splits)
  next
    case False
    from burn_beyond_limit[OF laws tree False] obtain t
      where t: "nft_burn_rec E (unat m) k s = Some (Inl (CoreError TooManyRecursions), t)" by blast
    with False show ?thesis by (simp add: run run_simps)
  qed
qed

text \<open>In the demo storage Alice's NFT has one nested in it: a limit of two burns both, a limit of one none.\<close>

lemma demo_forest:
  "forest demo" "\<not> below_itself demo (0, 0)" "housed_below demo (0, 0)"
  "nested_within demo 2 (0, 0)" "\<not> nested_within demo 1 (0, 0)"
proof -
  have reach: "j = (0, 0) \<or> j = (0, 1)" if "child_reach demo (0, 0) j" for j
    using that by (induction rule: rtranclp_induct) (auto split: if_splits)
  have "j = (0, 1)" if "child_reach demo (0, 1) j" for j
    using that by (induction rule: rtranclp_induct) (auto split: if_splits)
  then show "\<not> below_itself demo (0, 0)" unfolding below_itself_def by fastforce
  show "housed_below demo (0, 0)" using reach unfolding housed_below_def by fastforce
  show "forest demo" by (auto simp: forest_def split: if_splits)
  show "nested_within demo 2 (0, 0)" "\<not> nested_within demo 1 (0, 0)"
    by (simp_all add: numeral_2_eq_2)
qed

theorem burn_nft_succeeds_within_its_limit_witness:
  "(\<exists>s'. burn_nft sample (Signed alice) (0, 0) 2 demo = Some (Inr (), s')) \<and>
   burn_nft sample (Signed alice) (0, 0) 1 demo = Some (Inl (CoreError TooManyRecursions), demo)"
proof -
  have root: "lookup_root_owner sample (ext demo) (0, 0) = Some (Inr (alice, (0, 0)))" by simp
  have "\<exists>x. uq_do_burn sample (0, 0) (ext demo) = (Inr (), x)" by (simp add: sample_burn_def)
  then show ?thesis
    using burn_nft_succeeds_within_its_limit[OF sample_iteration demo_forest(1-3) root] demo_forest(4,5)
    by simp
qed

text \<open>C21. A successful \<^verbatim>\<open>burn_nft\<close>: the caller root-owns the NFT, and exactly the records of the NFT
  and of everything below it in \<^verbatim>\<open>Children\<close> are gone, with the resources of the NFT. In
  \<^verbatim>\<open>pallet_uniques\<close> only the NFT itself is burned: the items of the removed children stay.\<close>

theorem burn_nft_correct:
  assumes "uniques_laws E" "iteration_laws E" "burn_nft E org k m s = Some (Inr (), s')"
  shows "\<exists>a root. org = Signed a \<and> lookup_root_owner E (ext s) k = Some (Inr (a, root)) \<and> m \<noteq> 0 \<and>
    nfts s' = (\<lambda>j. if (\<lambda>p c. c \<in> set (children s p))\<^sup>*\<^sup>* k j then None else nfts s j) \<and>
    (\<forall>r. resources s' (k, r) = None) \<and>
    uq_owner E (ext s') = (uq_owner E (ext s))(k := None)"
  using assms(3)
proof (rule burn_nft_effect)
  fix a root t x
  assume eff: "org = Signed a" "lookup_root_owner E (ext s) k = Some (Inr (a, root))"
    "nft_burn_rec E (unat m) k s = Some (Inr (), t)" "uq_do_burn E k (ext s) = (Inr (), x)"
    "s' = t\<lparr>ext := x, events := events s @ [CoreEvent (NFTBurned a (snd k))]\<rparr>"
  have "m \<noteq> 0" using eff(3) by (auto simp: success)
  then show ?thesis
    using eff uniques_burn(2)[OF assms(1) eff(4)] nft_burn_rec_records[OF assms(2) eff(3)]
      nft_burn_rec_resources[OF eff(3)]
    by (intro exI[of _ a] exI[of _ root]) (simp add: fun_eq_iff del: split_paired_All)
qed

lemma demo_burn: "\<exists>s'. burn_nft sample (Signed alice) (0, 0) 2 demo = Some (Inr (), s')"
proof -
  have "\<exists>t. nft_burn_rec sample (Suc (Suc 0)) (0, 0) demo = Some (Inr (), t)"
    by (auto simp: success unlink_from_owner_def ex_bool_eq)
  moreover have "unat (2::u32) = Suc (Suc 0)" by simp
  ultimately obtain t where t: "nft_burn_rec sample (unat (2::u32)) (0, 0) demo = Some (Inr (), t)"
    by metis
  have "ext t = demo_ledger" using nft_burn_rec_frame(1)[OF t] by simp
  with t show ?thesis
    by (auto simp: burn_nft_def success sample_burn_def simp del: nft_burn_rec.simps unat_numeral)
qed

theorem burn_nft_correct_witness:
  "\<exists>s'. burn_nft sample (Signed alice) (0, 0) 2 demo = Some (Inr (), s') \<and>
     nfts s' (0, 0) = None \<and> nfts s' (0, 1) = None \<and> items (ext s') (0, 1) = Some (virtual (0, 0))"
proof -
  obtain s' where run: "burn_nft sample (Signed alice) (0, 0) 2 demo = Some (Inr (), s')"
    using demo_burn by blast
  from burn_nft_correct[OF sample_uniques sample_iteration run] run show ?thesis
    by (auto simp: r_into_rtranclp)
qed

text \<open>C32. Burning an NFT destroys one that left it long ago. \<^verbatim>\<open>accept_nft\<close> moves an NFT without moving it
  in \<^verbatim>\<open>Children\<close>, so an NFT a child was taken from still counts it. When \<^verbatim>\<open>accept_nft\<close> gave the child
  to an account and the old parent is burned afterwards, by anybody who may burn it, the record of
  the child is gone while its item belongs to the new owner, who can neither send it nor do
  anything else that needs the record.\<close>

theorem burn_destroys_an_nft_that_left:
  assumes laws: "uniques_laws E" "iteration_laws E"
    and child: "k \<in> set (children s p)" "k \<noteq> p" "decode_nft_account_id E b = None"
    and accept: "accept_nft E org k (AccountId b) s = Some (Inr (), s1)"
    and burn: "burn_nft E org' p m s1 = Some (Inr (), s2)"
  shows "nfts s1 k \<noteq> None \<and> nfts s2 k = None \<and>
    lookup_root_owner E (ext s2) k = Some (Inr (b, k)) \<and>
    send E (Signed b) k new_owner s2 = Some (Inl (CoreError NoAvailableNftId), s2)"
  using accept
proof (rule accept_nft_effect)
  fix a root nft acc x
  assume eff: "nfts s k = Some nft" "send_target E k a (AccountId b) s = Some (Inr (acc, False), s)"
    "uq_do_transfer E (lock s) k acc (ext s) = (Inr (), x)"
    "s1 = s\<lparr>nfts := (nfts s)(k \<mapsto> nft\<lparr>nft_pending := False\<rparr>), ext := x,
           events := events s @ [CoreEvent (NFTAccepted a (AccountId b) (fst k) (snd k))]\<rparr>"
  have s1: "nfts s1 k \<noteq> None" "k \<in> set (children s1 p)" "uq_owner E (ext s1) k = Some b"
    using eff child(1) uniques_transfer(2)[OF laws(1) eff(3)] by (auto simp: success)
  from burn show ?thesis
  proof (rule burn_nft_effect)
    fix a' root' t y
    assume burned: "nft_burn_rec E (unat m) p s1 = Some (Inr (), t)"
      "uq_do_burn E p (ext s1) = (Inr (), y)"
      "s2 = t\<lparr>ext := y, events := events s1 @ [CoreEvent (NFTBurned a' (snd p))]\<rparr>"
    have owner: "uq_owner E (ext s2) k = Some b"
      using burned(3) s1(3) uniques_burn(2)[OF laws(1) burned(2)] child(2) by simp
    then have root: "lookup_root_owner E (ext s2) k = Some (Inr (b, k))"
      using child(3) by (rule root.walk_root)
    have gone: "nfts s2 k = None"
      using nft_burn_rec_records[OF laws(2) burned(1), of k] s1(2) burned(3) by (simp add: r_into_rtranclp)
    with owner root have "send E (Signed b) k new_owner s2 = Some (Inl (CoreError NoAvailableNftId), s2)"
      by (simp add: send_def nft_send_def root_ownerM_def run_simps)
    with s1(1) gone root show ?thesis by blast
  qed
qed

text \<open>Alice gives Bob the NFT nested in hers, and burns hers.\<close>

lemma demo_child_left:
  "\<exists>s1. accept_nft sample (Signed alice) (0, 1) (AccountId bob) demo = Some (Inr (), s1) \<and>
     s1 = demo\<lparr>nfts := (nfts demo)((0, 1) \<mapsto> plain_nft (CollectionAndNftTuple 0 0)),
       ext := demo_ledger\<lparr>items := (items demo_ledger)((0, 1) \<mapsto> bob)\<rparr>,
       events := [CoreEvent (NFTAccepted alice (AccountId bob) 0 1)]\<rparr>"
  by (auto simp: accept_nft_def nft_accept_def success sample_transfer_def is_locked_def
      mutate_exists_def plain_nft_def)

theorem burn_destroys_an_nft_that_left_witness:
  "\<exists>s1 s2. accept_nft sample (Signed alice) (0, 1) (AccountId bob) demo = Some (Inr (), s1) \<and>
     burn_nft sample (Signed alice) (0, 0) 2 s1 = Some (Inr (), s2) \<and>
     nfts s2 (0, 1) = None \<and> lookup_root_owner sample (ext s2) (0, 1) = Some (Inr (bob, (0, 1)))"
proof -
  let ?x = "demo_ledger\<lparr>items := (items demo_ledger)((0, 1) \<mapsto> bob)\<rparr>"
  obtain s1 where run: "accept_nft sample (Signed alice) (0, 1) (AccountId bob) demo = Some (Inr (), s1)"
    and s1: "s1 = demo\<lparr>nfts := (nfts demo)((0, 1) \<mapsto> plain_nft (CollectionAndNftTuple 0 0)),
       ext := ?x, events := [CoreEvent (NFTAccepted alice (AccountId bob) 0 1)]\<rparr>"
    using demo_child_left by blast
  have "\<exists>t. nft_burn_rec sample (Suc (Suc 0)) (0, 0) s1 = Some (Inr (), t)"
    by (auto simp: s1 success unlink_from_owner_def ex_bool_eq)
  moreover have "unat (2::u32) = Suc (Suc 0)" by simp
  ultimately obtain t where t: "nft_burn_rec sample (unat (2::u32)) (0, 0) s1 = Some (Inr (), t)"
    by metis
  have "ext t = ?x" using nft_burn_rec_frame(1)[OF t] s1 by simp
  moreover have "lookup_root_owner sample (ext s1) (0, 0) = Some (Inr (alice, (0, 0)))"
    by (subst lookup_step) (simp add: s1)
  ultimately obtain s2 where burn: "burn_nft sample (Signed alice) (0, 0) 2 s1 = Some (Inr (), s2)"
    using t by (auto simp: burn_nft_def success sample_burn_def simp del: nft_burn_rec.simps unat_numeral)
  have "(0, 1) \<in> set (children demo (0, 0))" by simp
  from burn_destroys_an_nft_that_left[OF sample_uniques sample_iteration this _ _ run burn] run burn
  show ?thesis by auto
qed

text \<open>
  The count of a collection falls behind its NFTs. \<^verbatim>\<open>accept_nft\<close> leaves a child among the children of the
  NFT it was taken from; sent on from there and burned, it still is, and burning that NFT counts it down
  a second time. Bob's NFT is left, and the collection counts none.
\<close>

lemma demo_child_burned:
  "\<exists>s1 s2 s3. accept_nft sample (Signed alice) (0, 1) (AccountId bob) demo = Some (Inr (), s1) \<and>
     send sample (Signed bob) (0, 1) (CollectionAndNftTuple 0 2) s1 = Some (Inr (), s2) \<and>
     burn_nft sample (Signed bob) (0, 1) 1 s2 = Some (Inr (), s3) \<and>
     ext s3 = demo_ledger\<lparr>items := (items demo_ledger)((0, 1) := None)\<rparr> \<and>
     nfts s3 = (nfts demo)((0, 1) := None) \<and> children s3 = children demo \<and>
     collections s3 = [0 \<mapsto> demo_collection\<lparr>nfts_count := 2\<rparr>]"
proof -
  obtain s1 where run1: "accept_nft sample (Signed alice) (0, 1) (AccountId bob) demo = Some (Inr (), s1)"
    and s1: "s1 = demo\<lparr>nfts := (nfts demo)((0, 1) \<mapsto> plain_nft (CollectionAndNftTuple 0 0)),
       ext := demo_ledger\<lparr>items := (items demo_ledger)((0, 1) \<mapsto> bob)\<rparr>,
       events := [CoreEvent (NFTAccepted alice (AccountId bob) 0 1)]\<rparr>"
    using demo_child_left by blast
  let ?x = "demo_ledger\<lparr>items := (items demo_ledger)((0, 1) \<mapsto> bob)\<rparr>"
  have l: "lookup_root_owner sample ?x (0, 1) = Some (Inr (bob, (0, 1)))"
     "lookup_root_owner sample ?x (0, 2) = Some (Inr (bob, (0, 2)))"
    "is_x_descendent_of_y sample ?x (0, 2) (0, 1) = Some (Inr False)"
    by (simp_all add: lookup_step descendent_unfold)

  let ?y = "demo_ledger\<lparr>items := (items demo_ledger)((0, 1) \<mapsto> virtual (0, 2))\<rparr>"
  obtain s2 where run2: "send sample (Signed bob) (0, 1) (CollectionAndNftTuple 0 2) s1 = Some (Inr (), s2)"
    and s2: "ext s2 = ?y" "nfts s2 = (nfts demo)((0, 1) \<mapsto> plain_nft (CollectionAndNftTuple 0 2))"
     "children s2 = (children demo)((0, 2) := [(0, 1)])" "collections s2 = collections demo"
    unfolding s1 using l by (fastforce simp: send_def nft_send_def success store_sent_def moved_children_def
      sample_transfer_def uniques_transfer_def is_locked_def plain_nft_def sent_record_def)
  have l2: "lookup_root_owner sample ?y (0, 2) = Some (Inr (bob, (0, 2)))"
    by (subst lookup_step) simp
  then have l3: "lookup_root_owner sample ?y (0, 1) = Some (Inr (bob, (0, 2)))"
    by (subst lookup_step) simp
  have one: "\<exists>t. nft_burn_rec sample (unat (1 :: u32)) (0, 1) s2 = Some (Inr (), t) \<and>
      nfts t = (nfts demo)((0, 1) := None) \<and> children t = children demo \<and>
      collections t = [0 \<mapsto> demo_collection\<lparr>nfts_count := 2\<rparr>]"
    by (auto simp: run_simps unlink_from_owner_def remove_child_def decrement_nfts_count_def s2
      plain_nft_def demo_collection_def saturating_dec_def)
  obtain s3 where run3: "burn_nft sample (Signed bob) (0, 1) 1 s2 = Some (Inr (), s3)"
    and s3: "ext s3 = demo_ledger\<lparr>items := (items demo_ledger)((0, 1) := None)\<rparr>"
      "nfts s3 = (nfts demo)((0, 1) := None)" "children s3 = children demo"
      "collections s3 = [0 \<mapsto> demo_collection\<lparr>nfts_count := 2\<rparr>]"
    using one nft_burn_rec_frame(1) l3 s2(1)
    by (fastforce simp: burn_nft_def success sample_burn_def simp del: nft_burn_rec.simps unat_1)
  show ?thesis using run1 run2 run3 s3 by (intro exI conjI)
qed

lemma count_falls_behind:
  "\<exists>s1 s2 s3 s4. accept_nft sample (Signed alice) (0, 1) (AccountId bob) demo = Some (Inr (), s1) \<and>
     send sample (Signed bob) (0, 1) (CollectionAndNftTuple 0 2) s1 = Some (Inr (), s2) \<and>
     burn_nft sample (Signed bob) (0, 1) 1 s2 = Some (Inr (), s3) \<and>
     burn_nft sample (Signed alice) (0, 0) 2 s3 = Some (Inr (), s4) \<and>
     map_option nfts_count (collections s4 0) = Some 0 \<and> nfts s4 (0, 2) \<noteq> None"
proof -
  obtain s1 s2 s3
    where run1: "accept_nft sample (Signed alice) (0, 1) (AccountId bob) demo = Some (Inr (), s1)"
    and run2: "send sample (Signed bob) (0, 1) (CollectionAndNftTuple 0 2) s1 = Some (Inr (), s2)"
    and run3: "burn_nft sample (Signed bob) (0, 1) 1 s2 = Some (Inr (), s3)"
    and s3: "ext s3 = demo_ledger\<lparr>items := (items demo_ledger)((0, 1) := None)\<rparr>"
      "nfts s3 = (nfts demo)((0, 1) := None)" "children s3 = children demo"
      "collections s3 = [0 \<mapsto> demo_collection\<lparr>nfts_count := 2\<rparr>]"
    using demo_child_burned by blast
  have top: "lookup_root_owner sample (demo_ledger\<lparr>items := (items demo_ledger)((0, 1) := None)\<rparr>) (0, 0)
      = Some (Inr (alice, (0, 0)))"
    by (subst lookup_step) simp
  have "\<exists>t. nft_burn_rec sample (Suc (Suc 0)) (0, 0) s3 = Some (Inr (), t) \<and>
      nfts t = (nfts demo)((0, 1) := None, (0, 0) := None, (0, 1) := None) \<and>
      collections t = [0 \<mapsto> demo_collection\<lparr>nfts_count := 0\<rparr>]"
    by (auto simp: run_simps unlink_from_owner_def remove_child_def decrement_nfts_count_def s3
      plain_nft_def demo_collection_def saturating_dec_def)
  moreover have "unat (2 :: u32) = Suc (Suc 0)" by simp
  ultimately have two: "\<exists>t. nft_burn_rec sample (unat (2 :: u32)) (0, 0) s3 = Some (Inr (), t) \<and>
      nfts t = (nfts demo)((0, 1) := None, (0, 0) := None, (0, 1) := None) \<and>
      collections t = [0 \<mapsto> demo_collection\<lparr>nfts_count := 0\<rparr>]"
    by (simp only:)
  obtain s4 where "burn_nft sample (Signed alice) (0, 0) 2 s3 = Some (Inr (), s4)"
      "nfts s4 = (nfts demo)((0, 1) := None, (0, 0) := None, (0, 1) := None)"
      "collections s4 = [0 \<mapsto> demo_collection\<lparr>nfts_count := 0\<rparr>]"
    using two nft_burn_rec_frame(1) top s3(1)
    by (fastforce simp: burn_nft_def success sample_burn_def simp del: nft_burn_rec.simps unat_numeral)
  then show ?thesis using run1 run2 run3 by auto
qed

text \<open>C36. A successful \<^verbatim>\<open>reject_nft\<close>: the NFT was pending and the caller root-owns it; the records of
  the NFT and of everything below it are gone, but \<^verbatim>\<open>pallet_uniques\<close> is not told: every item keeps
  its owner, the rejected one too.\<close>

theorem reject_nft_correct:
  assumes "iteration_laws E" "reject_nft E org k s = Some (Inr (), s')"
  shows "\<exists>a root nft. org = Signed a \<and> lookup_root_owner E (ext s) k = Some (Inr (a, root)) \<and>
    nfts s k = Some nft \<and> nft_pending nft \<and> nfts s' k = None \<and>
    (\<forall>r. resources s' (k, r) = None) \<and>
    uq_owner E (ext s') = uq_owner E (ext s) \<and> uq_owner E (ext s') k \<noteq> None"
  using assms(2)
proof (rule reject_nft_effect)
  fix a root nft t
  assume eff: "org = Signed a" "lookup_root_owner E (ext s) k = Some (Inr (a, root))"
    "nfts s k = Some nft" "nft_pending nft"
    "nft_burn_rec E (unat (max_recursions E)) k (unlinked E k s) = Some (Inr (), t)"
    "s' = t\<lparr>events := events s @ [CoreEvent (NFTRejected a (fst k) (snd k))]\<rparr>"
  have "uq_owner E (ext s) k \<noteq> None" using eff(2) root.walk_None[of E "ext s" k] by auto
  then show ?thesis
    using eff nft_burn_rec_records[OF assms(1) eff(5), of k] nft_burn_rec_resources[OF eff(5)]
      nft_burn_rec_frame(1)[OF eff(5)]
    by (intro exI[of _ a] exI[of _ root] exI[of _ nft]) simp
qed

definition pending_demo :: "(account32, ledger) runtime_state" where
  "pending_demo = demo\<lparr>nfts := (nfts demo)((0, 2) \<mapsto> (plain_nft (AccountId bob))\<lparr>nft_pending := True\<rparr>)\<rparr>"

theorem reject_nft_correct_witness:
  "\<exists>s'. reject_nft sample (Signed bob) (0, 2) pending_demo = Some (Inr (), s') \<and>
     nfts s' (0, 2) = None \<and> items (ext s') (0, 2) = Some bob"
proof -
  have "\<exists>s'. reject_nft sample (Signed bob) (0, 2) pending_demo = Some (Inr (), s')"
  proof -
    have "\<exists>t. nft_burn_rec sample (Suc d) (0, 2) pending_demo = Some (Inr (), t)" for d
      by (auto simp: success unlink_from_owner_def pending_demo_def)
    moreover have "unat (10::u32) = Suc 9" by simp
    ultimately obtain t where t: "nft_burn_rec sample (unat (10::u32)) (0, 2) pending_demo
        = Some (Inr (), t)"
      by metis
    have "unlinked sample (0, 2) pending_demo = pending_demo"
      by (simp add: unlinked_def nft_parent_def pending_demo_def)
    moreover have "lookup_root_owner sample (ext pending_demo) (0, 2) = Some (Inr (bob, (0, 2)))"
      "nfts pending_demo (0, 2) = Some ((plain_nft (AccountId bob))\<lparr>nft_pending := True\<rparr>)"
      by (simp_all add: pending_demo_def)
    ultimately show ?thesis
      using t by (auto simp: reject_nft_def success simp del: nft_burn_rec.simps unat_numeral)
  qed
  then obtain s' where run: "reject_nft sample (Signed bob) (0, 2) pending_demo = Some (Inr (), s')"
    by blast
  from reject_nft_correct[OF sample_iteration run] run show ?thesis
    by (auto simp: pending_demo_def)
qed

end
