(* ===== verification/Census.thy ===== *)
theory Census
  imports Chain
begin

text \<open>
  The number of NFTs a collection says it has, against the records it really has. The count never
  exceeds the records. It may fall behind: \<^verbatim>\<open>nft_burn\<close> lowers the count of a child whether the
  child has a record or not.
\<close>

definition records :: "('a, 'x, 'z) core_state_scheme \<Rightarrow> collection_id \<Rightarrow> nft_id set" where
  "records s c = {n. nfts s (c, n) \<noteq> None}"

text \<open>The count exceeds the records by at most \<open>f\<close>: burns that removed a record and did not count it yet.\<close>

definition counted_up_to :: "(collection_id \<Rightarrow> nat) \<Rightarrow> ('a, 'x, 'z) core_state_scheme \<Rightarrow> bool" where
  "counted_up_to f s \<longleftrightarrow> (\<forall>c col. collections s c = Some col \<longrightarrow>
     unat (nfts_count col) \<le> card (records s c) + f c)"

definition census :: "('a, 'x, 'z) core_state_scheme \<Rightarrow> bool" where
  "census s \<longleftrightarrow> supply_ok s \<and> counted_up_to (\<lambda>_. 0) s"

section \<open>Changes of the storage\<close>

lemma counted_up_toD:
  "counted_up_to f s \<Longrightarrow> collections s c = Some col \<Longrightarrow> unat (nfts_count col) \<le> card (records s c) + f c"
  unfolding counted_up_to_def by blast

lemma counted_up_to_mono:
  assumes "counted_up_to f s"
    and "\<And>c col. collections s' c = Some col \<Longrightarrow> nfts_count col = 0 \<or>
      (\<exists>col0. collections s c = Some col0 \<and> nfts_count col = nfts_count col0)"
    and "\<And>c. records s' c = records s c"
  shows "counted_up_to f s'"
  unfolding counted_up_to_def
proof (intro allI impI)
  fix c col assume "collections s' c = Some col"
  from assms(2)[OF this] show "unat (nfts_count col) \<le> card (records s' c) + f c"
    using counted_up_toD[OF assms(1)] by (fastforce simp: assms(3))
qed

lemma counted_up_to_cong:
  "nfts s' = nfts s \<Longrightarrow> collections s' = collections s \<Longrightarrow> counted_up_to f s' = counted_up_to f s"
  by (simp add: counted_up_to_def records_def)

lemma counted_up_to_update [simp]:
  "counted_up_to f (s\<lparr>children := ch\<rparr>) = counted_up_to f s"
  "counted_up_to f (s\<lparr>resources := rs\<rparr>) = counted_up_to f s"
  "counted_up_to f (s\<lparr>priorities := ps\<rparr>) = counted_up_to f s"
  "counted_up_to f (s\<lparr>properties := prs\<rparr>) = counted_up_to f s"
  "counted_up_to f (s\<lparr>next_resource_id := nr\<rparr>) = counted_up_to f s"
  "counted_up_to f (s\<lparr>lock := l\<rparr>) = counted_up_to f s"
  "counted_up_to f (s\<lparr>equippable_bases := eb\<rparr>) = counted_up_to f s"
  "counted_up_to f (s\<lparr>equippable_slots := es\<rparr>) = counted_up_to f s"
  "counted_up_to f (s\<lparr>ext := x\<rparr>) = counted_up_to f s"
  "counted_up_to f (s\<lparr>events := ev\<rparr>) = counted_up_to f s"
  "counted_up_to f (e\<lparr>bases := bs\<rparr>) = counted_up_to f e" "counted_up_to f (e\<lparr>parts := pts\<rparr>) = counted_up_to f e"
  "counted_up_to f (e\<lparr>next_base_id := i\<rparr>) = counted_up_to f e"
  "counted_up_to f (e\<lparr>equippings := eqs\<rparr>) = counted_up_to f e"
  "counted_up_to f (e\<lparr>themes := ts\<rparr>) = counted_up_to f e"
  "counted_up_to f (m\<lparr>listed_nfts := ls\<rparr>) = counted_up_to f m"
  "counted_up_to f (m\<lparr>offers := ofs\<rparr>) = counted_up_to f m"
  "counted_up_to f (r\<lparr>something := st\<rparr>) = counted_up_to f r"
  by (rule counted_up_to_cong; simp)+

lemma census_update [simp]:
  "census (s\<lparr>children := ch\<rparr>) = census s" "census (s\<lparr>resources := rs\<rparr>) = census s"
  "census (s\<lparr>priorities := ps\<rparr>) = census s" "census (s\<lparr>properties := prs\<rparr>) = census s"
  "census (s\<lparr>next_resource_id := nr\<rparr>) = census s" "census (s\<lparr>lock := l\<rparr>) = census s"
  "census (s\<lparr>equippable_bases := eb\<rparr>) = census s" "census (s\<lparr>equippable_slots := es\<rparr>) = census s"
  "census (s\<lparr>ext := x\<rparr>) = census s" "census (s\<lparr>events := ev\<rparr>) = census s"
  "census (e\<lparr>bases := bs\<rparr>) = census e" "census (e\<lparr>parts := pts\<rparr>) = census e"
  "census (e\<lparr>next_base_id := i\<rparr>) = census e" "census (e\<lparr>equippings := eqs\<rparr>) = census e"
  "census (e\<lparr>themes := ts\<rparr>) = census e" "census (m\<lparr>listed_nfts := ls\<rparr>) = census m"
  "census (m\<lparr>offers := ofs\<rparr>) = census m" "census (r\<lparr>something := st\<rparr>) = census r"
  by (simp_all add: census_def)

text \<open>A record overwritten, and a record removed.\<close>

lemma records_written:
  "nfts s k = Some nft \<Longrightarrow> records (s\<lparr>nfts := (nfts s)(k \<mapsto> nft')\<rparr>) c = records s c"
  "records (s\<lparr>nfts := mutate_exists k f (nfts s)\<rparr>) c = records s c"
  by (auto simp: records_def mutate_exists_def split: option.split)

lemma counted_after_removal:
  assumes "counted_up_to f s"
  shows "counted_up_to (f(fst k := Suc (f (fst k)))) (s\<lparr>nfts := (nfts s)(k := None)\<rparr>)"
  unfolding counted_up_to_def
proof (intro allI impI)
  fix c col assume "collections (s\<lparr>nfts := (nfts s)(k := None)\<rparr>) c = Some col"
  then have le: "unat (nfts_count col) \<le> card (records s c) + f c"
    using counted_up_toD[OF assms] by simp
  have "records (s\<lparr>nfts := (nfts s)(k := None)\<rparr>) c =
      (if c = fst k then records s c - {snd k} else records s c)"
    by (cases k) (auto simp: records_def)
  moreover have "card (records s c) \<le> Suc (card (records s c - {snd k}))"
    by (simp add: card_Diff_singleton_if) linarith
  ultimately show "unat (nfts_count col) \<le> card (records (s\<lparr>nfts := (nfts s)(k := None)\<rparr>) c) +
      (f(fst k := Suc (f (fst k)))) c"
    using le by (auto split: if_splits)
qed

lemma counted_after_decrement:
  assumes "counted_up_to (f(c := Suc (f c))) s" "collections s c = Some col"
  shows "counted_up_to f (s\<lparr>collections := (collections s)
    (c \<mapsto> col\<lparr>nfts_count := saturating_dec (nfts_count col)\<rparr>)\<rparr>)"
  unfolding counted_up_to_def
proof (intro allI impI)
  fix c' col' assume col': "collections (s\<lparr>collections := (collections s)
    (c \<mapsto> col\<lparr>nfts_count := saturating_dec (nfts_count col)\<rparr>)\<rparr>) c' = Some col'"
  show "unat (nfts_count col') \<le> card (records (s\<lparr>collections := (collections s)
    (c \<mapsto> col\<lparr>nfts_count := saturating_dec (nfts_count col)\<rparr>)\<rparr>) c') + f c'"
    using counted_up_toD[OF assms(1), of c'] col' assms(2)
    by (auto simp: records_def unat_saturating_dec split: if_splits)
qed

text \<open>A burn, for any number of burns under way.\<close>

lemma keeps_counted_burn:
  "keeps (counted_up_to f) (nft_burn_rec E d k :: ('a, 'x, 'z, unit) core_action)"
proof (induction d arbitrary: k f)
  case (Suc d)
  show ?case
  proof (rule keepsI)
    fix s s' :: "('a, 'x, 'z) core_state_scheme" and u
    assume "nft_burn_rec E (Suc d) k s = Some (Inr u, s')" and s: "counted_up_to f s"
    then obtain s1 s3 where run: "unlink_from_owner k s = Some (Inr (), s1)"
      "bindM (getsM (\<lambda>s. iter_order E (children s k))) (drain_children (nft_burn_rec E d) k)
        (s1\<lparr>nfts := (nfts s1)(k := None), resources := remove_prefix k (resources s1)\<rparr>) = Some (Inr (), s3)"
      "decrement_nfts_count (fst k) s3 = Some (Inr (), s')"
      by (auto simp: success)
    let ?f = "f(fst k := Suc (f (fst k)))"
    have "counted_up_to f s1"
      using run(1) s by (rule keepsD[rotated]) (rule keeps_unlink_from_owner, simp)
    then have "counted_up_to ?f (s1\<lparr>nfts := (nfts s1)(k := None),
        resources := remove_prefix k (resources s1)\<rparr>)"
      using counted_after_removal[of f s1 k] by simp
    moreover have "keeps (counted_up_to ?f) (bindM (getsM (\<lambda>s. iter_order E (children s k)))
        (drain_children (nft_burn_rec E d) k) :: ('a, 'x, 'z, unit) core_action)"
      by (intro keeps_intros keeps_drain_children Suc.IH) simp_all
    ultimately have "counted_up_to ?f s3" using run(2) by (blast dest: keepsD)
    then show "counted_up_to f s'"
      using run(3) by (auto simp: success intro: counted_after_decrement)
  qed
qed (auto intro: keeps_intros)

text \<open>A mint: one more counted, one more recorded.\<close>

lemma counted_minted:
  assumes "counted_up_to f s" "collections s c = Some col" "nfts_count col \<noteq> - 1" "nfts s (c, n) = None"
  shows "counted_up_to f (s\<lparr>next_nft_id := ids,
    collections := (collections s)(c \<mapsto> col\<lparr>nfts_count := nfts_count col + 1\<rparr>),
    nfts := (nfts s)((c, n) \<mapsto> nft)\<rparr>)" (is "counted_up_to f ?s")
  unfolding counted_up_to_def
proof (intro allI impI)
  fix c' col' assume col': "collections ?s c' = Some col'"
  have rec: "records ?s c' = (if c' = c then insert n (records s c) else records s c')"
    by (auto simp: records_def)
  have "n \<notin> records s c" using assms(4) by (simp add: records_def)
  moreover have "unat (nfts_count col + 1) = Suc (unat (nfts_count col))"
    using assms(3) by (simp add: unat_plus_one_u32)
  ultimately show "unat (nfts_count col') \<le> card (records ?s c') + f c'"
    using counted_up_toD[OF assms(1), of c'] col' assms(2) by (auto simp: rec split: if_splits)
qed

section \<open>Every call keeps the census\<close>

lemma keeps_conj: "keeps I m \<Longrightarrow> keeps J m \<Longrightarrow> keeps (\<lambda>s. I s \<and> J s) m"
  by (auto simp: keeps_def)

lemma censusI: "keeps supply_ok m \<Longrightarrow> keeps (counted_up_to (\<lambda>_. 0)) m \<Longrightarrow> keeps census m"
  unfolding census_def by (rule keeps_conj)

lemma fresh_id: "supply_ok s \<Longrightarrow> nfts s (c, next_nft_id s c) = None"
  using supply_okD(1)[of s c "next_nft_id s c"] by (cases "nfts s (c, next_nft_id s c)") auto

lemma keeps_census_mint:
  "keeps census (nft_mint a ow c rcp am md tr)"
  "keeps census (nft_mint_directly_to_nft E a p c rcp am md tr)"
  unfolding census_def
  by (rule keepsI; auto simp: success_nft_mint success_nft_mint_directly fresh_id
      intro: supply_ok_minted counted_minted)+

lemma keeps_census_collection:
  "keeps census (collection_create a md mx sy)" "keeps census (collection_burn a c)"
  "keeps census (collection_change_issuer c a)" "keeps census (collection_lock a c)"
proof -
  note mono = counted_up_to_mono[where f = "\<lambda>_. 0"]
  show "keeps census (collection_create a md mx sy)"
    by (intro censusI keeps_supply_collection keepsI)
      (auto simp: success_collection_create records_def elim!: mono split: if_splits)
  show "keeps census (collection_burn a c)"
    by (intro censusI keeps_supply_collection keepsI)
      (auto simp: success_collection_burn records_def elim!: mono split: if_splits)
  show "keeps census (collection_change_issuer c a)"
    by (intro censusI keeps_supply_collection keepsI)
      (auto simp: success_collection_change_issuer mutate_exists_def records_def
        elim!: mono split: if_splits option.splits)
  show "keeps census (collection_lock a c)"
    by (intro censusI keeps_supply_collection keepsI)
      (auto simp: success_collection_lock records_def elim!: mono split: if_splits)
qed

lemma counted_written:
  "counted_up_to f s \<Longrightarrow> nfts s k = Some nft \<Longrightarrow> counted_up_to f (s\<lparr>nfts := (nfts s)(k \<mapsto> nft')\<rparr>)"
  "counted_up_to f s \<Longrightarrow> counted_up_to f (s\<lparr>nfts := mutate_exists k g (nfts s)\<rparr>)"
  by (erule counted_up_to_mono, simp, simp add: records_written)+

lemma keeps_census_transfer:
  "keeps census (nft_send E a k ow)" "keeps census (nft_accept E a k ow)"
proof -
  show "keeps census (nft_send E a k ow)"
    by (intro censusI keeps_supply_send keepsI) (auto elim!: nft_send_success intro: counted_written(1))
  show "keeps census (nft_accept E a k ow)"
    by (intro censusI keeps_supply_accept keepsI) (auto simp: success_nft_accept intro: counted_written(1))
qed

lemma keeps_census_core: "keeps census (core_dispatch E org c)"
  by (rule keeps_core_dispatch)
    (simp_all add: keeps_census_mint keeps_census_collection keeps_census_transfer keeps_resource_add
      censusI keeps_supply_burn keeps_counted_burn)

lemma keeps_census_equip: "keeps census (equip_dispatch E org c)"
proof (rule censusI[OF keeps_supply_equip])
  show "keeps (counted_up_to (\<lambda>_. 0)) (equip_dispatch E org c)"
    by (rule keeps_equip_dispatch) (auto intro!: keeps_base_operations counted_written(2))
qed

lemma keeps_census_market: "keeps census (market_dispatch E org c)"
  using keeps_census_core[of E _ "Send k (AccountId b)" for k b]
  by (intro keeps_market_dispatch) simp_all

interpretation headcount: step_invariant "runtime_step E F" census for E F
  by unfold_locales
    (rule step_keepsI[OF keeps_census_core keeps_census_equip keeps_census_market
        keeps_template_dispatch]; simp)

end
