(* ===== verification/Chain_Props.thy ===== *)
theory Chain_Props
  imports Genesis Nft_Props Census
begin

text \<open>
  Properties of the whole chain: what holds in every state reached from genesis, what holds of an
  NFT or of a collection along any history, and the atomicity of calls. A step is any call of the
  four pallets, whether it succeeds or fails, or any change of the storage of the external pallets.
\<close>

section \<open>Reachable states\<close>

lemma genesis_census: "census (genesis_storage x)"
proof -
  have "counted_up_to (\<lambda>_. 0) (genesis_storage x)"
    by (simp add: counted_up_to_def genesis_storage_def)
  then show ?thesis using genesis_chain_ok[of x] unfolding census_def chain_ok_def by blast
qed

text \<open>C14. In every state reached from genesis, by any calls and whatever the rest of the chain does:
  every NFT's identifier is below the counter of its collection, every collection's below the
  collection counter; a collection counts no more NFTs than it has records of NFTs, nor than it has
  handed out identifiers, nor than its maximum; a resource is stored under its own identifier, below
  the counter of its NFT; a part is stored under its own identifier and belongs to a base that
  exists; an offer is stored under its maker.\<close>

theorem reachable_states_are_consistent:
  assumes "(runtime_step E F)\<^sup>*\<^sup>* (genesis_storage x) s"
  shows "(nfts s (c, n) = Some nft \<longrightarrow> n < next_nft_id s c) \<and>
    (collections s c = Some col \<longrightarrow> c < collection_index s \<and> nfts_count col \<le> next_nft_id s c \<and>
      unat (nfts_count col) \<le> card {n. nfts s (c, n) \<noteq> None} \<and>
      (\<forall>mx. col_max col = Some mx \<longrightarrow> nfts_count col \<le> mx)) \<and>
    (resources s (k, r) = Some res \<longrightarrow> r < next_resource_id s k \<and> res_id res = r) \<and>
    (parts s (b, i) = Some p \<longrightarrow> id_of_part p = i \<and> bases s b \<noteq> None \<and> b < next_base_id s) \<and>
    (offers s (k, a) = Some off \<longrightarrow> maker off = a)"
proof -
  have ok: "supply_ok s" "resources_ok s" "bases_ok s" "offers_ok s"
    using reachable_chain_ok[OF assms] by (simp_all add: chain_ok_def)
  have "bases s b \<noteq> None \<and> id_of_part p = i \<and> b < next_base_id s" if "parts s (b, i) = Some p"
    using ok(3) that unfolding bases_ok_def by blast
  moreover have "r < next_resource_id s k \<and> res_id res = r" if "resources s (k, r) = Some res"
    using ok(2) that unfolding resources_ok_def by blast
  moreover have "maker off = a" if "offers s (k, a) = Some off"
    using ok(4) that unfolding offers_ok_def by blast
  moreover have "census s"
    by (rule headcount.steps_keep[OF assms]) (simp add: genesis_census)
  then have "unat (nfts_count col) \<le> card {n. nfts s (c, n) \<noteq> None}" if "collections s c = Some col"
    using that by (simp add: census_def counted_up_to_def records_def)
  ultimately show ?thesis using supply_okD[OF ok(1)] by blast
qed

lemma first_collection:
  "\<exists>s. create_collection sample (Signed bob) md mx sy (genesis_storage x) = Some (Inr (), s) \<and>
     collections s 0 = Some \<lparr>col_issuer = bob, col_metadata = md, col_max = mx, col_symbol = sy,
       nfts_count = 0\<rparr>" if "collection_owner x 0 = None"
  using that
  by (auto simp: create_collection_def success genesis_storage_def sample_create_def)

theorem reachable_states_are_consistent_witness:
  "\<exists>s. (runtime_step sample (=))\<^sup>*\<^sup>* (genesis_storage (demo_ledger\<lparr>collection_owner := Map.empty\<rparr>)) s \<and>
     collections s 0 \<noteq> None \<and> 0 < collection_index s"
proof -
  let ?x = "demo_ledger\<lparr>collection_owner := Map.empty\<rparr>"
  obtain s col where run: "create_collection sample (Signed bob) [] None [] (genesis_storage ?x)
      = Some (Inr (), s)" and col: "collections s 0 = Some col"
    using first_collection[of ?x "[]" None "[]"] by auto
  have "runtime_step sample (=) (genesis_storage ?x) s"
    by (rule core_step[of sample "Signed bob" "CreateCollection [] None []"]) (simp add: run)
  then have "(runtime_step sample (=))\<^sup>*\<^sup>* (genesis_storage ?x) s" by (rule r_into_rtranclp)
  with reachable_states_are_consistent[OF this] col show ?thesis by blast
qed

section \<open>The life of an NFT\<close>

text \<open>C24. For life: once an identifier was handed out, the NFT that bears it keeps its metadata, its
  royalty and whether it is transferable in every later state in which it exists, and once it is
  gone it never comes back.\<close>

theorem nft_record_is_for_life:
  assumes "(runtime_step E F)\<^sup>*\<^sup>* s s'" "n < next_nft_id s c"
  shows "(\<forall>nft nft'. nfts s (c, n) = Some nft \<longrightarrow> nfts s' (c, n) = Some nft' \<longrightarrow>
      royalty nft' = royalty nft \<and> nft_metadata nft' = nft_metadata nft \<and>
      transferable nft' = transferable nft) \<and>
    (nfts s (c, n) = None \<longrightarrow> nfts s' (c, n) = None)"
proof -
  have "nfts s' (c, n) = None" if "nfts s (c, n) = None"
    by (rule gone_stays_gone[OF assms that])
  moreover have "immutable_part nft' = immutable_part nft"
    if "nfts s (c, n) = Some nft" "nfts s' (c, n) = Some nft'" for nft nft'
  proof -
    have "frozen (c, n) (immutable_part nft) s"
      using that(1) assms(2) by (simp add: frozen_def handed_out_def)
    then have "frozen (c, n) (immutable_part nft) s'" by (rule frozen.steps_keep[OF assms(1)])
    with that(2) show ?thesis unfolding frozen_def by blast
  qed
  ultimately show ?thesis unfolding immutable_part_def by blast
qed

lemma demo_step:
  "\<exists>s'. (runtime_step sample F)\<^sup>*\<^sup>* demo s' \<and> nfts s' (0, 2) = Some (plain_nft (AccountId charlie))"
proof -
  obtain s' where run: "send sample (Signed bob) (0, 2) (AccountId charlie) demo = Some (Inr (), s')"
    using demo_send by blast
  have "runtime_step sample F demo s'"
    by (rule core_step[of sample "Signed bob" "Send (0, 2) (AccountId charlie)"]) (simp add: run)
  moreover have "nfts s' (0, 2) = Some (plain_nft (AccountId charlie))"
    using run by (rule send_effect) (auto simp: sent_record_def plain_nft_def success)
  ultimately show ?thesis by blast
qed

theorem nft_record_is_for_life_witness:
  "\<exists>s'. (runtime_step sample (=))\<^sup>*\<^sup>* demo s' \<and> nfts s' (0, 2) = Some (plain_nft (AccountId charlie)) \<and>
     transferable (plain_nft (AccountId charlie)) = transferable (plain_nft (AccountId bob))"
proof -
  obtain s' where steps: "(runtime_step sample (=))\<^sup>*\<^sup>* demo s'"
    and nft: "nfts s' (0, 2) = Some (plain_nft (AccountId charlie))"
    using demo_step[of "(=)"] by blast
  have "2 < next_nft_id demo 0" by simp
  from nft_record_is_for_life[OF steps this] nft
  have "transferable (plain_nft (AccountId charlie)) = transferable (plain_nft (AccountId bob))"
    using demo_simps(9) by blast
  with steps nft show ?thesis by blast
qed

text \<open>C16. Identifiers are never reused: an NFT that comes into being in a collection later, through
  \<^verbatim>\<open>mint_nft\<close>, \<^verbatim>\<open>mint_nft_directly_to_nft\<close> or whatever calls are made, has an identifier above those of all
  NFTs the collection had at any earlier time, also of those burned since; it was handed out by the
  counter after that time.\<close>

theorem nft_ids_are_never_reused:
  assumes "chain_ok s" "nfts s (c, n) \<noteq> None"
    and "(runtime_step E F)\<^sup>*\<^sup>* s s'" "(runtime_step E F)\<^sup>*\<^sup>* s' s''"
    and "nfts s' (c, i) = None" "nfts s'' (c, i) \<noteq> None"
  shows "n < i \<and> next_nft_id s' c \<le> i \<and> i < next_nft_id s'' c"
proof -
  have ok: "chain_ok s'" by (rule chain.steps_keep[OF assms(3,1)])
  then have "chain_ok s''" by (rule chain.steps_keep[OF assms(4)])
  with assms(1) have ids_ok: "supply_ok s" "supply_ok s''" by (simp_all add: chain_ok_def)
  have "handed_out c n s"
    using assms(2) supply_okD(1)[OF ids_ok(1), of c n] by (auto simp: handed_out_def)
  then have "n < next_nft_id s' c"
    using ids.steps_keep[OF assms(3), of c n] by (simp add: handed_out_def)
  moreover have "next_nft_id s' c \<le> i"
    using gone_stays_gone[OF assms(4) _ assms(5)] assms(6) not_less by blast
  moreover have "i < next_nft_id s'' c"
    using assms(6) supply_okD(1)[OF ids_ok(2), of c i] by auto
  ultimately show ?thesis by simp
qed

lemma demo_chain_ok: "chain_ok demo"
  by (auto simp: chain_ok_def supply_ok_def resources_ok_def bases_ok_def offers_ok_def demo_def
      demo_collection_def split: if_splits)

theorem nft_ids_are_never_reused_witness:
  "\<exists>s'. mint_nft_directly_to_nft sample (Signed alice) (0, 0) 0 None None [] True None demo
      = Some (Inr (), s') \<and> nfts s' (0, 3) \<noteq> None \<and> (2::nft_id) < 3 \<and> 3 < next_nft_id s' 0"
proof -
  obtain s' where run: "mint_nft_directly_to_nft sample (Signed alice) (0, 0) 0 None None [] True None demo
      = Some (Inr (), s')"
    using demo_mint_directly by blast
  then have new: "nfts s' (0, 3) \<noteq> None"
    by (rule mint_directly_effect) (auto dest!: add_mint_resources_frame(2))
  have "runtime_step sample (=) demo s'"
    by (rule core_step[of sample "Signed alice"
        "MintNftDirectlyToNft (0, 0) 0 None None [] True None"]) (simp add: run)
  then have steps: "(runtime_step sample (=))\<^sup>*\<^sup>* demo s'" by (rule r_into_rtranclp)
  have "nfts demo (0, 2) \<noteq> None" by simp
  from nft_ids_are_never_reused[OF demo_chain_ok this rtranclp.rtrancl_refl steps _ new] run new
  show ?thesis using demo_nfts[of "(0, 3)"] by simp
qed

section \<open>Locked collections\<close>

text \<open>C17. Locking a collection is final: whatever happens afterwards (burning NFTs, changing the issuer,
  locking again), no identifier is ever handed out in it again and it never has an NFT it did not
  have when it was locked.\<close>

theorem locked_collection_never_grows:
  assumes "chain_ok s" "lock_collection org c s = Some (Inr (), s')" "(runtime_step E F)\<^sup>*\<^sup>* s' s''"
  shows "next_nft_id s'' c = next_nft_id s' c \<and> (nfts s'' (c, n) \<noteq> None \<longrightarrow> nfts s' (c, n) \<noteq> None)"
proof -
  obtain a col where col: "collections s c = Some col" and
    s': "s' = s\<lparr>collections := (collections s)(c \<mapsto> col\<lparr>col_max := Some (nfts_count col)\<rparr>),
      events := events s @ [CoreEvent (CollectionLocked a c)]\<rparr>"
    using assms(2) by (auto simp: lock_collection_def success)
  have ok: "supply_ok s" using assms(1) by (simp add: chain_ok_def)
  have "closed_at c (next_nft_id s' c) s'"
    using supply_okD(2,3)[OF ok col] by (simp add: s' closed_at_def)
  then have "closed_at c (next_nft_id s' c) s''" by (rule closed.steps_keep[OF assms(3)])
  then have counter: "next_nft_id s'' c = next_nft_id s' c" unfolding closed_at_def by blast
  have "runtime_step E F s s'"
    by (rule core_step[of E org "LockCollection c"]) (simp add: assms(2))
  then have "chain_ok s'" by (rule chain.step_keeps[OF assms(1)])
  have gone: "nfts s'' (c, n) = None" if none: "nfts s' (c, n) = None"
  proof (cases "n < next_nft_id s' c")
    case True
    then show ?thesis using gone_stays_gone[OF assms(3)] none by blast
  next
    case False
    then have "\<not> n < next_nft_id s'' c" using counter by simp
    then show ?thesis
      using chain.steps_keep[OF assms(3) \<open>chain_ok s'\<close>] supply_okD(1)[of s'' c n]
      by (cases "nfts s'' (c, n)") (auto simp: chain_ok_def)
  qed
  show ?thesis
    using gone by (intro conjI counter impI) auto
qed

theorem locked_collection_never_grows_witness:
  "\<exists>s'. lock_collection (Signed alice) 0 demo = Some (Inr (), s') \<and>
     (\<forall>s''. (runtime_step sample (=))\<^sup>*\<^sup>* s' s'' \<longrightarrow> next_nft_id s'' 0 = 3 \<and> nfts s'' (0, 3) = None)"
proof -
  obtain s' where run: "lock_collection (Signed alice) 0 demo = Some (Inr (), s')"
    and s': "next_nft_id s' 0 = 3" "nfts s' = nfts demo"
    by (auto simp: lock_collection_def success)
  have "next_nft_id s'' 0 = 3 \<and> nfts s'' (0, 3) = None"
    if "(runtime_step sample (=))\<^sup>*\<^sup>* s' s''" for s''
    using locked_collection_never_grows[OF demo_chain_ok run that, of 3] s' demo_nfts[of "(0, 3)"]
    by auto
  with run show ?thesis by blast
qed

section \<open>Calls\<close>

text \<open>C29. Every call of the four pallets is atomic: one that fails, at whatever point, changes nothing,
  neither in the storage of the pallets nor in the external storage nor in the events.\<close>

theorem failing_call_changes_nothing:
  assumes "runtime_dispatch E org call = Some m" "m s = Some (Inl e, s')"
  shows "s' = s"
  using assms by (rule dispatch_error_unchanged)

theorem failing_call_changes_nothing_witness:
  "\<exists>e s'. send sample (Signed alice) (0, 2) (AccountId alice) demo = Some (Inl e, s') \<and> s' = demo"
proof -
  have run: "send sample (Signed alice) (0, 2) (AccountId alice) demo
      = Some (Inl (CoreError NoPermission), demo)"
    by (simp add: send_def nft_send_def run_simps root_ownerM_def)
  show ?thesis
    using failing_call_changes_nothing[where m = "send sample (Signed alice) (0, 2) (AccountId alice)"
        and call = "RmrkCore (Send (0, 2) (AccountId alice))", OF _ run] run
    by auto
qed

text \<open>\<^verbatim>\<open>deposit\<close> never overflows: for any two 32-bit arguments it is the price of the items and
  the bytes, computed without wrap-around.\<close>

theorem deposit_never_overflows:
  "unat (deposit i b) = 15 * 10 ^ 12 * unat i + 6 * 10 ^ 12 * unat b"
proof -
  have u: "unat i < 2 ^ 32" "unat b < 2 ^ 32"
    using unsigned_less[of i] unsigned_less[of b] by simp_all
  have "deposit i b = word_of_nat (15 * 10 ^ 12 * unat i + 6 * 10 ^ 12 * unat b)" (is "_ = word_of_nat ?n")
    by (simp add: deposit_def CENTS_def MILLICENTS_def)
  then have "unat (deposit i b) = ?n mod 2 ^ 128"
    by (simp only: unat_of_nat len_bit0 len_num1 mult_1_right) simp
  moreover have "?n < 2 ^ 128" using u by simp
  ultimately show ?thesis by (simp only: mod_less)
qed

end
