(* ===== verification/Runtime_Props.thy ===== *)
theory Runtime_Props
  imports Escrow Items Sale_Lock Panics Progress Chain_Props
begin

text \<open>
  Properties of the composed runtime: the accounting of the market, the two sides of an NFT, the
  refinement of the desk and what it promises, the bounds of the storage, the absence of panics and
  of calls that hang, and the genesis endowments.
\<close>

section \<open>The market's accounting\<close>

text \<open>C4. In every state reached from genesis the reserved balance of an account covers all its
  outstanding offers at once, next to the deposits \<^verbatim>\<open>pallet_uniques\<close> keeps there: placing, withdrawing
  and accepting offers never reserves too little or releases too much.\<close>

theorem offers_are_backed:
  assumes "uniques_laws E" "currency_laws E" "deposit_laws E dep" "escrow_untouched E dep F"
    and "\<forall>b. dep x b \<le> cur_reserved E x b" "(runtime_step E F)\<^sup>*\<^sup>* (genesis_storage x) s"
  shows "owed (offers s) a + dep (ext s) a \<le> cur_reserved E (ext s) a \<and>
    (offers s (k, a) = Some off \<longrightarrow> unat (offer_amount off) \<le> cur_reserved E (ext s) a)"
proof -
  have "escrow_laws E F dep" using assms(1-4) by (simp add: escrow_laws_def)
  moreover have "backed E dep (genesis_storage x)"
    using assms(5) by (simp add: backed_def genesis_storage_def offers_ok_def owed_def)
  ultimately have ok: "backed E dep s" using escrow.steps_keep[OF assms(6)] by blast
  then have "owed (offers s) a + dep (ext s) a \<le> cur_reserved E (ext s) a" "finite (dom (offers s))"
    by (simp_all add: backed_def)
  moreover have "unat (offer_amount off) \<le> owed (offers s) a" if "offers s (k, a) = Some off"
    by (rule owed_offer[OF calculation(2) that])
  ultimately show ?thesis by linarith
qed

lemma sample_deposits: "deposit_laws sample (\<lambda>_ _. 0)"
  by (auto simp: deposit_laws_def sample_mint_def sample_burn_def sample_transfer_def
      sample_create_def sample_destroy_def sample_ownership_def
      elim!: uniques_op.cases split: if_splits raw_origin.splits)

text \<open>A bid by Alice on the item of Bob, at genesis.\<close>

lemma first_bid:
  "\<exists>s. make_offer sample (Signed alice) (0, 2) 200 None (genesis_storage demo_ledger) = Some (Inr (), s) \<and>
     offers s ((0, 2), alice) = Some \<lparr>maker = alice, offer_amount = 200, offer_expires = None\<rparr> \<and>
     cur_reserved sample (ext s) alice = 200"
  by (auto simp: make_offer_def success sample_reserve_def has_active_offer_def genesis_storage_def)

theorem offers_are_backed_witness:
  "\<exists>s. (runtime_step sample (=))\<^sup>*\<^sup>* (genesis_storage demo_ledger) s \<and>
     offers s ((0, 2), alice) \<noteq> None \<and> owed (offers s) alice \<le> 200"
proof -
  obtain s where run: "make_offer sample (Signed alice) (0, 2) 200 None (genesis_storage demo_ledger)
      = Some (Inr (), s)" and off: "offers s ((0, 2), alice) \<noteq> None"
    and reserved: "cur_reserved sample (ext s) alice = 200"
    using first_bid by auto
  have "runtime_step sample (=) (genesis_storage demo_ledger) s"
    by (rule market_step[of sample "Signed alice" "MakeOffer (0, 2) 200 None"]) (simp add: run)
  then have steps: "(runtime_step sample (=))\<^sup>*\<^sup>* (genesis_storage demo_ledger) s" by blast
  have "escrow_untouched sample (\<lambda>_ _. 0) (=)" by (simp add: escrow_untouched_def)
  from offers_are_backed[OF sample_uniques sample_currency sample_deposits this _ steps, of alice]
    reserved have "owed (offers s) alice \<le> 200" by simp
  with steps off show ?thesis by blast
qed

section \<open>The two sides of an NFT\<close>

text \<open>C7. In every state reached from genesis every NFT with a record in rmrk-core has its item in
  \<^verbatim>\<open>pallet_uniques\<close> and its collection in rmrk-core, as long as nobody outside the pallets burns
  items (the runtime's filter keeps \<^verbatim>\<open>burn\<close> of \<^verbatim>\<open>pallet_uniques\<close> from users): destroying a collection
  never strands an NFT. The converse fails; see \<open>reject_nft_correct\<close>.\<close>

theorem every_record_has_its_item_and_collection:
  assumes "uniques_laws E" "currency_laws E" "witness_law E" "items_kept E F"
    and "(runtime_step E F)\<^sup>*\<^sup>* (genesis_storage x) s" "nfts s (c, n) = Some nft"
  shows "(\<exists>a. uq_owner E (ext s) (c, n) = Some a) \<and> (\<exists>col. collections s c = Some col)"
proof -
  have laws: "record_laws E F" using assms(1-4) by (simp add: record_laws_def)
  have "itemised E (genesis_storage x) \<and> housed (genesis_storage x)"
    by (simp add: itemised_def housed_def genesis_storage_def)
  then have "itemised E s \<and> housed s" using houses.steps_keep[OF assms(5)] laws by blast
  then show ?thesis using assms(6) unfolding itemised_def housed_def by blast
qed

text \<open>The first collection of an empty ledger and its first NFT.\<close>

definition bare_ledger :: ledger where
  "bare_ledger = demo_ledger\<lparr>items := Map.empty, collection_owner := Map.empty\<rparr>"

lemma bare_ledger_simps [simp]:
  "items bare_ledger = Map.empty" "collection_owner bare_ledger = Map.empty" "now bare_ledger = 5"
  by (simp_all add: bare_ledger_def)

lemma first_mint:
  "\<exists>s1 s2. create_collection sample (Signed bob) [] None [] (genesis_storage bare_ledger)
      = Some (Inr (), s1) \<and>
     mint_nft sample (Signed bob) None 0 None None [] True None s1 = Some (Inr (), s2) \<and>
     nfts s2 (0, 0) = Some (plain_nft (AccountId bob)) \<and> items (ext s2) (0, 0) = Some bob \<and>
     \<not> lock s2 (0, 0)"
  by (auto simp: create_collection_def mint_nft_def success genesis_storage_def sample_create_def
      sample_mint_def add_mint_resources_def plain_nft_def mint_royalty_def Let_def)

lemma two_steps: "R a b \<Longrightarrow> R b c \<Longrightarrow> R\<^sup>*\<^sup>* a c"
  by (rule converse_rtranclp_into_rtranclp[OF _ r_into_rtranclp])

lemma bounded_core_step:
  "core_call_fits L c \<Longrightarrow> core_dispatch E org c s = Some (r, s') \<Longrightarrow> bounded_step L E F s s'"
  by (rule bounded_step.call[where c = "RmrkCore c" and m = "core_dispatch E org c"])
    (simp_all add: base_filter_def)

lemma plain_core_step:
  "plain_call E org (RmrkCore c) \<Longrightarrow> core_dispatch E org c s = Some (r, s') \<Longrightarrow> plain_step E F s s'"
  by (rule plain_step.call[where c = "RmrkCore c" and m = "core_dispatch E org c"])
    (simp_all add: base_filter_def)

text \<open>Both calls are steps of the runtime, of its runs within the limits and of its plain runs.\<close>

lemma first_nft:
  "\<exists>s. (runtime_step sample F)\<^sup>*\<^sup>* (genesis_storage bare_ledger) s \<and>
     (bounded_step runtime_limits sample F)\<^sup>*\<^sup>* (genesis_storage bare_ledger) s \<and>
     (plain_step sample F)\<^sup>*\<^sup>* (genesis_storage bare_ledger) s \<and>
     nfts s (0, 0) = Some (plain_nft (AccountId bob)) \<and> items (ext s) (0, 0) = Some bob \<and>
     \<not> lock s (0, 0)"
proof -
  let ?create = "CreateCollection [] None [] :: (account32, account32) core_call"
  let ?mint = "MintNft None 0 None None [] True None :: (account32, account32) core_call"
  obtain s1 s2 where run: "core_dispatch sample (Signed bob) ?create (genesis_storage bare_ledger)
      = Some (Inr (), s1)" "core_dispatch sample (Signed bob) ?mint s1 = Some (Inr (), s2)"
    and nft: "nfts s2 (0, 0) = Some (plain_nft (AccountId bob))" "items (ext s2) (0, 0) = Some bob"
      "\<not> lock s2 (0, 0)"
    using first_mint by auto
  have "runtime_step sample F (genesis_storage bare_ledger) s1" "runtime_step sample F s1 s2"
    by (rule core_step[OF run(1)] core_step[OF run(2)])+
  then have "(runtime_step sample F)\<^sup>*\<^sup>* (genesis_storage bare_ledger) s2" by (rule two_steps)
  moreover have "bounded_step runtime_limits sample F (genesis_storage bare_ledger) s1"
    "bounded_step runtime_limits sample F s1 s2"
    by (rule bounded_core_step[OF _ run(1)] bounded_core_step[OF _ run(2)],
        simp add: text_fits_def mint_fits_def)+
  then have "(bounded_step runtime_limits sample F)\<^sup>*\<^sup>* (genesis_storage bare_ledger) s2"
    by (rule two_steps)
  moreover have "plain_step sample F (genesis_storage bare_ledger) s1" "plain_step sample F s1 s2"
    by (rule plain_core_step[OF _ run(1)] plain_core_step[OF _ run(2)], simp add: plain_call_def)+
  then have "(plain_step sample F)\<^sup>*\<^sup>* (genesis_storage bare_ledger) s2" by (rule two_steps)
  ultimately show ?thesis using nft by blast
qed

theorem every_record_has_its_item_and_collection_witness:
  "\<exists>s a col. (runtime_step sample (=))\<^sup>*\<^sup>* (genesis_storage bare_ledger) s \<and>
     nfts s (0, 0) = Some (plain_nft (AccountId bob)) \<and> uq_owner sample (ext s) (0, 0) = Some a \<and>
     collections s 0 = Some col"
proof -
  obtain s where steps: "(runtime_step sample (=))\<^sup>*\<^sup>* (genesis_storage bare_ledger) s"
    and nft: "nfts s (0, 0) = Some (plain_nft (AccountId bob))"
    using first_nft[of "(=)"] by blast
  have "items_kept sample (=)" by (simp add: items_kept_def)
  from every_record_has_its_item_and_collection[OF sample_uniques sample_currency sample_witnesses
      this steps nft] steps nft
  show ?thesis by blast
qed

section \<open>The lock\<close>

text \<open>C10. No NFT is left locked: in every state reached from genesis a locked NFT is listed, by whoever
  owns it, so its owner can call the sale off at any time and the NFT is free to move again, as
  long as nobody outside the pallets hands items around. (A listing may outlive its lock, after
  \<^verbatim>\<open>accept_offer\<close>; a lock never outlives its listing.)\<close>

theorem a_locked_nft_can_always_be_unlisted:
  assumes "uniques_laws E" "currency_laws E" "no_foreign_owners E F"
    and "(runtime_step E F)\<^sup>*\<^sup>* (genesis_storage x) s" "lock s k"
  shows "(\<exists>li. listed_nfts s k = Some li \<and> (\<forall>a. uq_owner E (ext s) k = Some a \<longrightarrow> listed_by li = a)) \<and>
    (\<forall>a. uq_owner E (ext s) k = Some a \<longrightarrow>
      (\<exists>s'. unlist E (Signed a) k s = Some (Inr (), s') \<and> \<not> lock s' k \<and> listed_nfts s' k = None))"
proof -
  have "supply_ok (genesis_storage x)"
    using genesis_chain_ok[of x] unfolding chain_ok_def by blast
  moreover have "listed_by_owner E (genesis_storage x)"
    by (simp add: listed_by_owner_def genesis_storage_def)
  ultimately have "listed_by_owner E s" using sale_lock.steps_keep[OF assms(4)] assms(1-3) by blast
  then obtain li where "listed_nfts s k = Some li" "\<And>a. uq_owner E (ext s) k = Some a \<Longrightarrow> listed_by li = a"
    using assms(5) by (rule listed_by_ownerD) blast
  then show ?thesis by (auto simp: success_unlist)
qed

text \<open>Bob puts the first NFT up for sale.\<close>

lemma first_listing:
  "\<exists>s. (runtime_step sample (=))\<^sup>*\<^sup>* (genesis_storage bare_ledger) s \<and> lock s (0, 0) \<and>
     items (ext s) (0, 0) = Some bob"
proof -
  obtain s where steps: "(runtime_step sample (=))\<^sup>*\<^sup>* (genesis_storage bare_ledger) s"
    and nft: "nfts s (0, 0) = Some (plain_nft (AccountId bob))" "items (ext s) (0, 0) = Some bob"
    using first_nft[of "(=)"] by blast
  obtain s' where run: "market_dispatch sample (Signed bob) (ListNft (0, 0) 500 None) s = Some (Inr (), s')"
    and s': "lock s' (0, 0)" "items (ext s') (0, 0) = Some bob"
    using nft by (auto simp: success_list_nft)
  from rtranclp.rtrancl_into_rtrancl[OF steps market_step[OF run]] s' show ?thesis by blast
qed

theorem a_locked_nft_can_always_be_unlisted_witness:
  "\<exists>s s'. (runtime_step sample (=))\<^sup>*\<^sup>* (genesis_storage bare_ledger) s \<and> lock s (0, 0) \<and>
     unlist sample (Signed bob) (0, 0) s = Some (Inr (), s') \<and> \<not> lock s' (0, 0)"
proof -
  obtain s where s: "(runtime_step sample (=))\<^sup>*\<^sup>* (genesis_storage bare_ledger) s" "lock s (0, 0)"
    "items (ext s) (0, 0) = Some bob"
    using first_listing by blast
  have "no_foreign_owners sample (=)" by (simp add: no_foreign_owners_def)
  from a_locked_nft_can_always_be_unlisted[OF sample_uniques sample_currency this s(1,2)] s
  show ?thesis by auto
qed

section \<open>The runtime as a desk\<close>

text \<open>C1. The four pallets together refine the trading desk of \<open>Desk\<close>: in every state reached from
  genesis, a call that succeeds either changes nothing of who holds which NFT, what is held back,
  asked and bid, or it was signed and it is one step of the desk taken by its signer.\<close>

theorem calls_refine_the_desk:
  assumes "uniques_laws E" "currency_laws E" "(runtime_step E F)\<^sup>*\<^sup>* (genesis_storage x) s"
    and "runtime_dispatch E org call = Some m" "m s = Some (Inr (), s')"
  shows "desk_of E s' = desk_of E s \<or>
    (\<exists>a. org = Signed a \<and> desk_step (decode_nft_account_id E) a (desk_of E s) (desk_of E s'))"
  using reachable_chain_ok[OF assms(3)]
  by (intro runtime_refines[OF assms(1,2) _ assms(4,5)]) (simp add: chain_ok_def)

theorem calls_refine_the_desk_witness:
  "\<exists>s. make_offer sample (Signed alice) (0, 2) 200 None (genesis_storage demo_ledger) = Some (Inr (), s) \<and>
     desk_step (decode_nft_account_id sample) alice (desk_of sample (genesis_storage demo_ledger))
       (desk_of sample s)"
proof -
  obtain s where run: "make_offer sample (Signed alice) (0, 2) 200 None (genesis_storage demo_ledger)
      = Some (Inr (), s)" and off: "offers s ((0, 2), alice) \<noteq> None"
    using first_bid by auto
  have "bids (desk_of sample s) \<noteq> bids (desk_of sample (genesis_storage demo_ledger))"
    using off by (auto simp: genesis_storage_def)
  then have "desk_of sample s \<noteq> desk_of sample (genesis_storage demo_ledger)" by metis
  moreover have "runtime_dispatch sample (Signed alice) (RmrkMarket (MakeOffer (0, 2) 200 None))
      = Some (make_offer sample (Signed alice) (0, 2) 200 None)" by simp
  from calls_refine_the_desk[where m = "make_offer sample (Signed alice) (0, 2) 200 None",
      OF sample_uniques sample_currency rtranclp.rtrancl_refl[of "runtime_step sample (=)"] this run]
  have "desk_of sample s = desk_of sample (genesis_storage demo_ledger) \<or>
    (\<exists>a. Signed alice = Signed a \<and> desk_step (decode_nft_account_id sample) a
      (desk_of sample (genesis_storage demo_ledger)) (desk_of sample s))" .
  ultimately show ?thesis using run by blast
qed

text \<open>C2. No NFT leaves its owner without consent, through any call of any pallet: the call was signed by
  the account that root-owns the NFT, or it was a purchase, signed by the new owner, of an NFT
  that its direct owner had put up for sale and that stayed listed since.\<close>

theorem no_nft_leaves_without_consent:
  assumes "uniques_laws E" "currency_laws E" "(runtime_step E F)\<^sup>*\<^sup>* (genesis_storage x) s"
    and "runtime_dispatch E org call = Some m" "m s = Some (Inr (), s')"
    and "uq_owner E (ext s) k = Some b" "uq_owner E (ext s') k \<noteq> Some b"
  shows "\<exists>a. org = Signed a \<and>
    ((\<exists>r. lookup_root_owner E (ext s) k = Some (Inr (a, r))) \<or>
     (\<exists>li. listed_nfts s k = Some li \<and> listed_by li = b \<and> uq_owner E (ext s') k = Some a))"
proof -
  have "offers_ok s" using reachable_chain_ok[OF assms(3)] by (simp add: chain_ok_def)
  from runtime_refines[OF assms(1,2) this assms(4,5)]
  have "\<exists>a. org = Signed a \<and> desk_step (decode_nft_account_id E) a (desk_of E s) (desk_of E s')"
  proof
    assume "desk_of E s' = desk_of E s"
    then have "holder (desk_of E s') = holder (desk_of E s)" by simp
    with assms(6,7) show ?thesis by simp
  qed
  then obtain a where a: "org = Signed a"
    and step: "desk_step (decode_nft_account_id E) a (desk_of E s) (desk_of E s')" by blast
  show ?thesis
    using desk_consent[OF step, of k b] a assms(6,7) by (auto simp: in_hands_of_lookup)
qed

lemma bob_sends:
  assumes "nfts s (0, 0) = Some (plain_nft (AccountId bob))" "items (ext s) (0, 0) = Some bob"
    "\<not> lock s (0, 0)"
  shows "\<exists>s'. send sample (Signed bob) (0, 0) (AccountId charlie) s = Some (Inr (), s') \<and>
    items (ext s') (0, 0) = Some charlie"
proof -
  have "lookup_root_owner sample (ext s) (0, 0) = Some (Inr (bob, (0, 0)))"
    using assms(2) by (simp add: lookup_step)
  then show ?thesis
    using assms by (auto simp: send_def nft_send_def uniques_transfer_def success store_sent_def
        sample_transfer_def is_locked_def)
qed

theorem no_nft_leaves_without_consent_witness:
  "\<exists>s s'. (runtime_step sample (=))\<^sup>*\<^sup>* (genesis_storage bare_ledger) s \<and>
     send sample (Signed bob) (0, 0) (AccountId charlie) s = Some (Inr (), s') \<and>
     ((\<exists>r. lookup_root_owner sample (ext s) (0, 0) = Some (Inr (bob, r))) \<or>
      (\<exists>li. listed_nfts s (0, 0) = Some li \<and> uq_owner sample (ext s') (0, 0) = Some bob))"
proof -
  obtain s s' where steps: "(runtime_step sample (=))\<^sup>*\<^sup>* (genesis_storage bare_ledger) s"
    and run: "send sample (Signed bob) (0, 0) (AccountId charlie) s = Some (Inr (), s')"
    and items: "uq_owner sample (ext s) (0, 0) = Some bob" "uq_owner sample (ext s') (0, 0) \<noteq> Some bob"
    using first_nft[of "(=)"] bob_sends by fastforce
  have "runtime_dispatch sample (Signed bob) (RmrkCore (Send (0, 0) (AccountId charlie)))
      = Some (send sample (Signed bob) (0, 0) (AccountId charlie))" by simp
  from no_nft_leaves_without_consent[where m = "send sample (Signed bob) (0, 0) (AccountId charlie)",
      OF sample_uniques sample_currency steps this run items]
  show ?thesis using steps run by auto
qed

section \<open>Bounds\<close>

text \<open>C12. Whatever is stored keeps within the bounds of its type: in every state reached from genesis by
  calls that were decoded within the bounds, all metadata are at most 128 bytes, the symbols of
  collections at most 100, property keys 32 and values 256, the type and the symbol of a base 128, a
  base has at most 25 parts and a part names at most 100 collections, and so on for resources and
  themes.\<close>

theorem storage_stays_within_its_bounds:
  assumes "(bounded_step runtime_limits E F)\<^sup>*\<^sup>* (genesis_storage x) s"
  shows "(nfts s k = Some nft \<longrightarrow> length (nft_metadata nft) \<le> 128) \<and>
    (collections s c = Some col \<longrightarrow> length (col_metadata col) \<le> 128 \<and> length (col_symbol col) \<le> 100) \<and>
    (properties s (c, n, key) = Some val \<longrightarrow> length key \<le> 32 \<and> length val \<le> 256) \<and>
    (resources s r = Some res \<longrightarrow> resource_fits runtime_limits (resource res)) \<and>
    (bases s b = Some base \<longrightarrow> length (base_type base) \<le> 128 \<and> length (base_symbol base) \<le> 128 \<and>
       length (base_parts base) \<le> 25 \<and> list_all (part_fits runtime_limits) (base_parts base)) \<and>
    (parts s p = Some part \<longrightarrow> part_fits runtime_limits part) \<and>
    ((tkey, tval) \<in> set (themes s (b, name)) \<longrightarrow>
       length name \<le> 128 \<and> length tkey \<le> 128 \<and> length tval \<le> 128)"
proof -
  have "storage_fits runtime_limits (genesis_storage x)"
    by (simp add: storage_fits_def core_fits_def equip_fits_def genesis_storage_def
        collections_fit_def nfts_fit_def resources_fit_def properties_fit_def)
  from bounded.steps_keep[OF assms this]
  have fits: "core_fits runtime_limits s" "equip_fits runtime_limits s"
    by (simp_all add: storage_fits_def)
  have L: "string_bytes runtime_limits = 128" "symbol_bytes runtime_limits = 100"
    "key_bytes runtime_limits = 32" "value_bytes runtime_limits = 256" "max_parts runtime_limits = 25"
    by (simp_all add: runtime_limits_def limit_constants)
  show ?thesis
    using fits(1) equip_fitsD[OF fits(2)]
    unfolding core_fits_def collections_fit_def nfts_fit_def resources_fit_def properties_fit_def
      text_fits_def parts_fit_def L
    by - (intro conjI; blast)
qed

theorem storage_stays_within_its_bounds_witness:
  "\<exists>s nft. (bounded_step runtime_limits sample (=))\<^sup>*\<^sup>* (genesis_storage bare_ledger) s \<and>
     nfts s (0, 0) = Some nft \<and> length (nft_metadata nft) \<le> 128"
proof -
  obtain s nft where steps: "(bounded_step runtime_limits sample (=))\<^sup>*\<^sup>* (genesis_storage bare_ledger) s"
    and nft: "nfts s (0, 0) = Some nft"
    using first_nft[of "(=)"] by blast
  with storage_stays_within_its_bounds[OF steps, of "(0, 0)" nft] show ?thesis by blast
qed

section \<open>No panics, no calls that hang\<close>

text \<open>C6. No call panics. In the runtime's configuration, whatever the storage holds, no call decoded
  within the bounds takes the branch of an \<^verbatim>\<open>unwrap\<close> or \<^verbatim>\<open>expect\<close> that fails: of a missing base, part, record
  or owner, of a conversion that does not fit, of an account identifier that cannot be built. (A walk
  up a chain of owners that never ends exhausts the stack; in the model it does not return, which C5
  is about.)\<close>

theorem calls_never_panic:
  assumes "external_calm E" "codec_laws E" "wide_accounts E" "runtime_config E"
    and "call_fits runtime_limits call" "runtime_dispatch E org call = Some m"
  shows "m s \<noteq> Some (Inl Panic, s')"
proof -
  have "length default_bytes \<le> string_limit E"
    using assms(4) by (simp add: runtime_config_def default_bytes_def UniquesStringLimit_def)
  moreover have "max_parts runtime_limits < 2 ^ 32" "max_theme_properties runtime_limits < 2 ^ 32"
    by (simp_all add: runtime_limits_def limit_constants)
  ultimately have "calm m" using calm_dispatch[OF assms(1-3) _ assms(5) _ _ assms(6)] by blast
  then show ?thesis by (rule calmD)
qed

definition sample_runtime :: "(account32, account32, ledger) env" where
  "sample_runtime = sample\<lparr>collection_deposit := CollectionDeposit,
     minimum_offer_amount := MinimumOfferAmount\<rparr>"

lemma sample_runtime_laws:
  "codec_laws sample_runtime" "wide_accounts sample_runtime" "external_calm sample_runtime"
  "runtime_config sample_runtime"
proof -
  show "codec_laws sample_runtime"
    using sample_codec by (simp add: codec_laws_def sample_runtime_def)
  show "wide_accounts sample_runtime" by (simp add: wide_accounts_def sample_runtime_def)
  show "external_calm sample_runtime"
    by (simp add: external_calm_def sample_runtime_def sample_mint_def sample_burn_def
        sample_transfer_def sample_create_def sample_destroy_def sample_ownership_def
        sample_reserve_def sample_pay_def split: raw_origin.split)
  show "runtime_config sample_runtime"
    by (simp add: runtime_config_def sample_runtime_def MaxRecursions_def UniquesStringLimit_def
        MaxPropertiesPerTheme_def)
qed

theorem calls_never_panic_witness:
  "create_base (Signed alice) [] [] [] demo \<noteq> Some (Inl Panic, demo) \<and>
   (\<exists>s'. create_base (Signed alice) [] [] [] demo = Some (Inr (), s'))"
proof -
  let ?call = "RmrkEquip (CreateBase [] [] []) :: (account32, account32) runtime_call"
  have "call_fits runtime_limits ?call" by (simp add: text_fits_def parts_fit_def)
  from calls_never_panic[OF sample_runtime_laws(3,1,2,4) this,
      where org = "Signed alice" and m = "create_base (Signed alice) [] [] []" and s = demo and s' = demo]
  show ?thesis by (auto simp: create_base_def success)
qed

text \<open>C5. No call hangs: in every state reached from a genesis with finite chains of owners, by calls
  that are signed by ordinary accounts and hand NFTs to ordinary accounts or to NFTs by their
  identifiers, every such call returns, with success or an error.\<close>

theorem no_call_hangs:
  assumes "codec_laws E" "wide_accounts E" "uniques_laws E" "currency_laws E" "owners_kept E F"
    and "\<forall>k. lookup_root_owner E x k \<noteq> None"
    and "(plain_step E F)\<^sup>*\<^sup>* (genesis_storage x) s"
    and "plain_call E org call" "runtime_dispatch E org call = Some m"
  shows "\<exists>r s'. m s = Some (r, s')"
proof -
  have "progress_laws E F" using assms(1-5) by (simp add: progress_laws_def)
  moreover have "going E (genesis_storage x)"
    using assms(6) by (simp add: going_def nesting_ok_lookup genesis_storage_def offers_ok_def)
  ultimately have "m s \<noteq> None" by (rule alive_returns[OF _ _ assms(7-9)])
  then show ?thesis by fastforce
qed

theorem no_call_hangs_witness:
  "\<exists>s r s'. (plain_step sample (=))\<^sup>*\<^sup>* (genesis_storage bare_ledger) s \<and>
     nfts s (0, 0) = Some (plain_nft (AccountId bob)) \<and>
     burn_nft sample (Signed alice) (0, 0) 5 s = Some (r, s')"
proof -
  obtain s where steps: "(plain_step sample (=))\<^sup>*\<^sup>* (genesis_storage bare_ledger) s"
    and nft: "nfts s (0, 0) = Some (plain_nft (AccountId bob))"
    using first_nft[of "(=)"] by blast
  have "owners_kept sample (=)" by (simp add: owners_kept_def)
  moreover have "\<forall>k. lookup_root_owner sample bare_ledger k \<noteq> None"
    by (simp add: lookup_step)
  moreover have "plain_call sample (Signed alice) (RmrkCore (BurnNft (0, 0) 5))"
    by (simp add: plain_call_def)
  moreover have "runtime_dispatch sample (Signed alice) (RmrkCore (BurnNft (0, 0) 5))
      = Some (burn_nft sample (Signed alice) (0, 0) 5)" by simp
  ultimately have "\<exists>r s'. burn_nft sample (Signed alice) (0, 0) 5 s = Some (r, s')"
    using no_call_hangs[OF sample_codec sample_wide sample_uniques sample_currency _ _ steps,
        where m = "burn_nft sample (Signed alice) (0, 0) 5"] by blast
  with steps nft show ?thesis by blast
qed

section \<open>Genesis\<close>

lemma testnet_fields:
  "sudo_key (testnet_genesis w auths root accounts p) = Some root"
  "(a, v) \<in> set (endowments (testnet_genesis w auths root accounts p)) \<longleftrightarrow>
    a \<in> set accounts \<and> v = push_bit 60 1"
  by (auto simp: testnet_genesis_def)

text \<open>Every chain specification the node builds itself has a genesis that \<^verbatim>\<open>pallet_balances\<close> accepts,
  when the seeds it names give different accounts: no account is endowed twice, every endowment is
  above the existential deposit, the total issuance does not overflow, and the sudo key can pay.
  Loading one fails exactly when the runtime's code is missing.\<close>

definition named_seeds :: "string list" where
  "named_seeds = List.concat (List.map (\<lambda>name. [name, name @ ''//stash''])
     [''Alice'', ''Bob'', ''Charlie'', ''Dave'', ''Eve'', ''Ferdie''])"

theorem genesis_is_accepted:
  assumes "inj_on account_from_seed (set named_seeds)" "spec \<in> {''dev'', '''', ''local''}"
  shows "case load_spec account_from_seed auth wasm json spec of
      Inl e \<Rightarrow> wasm = None
    | Inr cs \<Rightarrow> wasm \<noteq> None \<and> endowments_ok (spec_genesis cs) \<and>
        (\<exists>a v. sudo_key (spec_genesis cs) = Some a \<and> (a, v) \<in> set (endowments (spec_genesis cs)))"
proof -
  have inj: "account_from_seed a = account_from_seed b \<longleftrightarrow> a = b"
    if "a \<in> set named_seeds" "b \<in> set named_seeds" for a b
    using inj_on_eq_iff[OF assms(1) that] .
  have "case cfg account_from_seed auth wasm of Inl e \<Rightarrow> wasm = None
    | Inr cs \<Rightarrow> wasm \<noteq> None \<and> endowments_ok (spec_genesis cs) \<and>
        (\<exists>a v. sudo_key (spec_genesis cs) = Some a \<and> (a, v) \<in> set (endowments (spec_genesis cs)))"
    if "cfg = development_config \<or> cfg = local_testnet_config" for cfg
    using that by (cases wasm)
      (auto simp: development_config_def local_testnet_config_def testnet_endowments testnet_fields inj
        named_seeds_def)
  then show ?thesis
    using assms(2) by (auto simp: load_spec_def)
qed

text \<open>A derivation of accounts of 32 bytes: the letters of the seed, filled up with zeros.\<close>

definition seed_bytes :: "string \<Rightarrow> bytes" where
  "seed_bytes seed = List.take 32 (List.map of_char seed @ List.replicate 32 0)"

lemma seed_accounts: "inj_on (\<lambda>seed. Account (seed_bytes seed)) (set named_seeds)"
proof -
  have "distinct (List.map seed_bytes named_seeds)" by code_simp
  then have "inj_on seed_bytes (set named_seeds)" by (simp add: distinct_map)
  moreover have "length (seed_bytes seed) = 32" for seed by (simp add: seed_bytes_def)
  ultimately show ?thesis by (auto simp: inj_on_def Account_inject)
qed

theorem genesis_is_accepted_witness:
  "\<exists>cs :: (account32, string, string) chain_spec.
     load_spec (\<lambda>seed. Account (seed_bytes seed)) (\<lambda>seed. (seed, seed)) (Some []) (\<lambda>_. Inl []) ''local''
       = Inr cs \<and> endowments_ok (spec_genesis cs)"
proof -
  obtain cs :: "(account32, string, string) chain_spec" where
    cs: "load_spec (\<lambda>seed. Account (seed_bytes seed)) (\<lambda>seed. (seed, seed)) (Some []) (\<lambda>_. Inl []) ''local''
      = Inr cs"
    by (simp add: load_spec_def local_testnet_config_def)
  have "''local'' \<in> {''dev'', '''', ''local''}" by simp
  from genesis_is_accepted[OF seed_accounts this, where auth = "\<lambda>seed. (seed, seed)" and wasm = "Some []"
      and json = "\<lambda>_. Inl []"] cs
  show ?thesis by simp
qed

end
