(* ===== verification/Market_Props.thy ===== *)
theory Market_Props
  imports Ownership_Props Market_Effects
begin

text \<open>
  Properties of rmrk-market: what a sale does to the NFT, the listing, the lock and the balances,
  when a listing and an offer hold, and what making and withdrawing an offer does to the funds.
\<close>

section \<open>Buying\<close>

text \<open>C18. A successful \<^verbatim>\<open>buy\<close>: the NFT is listed by its current owner, who is not the buyer; the
  listing has not expired and asks for the price the buyer named, if they named one; afterwards the
  NFT belongs to the buyer, is neither listed nor locked, and the price has moved from the buyer's
  free balance to the previous owner's.\<close>

theorem buy_correct:
  assumes laws: "uniques_laws E" "currency_laws E"
    and run: "buy E org k amount s = Some (Inr (), s')"
  shows "\<exists>a owner li. org = Signed a \<and> uq_owner E (ext s) k = Some owner \<and> a \<noteq> owner \<and>
    listed_nfts s k = Some li \<and> listed_by li = owner \<and>
    (\<forall>ex. list_expires li = Some ex \<longrightarrow> block_now E (ext s) < ex) \<and>
    (\<forall>am. amount = Some am \<longrightarrow> list_amount li = am) \<and>
    uq_owner E (ext s') = (uq_owner E (ext s))(k \<mapsto> a) \<and>
    listed_nfts s' = (listed_nfts s)(k := None) \<and> lock s' = (lock s)(k := False) \<and>
    unat (list_amount li) \<le> cur_free E (ext s) a \<and>
    cur_free E (ext s') = (cur_free E (ext s))(a := cur_free E (ext s) a - unat (list_amount li),
      owner := cur_free E (ext s) owner + unat (list_amount li))"
proof -
  obtain a where a: "org = Signed a" "do_buy E a k amount False s = Some (Inr (), s')"
    using run by (auto simp: success_buy)
  from a(2) show ?thesis
  proof (rule do_buy_effect)
    fix owner price t x x'
    assume eff: "uq_owner E (ext s) k = Some owner" "a \<noteq> owner"
      "(if False then offer_price k a else listing_price E k owner) s = Some (Inr price, t)"
      "\<And>am. amount = Some am \<Longrightarrow> price = am"
      "cur_transfer E a owner price KeepAlive (ext t) = (Inr (), x)"
      "uq_do_transfer E ((lock t)(k := False)) k a x = (Inr (), x')"
      "ext s' = x'" "lock s' = (lock t)(k := False)" "listed_nfts s' = listed_nfts t"
    obtain li where li: "listed_nfts s k = Some li" "listed_by li = owner" "price = list_amount li"
      "\<forall>ex. list_expires li = Some ex \<longrightarrow> block_now E (ext s) < ex"
      "t = s\<lparr>listed_nfts := (listed_nfts s)(k := None)\<rparr>"
      using eff(3) by (auto simp: success_listing_price)
    show ?thesis
      using a(1) eff li currency_transfer(1,2)[OF laws(2) eff(2,5)] currency_transfer(3,4)[OF laws(2) eff(5)]
        currency_item[OF laws(2) eff(6)]
        uniques_transfer(2)[OF laws(1) eff(6)]
      by (intro exI[of _ a] exI[of _ owner] exI[of _ li]) simp
  qed
qed

definition market_demo :: "(account32, ledger) runtime_state" where
  "market_demo = demo\<lparr>lock := (\<lambda>k. k = (0, 2)),
     listed_nfts := [(0, 2) \<mapsto> \<lparr>listed_by = bob, list_amount = 300, list_expires = Some 6\<rparr>]\<rparr>"

lemma demo_buy:
  "\<exists>s'. buy sample (Signed charlie) (0, 2) (Some 300) market_demo = Some (Inr (), s')"
  by (auto simp: buy_def do_buy_def success send_def nft_send_def store_sent_def sample_pay_def
      sample_transfer_def is_locked_def market_demo_def)

theorem buy_correct_witness:
  "\<exists>s'. buy sample (Signed charlie) (0, 2) (Some 300) market_demo = Some (Inr (), s') \<and>
     items (ext s') (0, 2) = Some charlie \<and> free (ext s') charlie = 700 \<and> free (ext s') bob = 1300"
proof -
  obtain s' where run: "buy sample (Signed charlie) (0, 2) (Some 300) market_demo = Some (Inr (), s')"
    using demo_buy by blast
  from buy_correct[OF sample_uniques sample_currency run] run show ?thesis
    by (auto simp: market_demo_def)
qed

section \<open>Listing\<close>

text \<open>\<^verbatim>\<open>list\<close> succeeds exactly for the account that owns the NFT directly and is not a virtual one,
  when the NFT has a record and is transferable; it locks the NFT and stores the listing, replacing
  an older one.\<close>

theorem list_iff:
  "list_nft E org k amount expires s = Some (Inr (), s') \<longleftrightarrow>
    (\<exists>a nft. org = Signed a \<and> uq_owner E (ext s) k = Some a \<and> decode_nft_account_id E a = None \<and>
      nfts s k = Some nft \<and> transferable nft \<and>
      s' = s\<lparr>lock := (lock s)(k := True),
             listed_nfts := (listed_nfts s)(k \<mapsto>
               \<lparr>listed_by = a, list_amount = amount, list_expires = expires\<rparr>),
             events := events s @ [MarketEvent (TokenListed a (fst k) (snd k) amount)]\<rparr>)"
proof -
  have "\<not> is_nft_owned_by_nft E s k \<longleftrightarrow> decode_nft_account_id E a = None"
    if "uq_owner E (ext s) k = Some a" for a
    using that by (cases "decode_nft_account_id E a") (auto simp: nested_iff nft_parent_def)
  then show ?thesis unfolding list_nft_def by (cases "is_nft_listed s k") (auto simp: success)
qed

text \<open>\<^verbatim>\<open>unlist\<close> succeeds exactly for the owner of a listed NFT, whoever listed it, and removes the
  listing and the lock.\<close>

theorem unlist_iff:
  "unlist E org k s = Some (Inr (), s') \<longleftrightarrow>
    (\<exists>a. org = Signed a \<and> uq_owner E (ext s) k = Some a \<and> listed_nfts s k \<noteq> None \<and>
      s' = s\<lparr>lock := (lock s)(k := False), listed_nfts := (listed_nfts s)(k := None),
             events := events s @ [MarketEvent (TokenUnlisted a (fst k) (snd k))]\<rparr>)"
  unfolding unlist_def by (auto simp: success is_nft_listed_def)

section \<open>Offers\<close>

text \<open>A successful \<^verbatim>\<open>make_offer\<close>: the offer reaches the minimum, the NFT exists and belongs to
  somebody else, the caller has no other offer on it; the amount moves from the caller's free to
  their reserved balance and the offer is stored.\<close>

theorem make_offer_correct:
  assumes "currency_laws E" "make_offer E org k amount expires s = Some (Inr (), s')"
  shows "\<exists>a owner. org = Signed a \<and> minimum_offer_amount E \<le> amount \<and>
    uq_owner E (ext s) k = Some owner \<and> a \<noteq> owner \<and> offers s (k, a) = None \<and>
    offers s' = (offers s)((k, a) \<mapsto> \<lparr>maker = a, offer_amount = amount, offer_expires = expires\<rparr>) \<and>
    unat amount \<le> cur_free E (ext s) a \<and>
    cur_free E (ext s') = (cur_free E (ext s))(a := cur_free E (ext s) a - unat amount) \<and>
    cur_reserved E (ext s') = (cur_reserved E (ext s))(a := cur_reserved E (ext s) a + unat amount) \<and>
    uq_owner E (ext s') = uq_owner E (ext s)"
proof -
  obtain a owner x where run: "org = Signed a" "minimum_offer_amount E \<le> amount"
    "uq_owner E (ext s) k = Some owner" "a \<noteq> owner" "offers s (k, a) = None"
    "cur_reserve E a amount (ext s) = (Inr (), x)" "ext s' = x"
    "offers s' = (offers s)((k, a) \<mapsto> \<lparr>maker = a, offer_amount = amount, offer_expires = expires\<rparr>)"
    using assms(2) unfolding make_offer_def by (auto simp: success has_active_offer_def)
  then show ?thesis
    using currency_reserve[OF assms(1) run(6)] by (intro exI[of _ a] exI[of _ owner]) simp
qed

lemma demo_offer: "\<exists>s'. make_offer sample (Signed charlie) (0, 2) 200 None demo = Some (Inr (), s')"
  by (auto simp: make_offer_def success has_active_offer_def sample_reserve_def)

theorem make_offer_correct_witness:
  "\<exists>s'. make_offer sample (Signed charlie) (0, 2) 200 None demo = Some (Inr (), s') \<and>
     free (ext s') charlie = 800 \<and> reserved (ext s') charlie = 200"
proof -
  obtain s' where run: "make_offer sample (Signed charlie) (0, 2) 200 None demo = Some (Inr (), s')"
    using demo_offer by blast
  from make_offer_correct[OF sample_currency run] run show ?thesis by auto
qed

text \<open>What withdrawing does, for any currency.\<close>

lemma withdraw_offer_run:
  assumes "offers s (k, a) = Some off" "maker off = a" "uq_owner E (ext s) k = Some owner"
  shows "withdraw_offer E (Signed a) k s = Some (Inr (),
    s\<lparr>ext := cur_unreserve E a (offer_amount off) (ext s),
      events := events s @ [MarketEvent (OfferWithdrawn a (fst k) (snd k))],
      offers := (offers s)((k, a) := None)\<rparr>)"
  using assms by (simp add: withdraw_offer_def take_offer_def uniques_ownerM_def unreserveM_def run_simps)

text \<open>C27. Making an offer and withdrawing it restores the offers and every balance.\<close>

theorem make_then_withdraw_restores:
  assumes laws: "currency_laws E" and run: "make_offer E org k amount expires s = Some (Inr (), s1)"
  shows "\<exists>s2. withdraw_offer E org k s1 = Some (Inr (), s2) \<and> offers s2 = offers s \<and>
    cur_free E (ext s2) = cur_free E (ext s) \<and> cur_reserved E (ext s2) = cur_reserved E (ext s) \<and>
    uq_owner E (ext s2) = uq_owner E (ext s)"
proof -
  obtain a owner x where made: "org = Signed a" "uq_owner E (ext s) k = Some owner"
    "offers s (k, a) = None" "cur_reserve E a amount (ext s) = (Inr (), x)" "ext s1 = x"
    "offers s1 = (offers s)((k, a) \<mapsto> \<lparr>maker = a, offer_amount = amount, offer_expires = expires\<rparr>)"
    using run unfolding make_offer_def by (auto simp: success has_active_offer_def)
  note reserve = currency_reserve[OF laws made(4)]
  have "uq_owner E (ext s1) k = Some owner" using made(2,5) reserve(4) by simp
  then have "withdraw_offer E (Signed a) k s1 = Some (Inr (),
      s1\<lparr>ext := cur_unreserve E a amount (ext s1),
        events := events s1 @ [MarketEvent (OfferWithdrawn a (fst k) (snd k))],
        offers := (offers s1)((k, a) := None)\<rparr>)"
    using withdraw_offer_run[of s1 k a "\<lparr>maker = a, offer_amount = amount, offer_expires = expires\<rparr>" E owner]
      made(6) by simp
  moreover have "(offers s1)((k, a) := None) = offers s"
    using made(3,6) by (simp add: fun_upd_idem)
  moreover have "cur_free E (cur_unreserve E a amount (ext s1)) = cur_free E (ext s)"
    using reserve made(5) by (auto simp: currency_unreserve[OF laws])
  moreover have "cur_reserved E (cur_unreserve E a amount (ext s1)) = cur_reserved E (ext s)"
    using reserve made(5) by (auto simp: currency_unreserve[OF laws])
  ultimately show ?thesis using made(1,5) reserve(4) by (simp add: currency_unreserve[OF laws])
qed

theorem make_then_withdraw_restores_witness:
  "\<exists>s1 s2. make_offer sample (Signed charlie) (0, 2) 200 None demo = Some (Inr (), s1) \<and>
     withdraw_offer sample (Signed charlie) (0, 2) s1 = Some (Inr (), s2) \<and>
     free (ext s2) charlie = 1000"
proof -
  obtain s1 where run: "make_offer sample (Signed charlie) (0, 2) 200 None demo = Some (Inr (), s1)"
    using demo_offer by blast
  from make_then_withdraw_restores[OF sample_currency run] run show ?thesis by auto
qed

text \<open>C38. An offer on an NFT that was burned since cannot be withdrawn: the call fails and changes
  nothing, so the offer stays and its amount stays reserved.\<close>

theorem offer_on_burned_nft_cannot_be_withdrawn:
  assumes "uq_owner E (ext s) k = None" "offers s (k, a) = Some off"
  shows "withdraw_offer E (Signed a) k s = Some (Inl (MarketError TokenDoesNotExist), s)"
  using assms by (simp add: withdraw_offer_def take_offer_def uniques_ownerM_def run_simps)

definition burned_demo :: "(account32, ledger) runtime_state" where
  "burned_demo = demo\<lparr>offers := [((0, 3), charlie) \<mapsto>
     \<lparr>maker = charlie, offer_amount = 200, offer_expires = None\<rparr>]\<rparr>"

theorem offer_on_burned_nft_cannot_be_withdrawn_witness:
  "withdraw_offer sample (Signed charlie) (0, 3) burned_demo
     = Some (Inl (MarketError TokenDoesNotExist), burned_demo)"
  by (rule offer_on_burned_nft_cannot_be_withdrawn[where
      off = "\<lparr>maker = charlie, offer_amount = 200, offer_expires = None\<rparr>"])
    (simp_all add: burned_demo_def)

text \<open>C22. A successful \<^verbatim>\<open>accept_offer\<close>: the caller owns the NFT directly, the offer exists, has not
  expired, and was made by the offerer; the NFT goes to the offerer for the offered amount, paid from
  the balance the offer had reserved, the offer is gone and the NFT is unlocked. A listing of the NFT
  stays where it was.\<close>

theorem accept_offer_correct:
  assumes laws: "uniques_laws E" "currency_laws E"
    and run: "accept_offer E org k b s = Some (Inr (), s')"
    and made: "offers s (k, b) = Some off" "maker off = b"
    and reserved: "unat (offer_amount off) \<le> cur_reserved E (ext s) b"
  shows "\<exists>a. org = Signed a \<and> uq_owner E (ext s) k = Some a \<and> a \<noteq> b \<and>
    (\<forall>ex. offer_expires off = Some ex \<longrightarrow> block_now E (ext s) < ex) \<and>
    uq_owner E (ext s') = (uq_owner E (ext s))(k \<mapsto> b) \<and>
    offers s' = (offers s)((k, b) := None) \<and> lock s' = (lock s)(k := False) \<and>
    cur_free E (ext s') = (cur_free E (ext s))(a := cur_free E (ext s) a + unat (offer_amount off)) \<and>
    cur_reserved E (ext s') = (cur_reserved E (ext s))(b :=
      cur_reserved E (ext s) b - unat (offer_amount off)) \<and>
    listed_nfts s' = listed_nfts s"
proof -
  let ?u = "cur_unreserve E b (offer_amount off) (ext s)"
  obtain a u where acc: "org = Signed a" "uq_owner E (ext s) k = Some a"
    "\<forall>ex. offer_expires off = Some ex \<longrightarrow> block_now E (ext s) < ex"
    "do_buy E b k None True (s\<lparr>ext := ?u\<rparr>) = Some (Inr (), u)"
    "s' = u\<lparr>events := events u @ [MarketEvent (OfferAccepted a b (fst k) (snd k))],
            offers := (offers u)((k, b) := None)\<rparr>"
    using run made unfolding accept_offer_def
    by (cases "offer_expires off") (auto simp: success not_le split: if_splits)
  from acc(4) show ?thesis
  proof (rule do_buy_effect)
    fix owner price t x x'
    assume eff: "uq_owner E (ext (s\<lparr>ext := ?u\<rparr>)) k = Some owner" "b \<noteq> owner"
      "(if True then offer_price k b else listing_price E k owner) (s\<lparr>ext := ?u\<rparr>)
        = Some (Inr price, t)"
      "cur_transfer E b owner price KeepAlive (ext t) = (Inr (), x)"
      "uq_do_transfer E ((lock t)(k := False)) k b x = (Inr (), x')"
      "ext u = x'" "lock u = (lock t)(k := False)" "offers u = offers t"
      "listed_nfts u = listed_nfts t"
    have t: "t = s\<lparr>ext := ?u\<rparr>" "price = offer_amount off"
      using eff(3) made(1) by (auto simp: success_offer_price)
    have owner: "owner = a" using eff(1) acc(2) by (simp add: currency_unreserve[OF laws(2)])
    have "cur_free E x = (cur_free E (ext s))(owner := cur_free E (ext s) owner + unat price)"
      using currency_transfer(2)[OF laws(2) eff(2,4)] t reserved eff(2)
      by (auto simp: currency_unreserve[OF laws(2)])
    moreover have "cur_reserved E x = (cur_reserved E (ext s))(b :=
        cur_reserved E (ext s) b - unat (offer_amount off))"
      using currency_transfer(3)[OF laws(2) eff(4)] t reserved
      by (auto simp: currency_unreserve[OF laws(2)])
    ultimately show ?thesis
      using acc eff t owner currency_transfer(4)[OF laws(2) eff(4)] currency_item[OF laws(2) eff(5)]
        uniques_transfer(2)[OF laws(1) eff(5)]
      by (intro exI[of _ a]) (simp add: currency_unreserve[OF laws(2)])
  qed
qed

definition offer_demo :: "(account32, ledger) runtime_state" where
  "offer_demo = demo\<lparr>ext := demo_ledger\<lparr>reserved := (\<lambda>_. 200)\<rparr>,
     listed_nfts := [(0, 2) \<mapsto> \<lparr>listed_by = bob, list_amount = 300, list_expires = None\<rparr>],
     offers := [((0, 2), charlie) \<mapsto> \<lparr>maker = charlie, offer_amount = 200, offer_expires = Some 6\<rparr>]\<rparr>"

lemma sample_root:
  "items x k = Some a \<Longrightarrow> decode_nft_account_id sample a = None \<Longrightarrow>
    lookup_root_owner sample x k = Some (Inr (a, k))"
  by (simp add: lookup_step)

lemma demo_accept_offer:
  "\<exists>s'. accept_offer sample (Signed bob) (0, 2) charlie offer_demo = Some (Inr (), s')"
  by (auto simp: accept_offer_def do_buy_def success send_def nft_send_def store_sent_def
      sample_pay_def sample_transfer_def sample_unreserve_def is_locked_def offer_demo_def
      sample_root Let_def)

theorem accept_offer_correct_witness:
  "\<exists>s'. accept_offer sample (Signed bob) (0, 2) charlie offer_demo = Some (Inr (), s') \<and>
     items (ext s') (0, 2) = Some charlie \<and> free (ext s') bob = 1200 \<and>
     reserved (ext s') charlie = 0 \<and> listed_nfts s' (0, 2) \<noteq> None"
proof -
  obtain s' where run: "accept_offer sample (Signed bob) (0, 2) charlie offer_demo = Some (Inr (), s')"
    using demo_accept_offer by blast
  have made: "offers offer_demo ((0, 2), charlie) =
      Some \<lparr>maker = charlie, offer_amount = 200, offer_expires = Some 6\<rparr>"
    "maker \<lparr>maker = charlie, offer_amount = 200, offer_expires = Some 6\<rparr> = charlie"
    "unat (offer_amount \<lparr>maker = charlie, offer_amount = 200, offer_expires = Some 6\<rparr>)
      \<le> cur_reserved sample (ext offer_demo) charlie"
    by (simp_all add: offer_demo_def)
  from accept_offer_correct[OF sample_uniques sample_currency run made] run show ?thesis
    by (auto simp: offer_demo_def)
qed

text \<open>An offer can no longer be accepted, and a listing no longer be bought, in the block that is
  its expiry, although the documentation of both fields says "after this block".\<close>

theorem expiry_block_is_too_late:
  assumes "uq_owner E (ext s) k = Some a" "b \<noteq> a"
    and "offers s (k, b) = Some off" "offer_expires off = Some (block_now E (ext s))"
    and "listed_nfts s k = Some li" "listed_by li = a"
      "list_expires li = Some (block_now E (ext s))"
  shows "accept_offer E (Signed a) k b s = Some (Inl (MarketError OfferHasExpired), s) \<and>
    buy E (Signed b) k amount s = Some (Inl (MarketError ListingHasExpired), s)"
  using assms
  by (simp add: accept_offer_def take_offer_def uniques_ownerM_def buy_def do_buy_def
      listing_price_def run_simps)

definition expired_demo :: "(account32, ledger) runtime_state" where
  "expired_demo = demo\<lparr>
     listed_nfts := [(0, 2) \<mapsto> \<lparr>listed_by = bob, list_amount = 300, list_expires = Some 5\<rparr>],
     offers := [((0, 2), charlie) \<mapsto> \<lparr>maker = charlie, offer_amount = 200, offer_expires = Some 5\<rparr>]\<rparr>"

theorem expiry_block_is_too_late_witness:
  "accept_offer sample (Signed bob) (0, 2) charlie expired_demo
     = Some (Inl (MarketError OfferHasExpired), expired_demo) \<and>
   buy sample (Signed charlie) (0, 2) (Some 300) expired_demo
     = Some (Inl (MarketError ListingHasExpired), expired_demo)"
  by (rule expiry_block_is_too_late[where
      off = "\<lparr>maker = charlie, offer_amount = 200, offer_expires = Some 5\<rparr>" and
      li = "\<lparr>listed_by = bob, list_amount = 300, list_expires = Some 5\<rparr>"])
    (simp_all add: expired_demo_def)

end
