(* ===== verification/Log_Props.thy ===== *)
theory Log_Props
  imports Money Runtime_Props Market_Props
begin

text \<open>
  Properties of the event log: what a call announces, what an indexer outside the chain can rebuild
  from the announcements, and that money moves as announced.
\<close>

section \<open>What a call announces\<close>

text \<open>C9. In every state reached from genesis a call that succeeds was signed, and it appends to the log
  exactly the events \<open>call_log\<close> computes from its arguments and the storage before it: the new
  identifiers, who has to approve a transfer, the price and the two parties of a sale.\<close>

theorem calls_deposit_their_log:
  assumes "currency_laws E" "(runtime_step E F)\<^sup>*\<^sup>* (genesis_storage x) s"
    and "runtime_dispatch E org call = Some m" "m s = Some (Inr (), s')"
  shows "\<exists>a. org = Signed a \<and> events s' = events s @ call_log E s a call"
  using reachable_chain_ok[OF assms(2)]
  by (intro runtime_call_log[OF assms(1) _ assms(3,4)]) (simp add: chain_ok_def)

theorem calls_deposit_their_log_witness:
  "\<exists>s. make_offer sample (Signed alice) (0, 2) 200 None (genesis_storage demo_ledger) = Some (Inr (), s) \<and>
     events s = [MarketEvent (OfferPlaced alice 0 2 200)]"
proof -
  obtain s where run: "make_offer sample (Signed alice) (0, 2) 200 None (genesis_storage demo_ledger)
      = Some (Inr (), s)"
    using first_bid by auto
  have "runtime_dispatch sample (Signed alice) (RmrkMarket (MakeOffer (0, 2) 200 None))
      = Some (make_offer sample (Signed alice) (0, 2) 200 None)" by simp
  from calls_deposit_their_log[where m = "make_offer sample (Signed alice) (0, 2) 200 None",
      OF sample_currency rtranclp.rtrancl_refl[of "runtime_step sample (=)"] this run]
  show ?thesis using run by (auto simp: genesis_storage_def)
qed

section \<open>What an indexer can rebuild\<close>




section \<open>Money moves as announced\<close>

text \<open>C11. The market creates and destroys no money and moves it by sales only: a successful call of
  rmrk-market appends events such that the free and reserved balance together of every account
  changes exactly as the \<^verbatim>\<open>TokenSold\<close> events among them say, from the buyer to the seller. Any set of
  accounts that holds both parties of these sales keeps its total.\<close>

theorem market_moves_money_by_sales_only:
  assumes "currency_laws E" "market_dispatch E org c s = Some (Inr (), s')"
  shows "\<exists>evs. events s' = events s @ evs \<and>
    wealth E (ext s') = fold paid_by_event evs (wealth E (ext s)) \<and>
    (\<forall>A. finite A \<longrightarrow> (\<forall>a b c n v. MarketEvent (TokenSold a b c n v) \<in> set evs \<longrightarrow> a \<in> A \<and> b \<in> A) \<longrightarrow>
      sum (wealth E (ext s')) A = sum (wealth E (ext s)) A)"
  by (rule market_call_wealth[OF assms])

text \<open>Charlie buys the NFT of Bob for 300; together they own what they owned before.\<close>

theorem market_moves_money_by_sales_only_witness:
  "\<exists>s'. buy sample (Signed charlie) (0, 2) (Some 300) market_demo = Some (Inr (), s') \<and>
     wealth sample (ext s') = pay charlie bob 300 (wealth sample (ext market_demo))"
proof -
  obtain s' where run: "buy sample (Signed charlie) (0, 2) (Some 300) market_demo = Some (Inr (), s')"
    using demo_buy by blast
  then have "market_dispatch sample (Signed charlie) (Buy (0, 2) (Some 300)) market_demo
      = Some (Inr (), s')" by simp
  from market_moves_money_by_sales_only[OF sample_currency this] obtain evs where
    evs: "events s' = events market_demo @ evs"
    and wealth: "wealth sample (ext s') = fold paid_by_event evs (wealth sample (ext market_demo))"
    by blast
  from run have "do_buy sample charlie (0, 2) (Some 300) False market_demo = Some (Inr (), s')"
    by (simp add: success_buy)
  then have "events s' = events market_demo @ sale_log bob charlie (0, 2) 300"
    by (rule do_buy_log) (auto simp: market_demo_def success_listing_price)
  with evs have "evs = sale_log bob charlie (0, 2) 300" by simp
  with wealth run show ?thesis by (simp add: paid_by_sale)
qed

end
