(* ===== verification/Policy.thy ===== *)
theory Policy
  imports Market_Effects Burn_Effect Chain
begin

text \<open>
  Access control: which account may change which entry of the storage. The entries and the policy
  are stated here; that every call of every pallet follows it is shown in \<open>Access_Indexes\<close> (indexes
  and counters) and \<open>Access\<close>.
\<close>

section \<open>The policy\<close>

definition root_owns :: "('a, 'l, 'x) env \<Rightarrow> ('a, 'x, 'z) core_state_scheme \<Rightarrow> nft \<Rightarrow> 'a \<Rightarrow> bool" where
  "root_owns E s k a \<longleftrightarrow> (\<exists>root. lookup_root_owner E (ext s) k = Some (Inr (a, root)))"

definition issues :: "('a, 'x, 'z) core_state_scheme \<Rightarrow> collection_id \<Rightarrow> 'a \<Rightarrow> bool" where
  "issues s c a \<longleftrightarrow> (\<exists>col. collections s c = Some col \<and> col_issuer col = a)"

definition issues_base :: "('a, 'x, 'z) equip_state_scheme \<Rightarrow> base_id \<Rightarrow> 'a \<Rightarrow> bool" where
  "issues_base s b a \<longleftrightarrow> (\<exists>base. bases s b = Some base \<and> base_issuer base = a)"

text \<open>Listed by the account that owns it.\<close>

definition on_sale :: "('a, 'l, 'x) env \<Rightarrow> ('a, 'x, 'z) market_state_scheme \<Rightarrow> nft \<Rightarrow> bool" where
  "on_sale E s k \<longleftrightarrow> (\<exists>li. listed_nfts s k = Some li \<and> uq_owner E (ext s) k = Some (listed_by li))"

text \<open>
  What an issuer can do to the resources of somebody else's NFT: add one that waits for acceptance,
  and mark one for removal.
\<close>

definition proposed :: "('a, 'x, 'z) core_state_scheme \<Rightarrow> ('a, 'x, 'z) core_state_scheme \<Rightarrow> nft \<Rightarrow>
    resource_id \<Rightarrow> bool" where
  "proposed s s' k r \<longleftrightarrow>
     r = next_resource_id s k \<and> (\<exists>res. resources s' (k, r) = Some res \<and> res_pending res) \<or>
     (\<exists>res. resources s (k, r) = Some res \<and> resources s' (k, r) = Some (res\<lparr>pending_removal := True\<rparr>))"

text \<open>The NFTs that hang below one that the account root-owns, as \<^verbatim>\<open>Children\<close> has it.\<close>

definition hangs_below :: "('a, 'l, 'x) env \<Rightarrow> ('a, 'x, 'z) core_state_scheme \<Rightarrow> 'a \<Rightarrow> nft \<Rightarrow> bool" where
  "hangs_below E s a k \<longleftrightarrow> (\<exists>p. root_owns E s p a \<and> child_reach s p k)"

datatype 'a entry =
    CollectionEntry collection_id
  | RecordEntry nft
  | EquippedFlag nft
  | ResourceEntry nft resource_id
  | PriorityEntry nft resource_id
  | PropertyEntry collection_id "nft_id option" bytes
  | LockEntry nft
  | BaseEntry base_id
  | PartEntry base_id part_id
  | ThemeEntry base_id bytes
  | SlotEntry nft base_id slot_id
  | ListingEntry nft
  | OfferEntry nft 'a
  | ChildEntry nft nft
  | EquippableBase nft base_id
  | EquippableSlot nft resource_id base_id slot_id
  | NftsCount collection_id
  | NextNft collection_id
  | NextCollection
  | NextResource nft
  | NextBase
  | NextPart base_id
  | SomethingEntry

text \<open>
  The number of NFTs of a collection and the equipped flag of an NFT are entries of their own. A child
  is an entry of its parent.
\<close>

definition uncounted :: "'a collection_info option \<Rightarrow> 'a collection_info option" where
  "uncounted = map_option (\<lambda>col. col\<lparr>nfts_count := 0\<rparr>)"

definition counted :: "'a collection_info option \<Rightarrow> u32 option" where
  "counted = map_option nfts_count"

definition unflagged :: "'a nft_info option \<Rightarrow> 'a nft_info option" where
  "unflagged = map_option (\<lambda>nft. nft\<lparr>equipped := False\<rparr>)"

fun entry_changed ::
  "('a, 'x, 'z) runtime_state_scheme \<Rightarrow> ('a, 'x, 'z) runtime_state_scheme \<Rightarrow> 'a entry \<Rightarrow> bool" where
  "entry_changed s s' (CollectionEntry c) = (uncounted (collections s' c) \<noteq> uncounted (collections s c))"
| "entry_changed s s' (RecordEntry k) = (unflagged (nfts s' k) \<noteq> unflagged (nfts s k))"
| "entry_changed s s' (EquippedFlag k) = (\<exists>nft nft'. nfts s k = Some nft \<and> nfts s' k = Some nft' \<and>
     equipped nft' \<noteq> equipped nft)"
| "entry_changed s s' (ResourceEntry k r) = (resources s' (k, r) \<noteq> resources s (k, r))"
| "entry_changed s s' (PriorityEntry k r) = (priorities s' (k, r) \<noteq> priorities s (k, r))"
| "entry_changed s s' (PropertyEntry c n key) = (properties s' (c, n, key) \<noteq> properties s (c, n, key))"
| "entry_changed s s' (LockEntry k) = (lock s' k \<noteq> lock s k)"
| "entry_changed s s' (BaseEntry b) = (bases s' b \<noteq> bases s b)"
| "entry_changed s s' (PartEntry b p) = (parts s' (b, p) \<noteq> parts s (b, p))"
| "entry_changed s s' (ThemeEntry b n) = (themes s' (b, n) \<noteq> themes s (b, n))"
| "entry_changed s s' (SlotEntry k b slot) = (equippings s' (k, b, slot) \<noteq> equippings s (k, b, slot))"
| "entry_changed s s' (ListingEntry k) = (listed_nfts s' k \<noteq> listed_nfts s k)"
| "entry_changed s s' (OfferEntry k a) = (offers s' (k, a) \<noteq> offers s (k, a))"
| "entry_changed s s' (ChildEntry p k) = ((k \<in> set (children s' p)) \<noteq> (k \<in> set (children s p)))"
| "entry_changed s s' (EquippableBase k b) = (equippable_bases s' (k, b) \<noteq> equippable_bases s (k, b))"
| "entry_changed s s' (EquippableSlot k r b slot) =
     (equippable_slots s' (k, r, b, slot) \<noteq> equippable_slots s (k, r, b, slot))"
| "entry_changed s s' (NftsCount c) = (counted (collections s' c) \<noteq> counted (collections s c))"
| "entry_changed s s' (NextNft c) = (next_nft_id s' c \<noteq> next_nft_id s c)"
| "entry_changed s s' NextCollection = (collection_index s' \<noteq> collection_index s)"
| "entry_changed s s' (NextResource k) = (next_resource_id s' k \<noteq> next_resource_id s k)"
| "entry_changed s s' NextBase = (next_base_id s' \<noteq> next_base_id s)"
| "entry_changed s s' (NextPart b) = (next_part_id s' b \<noteq> next_part_id s b)"
| "entry_changed s s' SomethingEntry = (something s' \<noteq> something s)"

lemma record_split:
  "col\<lparr>nfts_count := v\<rparr> = col'\<lparr>nfts_count := v\<rparr> \<Longrightarrow> nfts_count col = nfts_count col' \<Longrightarrow>
    col = (col' :: 'a collection_info)"
  "nft\<lparr>equipped := b\<rparr> = nft'\<lparr>equipped := b\<rparr> \<Longrightarrow> equipped nft = equipped nft' \<Longrightarrow> nft = (nft' :: 'a nft_info)"
  by (cases col; cases col'; simp) (cases nft; cases nft'; simp)

lemma uncounted_eq: "uncounted x = uncounted y \<Longrightarrow> counted x = counted y \<Longrightarrow> x = y"
  by (cases x; cases y) (auto simp: uncounted_def counted_def intro: record_split(1)[where v = 0])

lemma unflagged_eq:
  "unflagged x = unflagged y \<Longrightarrow> map_option equipped x = map_option equipped y \<Longrightarrow> x = y"
  by (cases x; cases y) (auto simp: unflagged_def intro: record_split(2)[where b = False])

text \<open>Together the entries are the whole storage of the pallets; children are listed in no order.\<close>

lemma entries_are_the_storage:
  fixes s s' :: "('a, 'x) runtime_state"
  assumes "\<And>e. \<not> entry_changed s s' e"
  shows "s' = s\<lparr>ext := ext s', events := events s', children := children s'\<rparr>"
    "set (children s' p) = set (children s p)"
proof -
  have "collections s' c = collections s c" for c
    by (rule uncounted_eq) (use assms[of "CollectionEntry c"] assms[of "NftsCount c"] in simp_all)
  moreover have "nfts s' k = nfts s k" for k
  proof (rule unflagged_eq)
    show same: "unflagged (nfts s' k) = unflagged (nfts s k)" using assms[of "RecordEntry k"] by simp
    show "map_option equipped (nfts s' k) = map_option equipped (nfts s k)"
      using assms[of "EquippedFlag k"] same
      by (cases "nfts s k"; cases "nfts s' k") (simp_all add: unflagged_def)
  qed
  moreover have "resources s' (k, r) = resources s (k, r)" "priorities s' (k, r) = priorities s (k, r)"
    "properties s' (c, n, key) = properties s (c, n, key)" "lock s' k = lock s k"
    "equippable_bases s' (k, b) = equippable_bases s (k, b)"
    "equippable_slots s' (k, r, b, sl) = equippable_slots s (k, r, b, sl)"
    "next_nft_id s' c = next_nft_id s c" "next_resource_id s' k = next_resource_id s k"
    "collection_index s' = collection_index s" for k r c n key b sl
    using assms[of "ResourceEntry k r"] assms[of "PriorityEntry k r"] assms[of "PropertyEntry c n key"]
      assms[of "LockEntry k"] assms[of "EquippableBase k b"] assms[of "EquippableSlot k r b sl"]
      assms[of "NextNft c"] assms[of "NextResource k"] assms[of NextCollection]
    by simp_all
  moreover have "bases s' b = bases s b" "parts s' (b, i) = parts s (b, i)" "themes s' (b, n) = themes s (b, n)"
    "equippings s' (k, b, sl) = equippings s (k, b, sl)" "listed_nfts s' k = listed_nfts s k"
    "offers s' (k, a) = offers s (k, a)" "next_base_id s' = next_base_id s"
    "next_part_id s' b = next_part_id s b" "something s' = something s" for k b i n sl a
    using assms[of "BaseEntry b"] assms[of "PartEntry b i"] assms[of "ThemeEntry b n"]
      assms[of "SlotEntry k b sl"] assms[of "ListingEntry k"] assms[of "OfferEntry k a"]
      assms[of NextBase] assms[of "NextPart b"] assms[of SomethingEntry]
    by simp_all
  ultimately show "s' = s\<lparr>ext := ext s', events := events s', children := children s'\<rparr>"
    by (intro runtime_state.equality) (simp_all add: fun_eq_iff)
  show "set (children s' p) = set (children s p)" using assms[of "ChildEntry p _"] by auto
qed

text \<open>
  \<open>may_change E s s' a e\<close>: what entitles \<open>a\<close> to change \<open>e\<close> in the storage \<open>s\<close>. A new entry is made under the
  next identifier. What hangs below a burned NFT goes with it, whoever owns it.
  A sale moves the NFT of somebody else, who listed it. Two entries are badly protected: anybody may
  empty a slot of an unlocked NFT, and the root owner of any NFT with a filled slot may change the
  equipped flag of every NFT. The value of the sample pallet is anybody's.
\<close>

fun may_change ::
  "('a, 'l, 'x) env \<Rightarrow> ('a, 'x, 'z) runtime_state_scheme \<Rightarrow> ('a, 'x, 'z) runtime_state_scheme \<Rightarrow> 'a \<Rightarrow>
    'a entry \<Rightarrow> bool" where
  "may_change E s s' a (CollectionEntry c) =
     (c = collection_index s \<or> issues s c a \<or> uq_collection_owner E (ext s) c = Some a)"
| "may_change E s s' a (RecordEntry k) =
     (snd k = next_nft_id s (fst k) \<and> uq_collection_owner E (ext s) (fst k) = Some a \<or>
      root_owns E s k a \<or> nfts s' k = None \<and> hangs_below E s a k \<or> on_sale E s k)"
| "may_change E s s' a (EquippedFlag k) =
     (snd k = next_nft_id s (fst k) \<and> uq_collection_owner E (ext s) (fst k) = Some a \<or>
      root_owns E s k a \<or> (\<exists>p b slot. root_owns E s p a \<and> equippings s (p, b, slot) \<noteq> None))"
| "may_change E s s' a (ResourceEntry k r) =
     (issues s (fst k) a \<and> (snd k = next_nft_id s (fst k) \<or> proposed s s' k r) \<or>
      root_owns E s k a \<or> nfts s' k = None \<and> hangs_below E s a k)"
| "may_change E s s' a (PriorityEntry k r) = (root_owns E s k a \<and> \<not> lock s k)"
| "may_change E s s' a (PropertyEntry c n key) =
     (issues s c a \<and> (\<forall>i. n = Some i \<longrightarrow> root_owns E s (c, i) a \<and> \<not> lock s (c, i)))"
| "may_change E s s' a (LockEntry k) = (uq_owner E (ext s) k = Some a \<or> on_sale E s k)"
| "may_change E s s' a (BaseEntry b) = (b = next_base_id s \<or> issues_base s b a)"
| "may_change E s s' a (PartEntry b p) = (b = next_base_id s \<or> issues_base s b a)"
| "may_change E s s' a (ThemeEntry b n) = issues_base s b a"
| "may_change E s s' a (SlotEntry k b slot) =
     (\<not> lock s k \<and> (root_owns E s k a \<or> equippings s' (k, b, slot) = None))"
| "may_change E s s' a (ListingEntry k) = (uq_owner E (ext s) k = Some a \<or> on_sale E s k)"
| "may_change E s s' a (OfferEntry k b) = (b = a \<or> uq_owner E (ext s) k = Some a)"
| "may_change E s s' a (ChildEntry p k) =
     (root_owns E s k a \<or> on_sale E s k \<or> k \<notin> set (children s' p) \<and> hangs_below E s a k)"
| "may_change E s s' a (EquippableBase k b) = issues s (fst k) a"
| "may_change E s s' a (EquippableSlot k r b slot) = issues s (fst k) a"
| "may_change E s s' a (NftsCount c) =
     (c = collection_index s \<or> uq_collection_owner E (ext s) c = Some a \<or> (\<exists>n. hangs_below E s a (c, n)))"
| "may_change E s s' a (NextNft c) =
     (uq_collection_owner E (ext s) c = Some a \<and> next_nft_id s' c = next_nft_id s c + 1)"
| "may_change E s s' a NextCollection = (collection_index s' = collection_index s + 1)"
| "may_change E s s' a (NextResource k) = issues s (fst k) a"
| "may_change E s s' a NextBase = (next_base_id s' = next_base_id s + 1)"
| "may_change E s s' a (NextPart b) = False"
| "may_change E s s' a SomethingEntry = True"

text \<open>\<^verbatim>\<open>pallet_uniques\<close> destroys a collection for its owner only.\<close>

definition destroy_law :: "('a, 'l, 'x) env \<Rightarrow> bool" where
  "destroy_law E \<longleftrightarrow> (\<forall>c w a x x'. uq_do_destroy_collection E c w (Some a) x = (Inr (), x') \<longrightarrow>
     uq_collection_owner E x c = Some a)"

section \<open>Within what a burn takes along\<close>

text \<open>
  What the steps of a burn keep, within any set of NFTs that contains the children of its members, the
  burn keeps.
\<close>

lemma burn_within:
  fixes I :: "('a, 'x, 'z) core_state_scheme \<Rightarrow> bool"
  assumes closed: "\<And>s p. I s \<Longrightarrow> p \<in> B \<Longrightarrow> set (children s p) \<subseteq> B"
    and child: "\<And>s p c. I s \<Longrightarrow> c \<in> B \<Longrightarrow>
      I (s\<lparr>children := (children s)(p := removeAll c (children s p))\<rparr>)"
    and recd: "\<And>s c. I s \<Longrightarrow> c \<in> B \<Longrightarrow>
      I (s\<lparr>nfts := (nfts s)(c := None), resources := remove_prefix c (resources s)\<rparr>)"
    and count: "\<And>s c t. I s \<Longrightarrow> c \<in> B \<Longrightarrow> decrement_nfts_count (fst c) s = Some (Inr (), t) \<Longrightarrow> I t"
  shows "nft_burn_rec E d k s = Some (Inr u, s') \<Longrightarrow> k \<in> B \<Longrightarrow> I s \<Longrightarrow> I s'"
proof (induction d arbitrary: k s s' u)
  case (Suc d)
  have drain: "I t'" if "drain_children (nft_burn_rec E d) p ks t = Some (Inr (), t')" "p \<in> B" "I t"
    for p ks t t'
    using that
  proof (induction ks arbitrary: t)
    case (Cons c ks)
    show ?case
    proof (cases "c \<in> set (children t p)")
      case True
      let ?t1 = "t\<lparr>children := (children t)(p := removeAll c (children t p))\<rparr>"
      obtain t2 where run: "nft_burn_rec E d c ?t1 = Some (Inr (), t2)"
        "drain_children (nft_burn_rec E d) p ks t2 = Some (Inr (), t')"
        using Cons.prems(1) True by (auto simp: success)
      have "c \<in> B" using True closed[OF Cons.prems(3,2)] by blast
      then have "I t2" using Suc.IH[OF run(1)] child[OF Cons.prems(3)] by blast
      then show ?thesis by (rule Cons.IH[OF run(2) Cons.prems(2)])
    next
      case False
      then show ?thesis using Cons by (auto simp: success)
    qed
  qed (simp add: success)
  obtain s1 s2 s3 where run: "unlink_from_owner k s = Some (Inr (), s1)"
    "s2 = s1\<lparr>nfts := (nfts s1)(k := None), resources := remove_prefix k (resources s1)\<rparr>"
    "drain_children (nft_burn_rec E d) k (iter_order E (children s2 k)) s2 = Some (Inr (), s3)"
    "decrement_nfts_count (fst k) s3 = Some (Inr (), s')"
    using Suc.prems(1) by (auto simp: success)
  have "I s1" using unlink_from_owner_result[OF run(1)] child[OF Suc.prems(3,2)] Suc.prems(3) by auto
  then have "I s2" unfolding run(2) by (rule recd[OF _ Suc.prems(2)])
  then have "I s3" by (rule drain[OF run(3) Suc.prems(2)])
  then show ?case by (rule count[OF _ Suc.prems(2) run(4)])
qed (simp add: success)

end
