(* ===== verification/Access_Indexes.thy ===== *)
theory Access_Indexes
  imports Policy
begin

text \<open>
  The policy for the indexes and counters of rmrk-core: the children of an NFT, the bases and slots an
  NFT equips, the number of NFTs of a collection, and the next identifiers.
\<close>

definition core_indexed ::
  "('a, 'l, 'x) env \<Rightarrow> 'a \<Rightarrow> ('a, 'x, 'z) core_state_scheme \<Rightarrow> ('a, 'x, 'z) core_state_scheme \<Rightarrow> bool" where
  "core_indexed E a s s' \<longleftrightarrow>
     (\<forall>p k. (k \<in> set (children s' p)) \<noteq> (k \<in> set (children s p)) \<longrightarrow>
        root_owns E s k a \<or> k \<notin> set (children s' p) \<and> hangs_below E s a k) \<and>
     (\<forall>k b. equippable_bases s' (k, b) \<noteq> equippable_bases s (k, b) \<longrightarrow> issues s (fst k) a) \<and>
     (\<forall>k r b sl. equippable_slots s' (k, r, b, sl) \<noteq> equippable_slots s (k, r, b, sl) \<longrightarrow>
        issues s (fst k) a) \<and>
     (\<forall>c. counted (collections s' c) \<noteq> counted (collections s c) \<longrightarrow>
        c = collection_index s \<or> uq_collection_owner E (ext s) c = Some a \<or> (\<exists>n. hangs_below E s a (c, n))) \<and>
     (\<forall>c. next_nft_id s' c \<noteq> next_nft_id s c \<longrightarrow>
        uq_collection_owner E (ext s) c = Some a \<and> next_nft_id s' c = next_nft_id s c + 1) \<and>
     (collection_index s' \<noteq> collection_index s \<longrightarrow> collection_index s' = collection_index s + 1) \<and>
     (\<forall>k. next_resource_id s' k \<noteq> next_resource_id s k \<longrightarrow> issues s (fst k) a)"

lemma core_indexedD:
  assumes "core_indexed E a s s'"
  shows "\<forall>p k. (k \<in> set (children s' p)) \<noteq> (k \<in> set (children s p)) \<longrightarrow>
      root_owns E s k a \<or> k \<notin> set (children s' p) \<and> hangs_below E s a k"
    "\<forall>k b. equippable_bases s' (k, b) \<noteq> equippable_bases s (k, b) \<longrightarrow> issues s (fst k) a"
    "\<forall>k r b sl. equippable_slots s' (k, r, b, sl) \<noteq> equippable_slots s (k, r, b, sl) \<longrightarrow>
      issues s (fst k) a"
    "\<forall>c. counted (collections s' c) \<noteq> counted (collections s c) \<longrightarrow>
      c = collection_index s \<or> uq_collection_owner E (ext s) c = Some a \<or> (\<exists>n. hangs_below E s a (c, n))"
    "\<forall>c. next_nft_id s' c \<noteq> next_nft_id s c \<longrightarrow>
      uq_collection_owner E (ext s) c = Some a \<and> next_nft_id s' c = next_nft_id s c + 1"
    "collection_index s' \<noteq> collection_index s \<longrightarrow> collection_index s' = collection_index s + 1"
    "\<forall>k. next_resource_id s' k \<noteq> next_resource_id s k \<longrightarrow> issues s (fst k) a"
  using assms unfolding core_indexed_def by - (elim conjE, assumption)+

lemma core_indexed_events [simp]:
  "core_indexed E a s (s'\<lparr>events := ev\<rparr>) = core_indexed E a s s'"
  unfolding core_indexed_def by simp

text \<open>A call that changes none of them.\<close>

lemma core_indexed_same:
  assumes "children s' = children s" "equippable_bases s' = equippable_bases s"
    "equippable_slots s' = equippable_slots s" "\<And>c. counted (collections s' c) = counted (collections s c)"
    "next_nft_id s' = next_nft_id s" "collection_index s' = collection_index s"
    "next_resource_id s' = next_resource_id s"
  shows "core_indexed E a s s'"
  by (simp add: core_indexed_def assms)

section \<open>Burning\<close>

definition only_forgot ::
  "nft set \<Rightarrow> ('a, 'x, 'z) core_state_scheme \<Rightarrow> ('a, 'x, 'z) core_state_scheme \<Rightarrow> bool" where
  "only_forgot B s0 s \<longleftrightarrow>
     (\<forall>p k. k \<in> set (children s p) \<longrightarrow> k \<in> set (children s0 p)) \<and>
     (\<forall>p k. k \<in> set (children s0 p) \<longrightarrow> k \<in> set (children s p) \<or> k \<in> B) \<and>
     (\<forall>p\<in>B. set (children s p) \<subseteq> B) \<and>
     (\<forall>c. counted (collections s c) \<noteq> counted (collections s0 c) \<longrightarrow> (\<exists>n. (c, n) \<in> B)) \<and>
     equippable_bases s = equippable_bases s0 \<and> equippable_slots s = equippable_slots s0 \<and>
     next_nft_id s = next_nft_id s0 \<and> collection_index s = collection_index s0 \<and>
     next_resource_id s = next_resource_id s0"

lemma only_forgot_child:
  "only_forgot B s0 s \<Longrightarrow> c \<in> B \<Longrightarrow>
    only_forgot B s0 (s\<lparr>children := (children s)(p := removeAll c (children s p))\<rparr>)"
  unfolding only_forgot_def by (simp del: split_paired_All split_paired_Ex) blast

lemma burn_only_forgets:
  assumes "nft_burn_rec E d k s = Some (Inr u, s')" "k \<in> B" "only_forgot B s0 s"
  shows "only_forgot B s0 s'"
proof (rule burn_within[where I = "only_forgot B s0", OF _ _ _ _ assms])
  show "only_forgot B s0 t \<Longrightarrow> p \<in> B \<Longrightarrow> set (children t p) \<subseteq> B" for t p
    by (simp add: only_forgot_def)
  show "only_forgot B s0 t \<Longrightarrow> c \<in> B \<Longrightarrow> only_forgot B s0
      (t\<lparr>children := (children t)(p := removeAll c (children t p))\<rparr>)" for t p c
    by (rule only_forgot_child)
  show "only_forgot B s0 t \<Longrightarrow> only_forgot B s0
      (t\<lparr>nfts := (nfts t)(c := None), resources := remove_prefix c (resources t)\<rparr>)" for t c
    by (simp add: only_forgot_def)
  show "only_forgot B s0 t \<Longrightarrow> c \<in> B \<Longrightarrow> decrement_nfts_count (fst c) t = Some (Inr (), t') \<Longrightarrow>
      only_forgot B s0 t'" for t c t'
    by (cases c) (clarsimp simp: success only_forgot_def simp del: split_paired_All split_paired_Ex, blast)
qed

lemma only_forgot_start:
  "only_forgot {j. child_reach s k j} s s" "only_forgot {j. child_reach s k j} s (unlinked E k s)"
proof -
  show start: "only_forgot {j. child_reach s k j} s s"
    by (auto simp: only_forgot_def intro: rtranclp.rtrancl_into_rtrancl)
  show "only_forgot {j. child_reach s k j} s (unlinked E k s)"
    unfolding unlinked_def by (auto simp: start split: option.split intro!: only_forgot_child[OF start])
qed

lemma burned_indexed:
  assumes "nft_burn_rec E d k t0 = Some (Inr u, t)" "t0 = s \<or> t0 = unlinked E k s"
    and "lookup_root_owner E (ext s) k = Some (Inr (a, root))"
  shows "core_indexed E a s (t\<lparr>ext := x\<rparr>)" "core_indexed E a s t"
proof -
  have "only_forgot {j. child_reach s k j} s t"
    using assms(2) only_forgot_start[of s k] only_forgot_start(2)[of s k E]
    by (intro burn_only_forgets[OF assms(1)]) (simp, elim disjE, simp_all)
  moreover have "root_owns E s k a" using assms(3) by (auto simp: root_owns_def)
  ultimately show "core_indexed E a s (t\<lparr>ext := x\<rparr>)" "core_indexed E a s t"
    unfolding only_forgot_def core_indexed_def hangs_below_def
    by (simp_all del: split_paired_All split_paired_Ex) blast+
qed

section \<open>Minting\<close>

lemma equippable_fold_other:
  "k' \<noteq> k \<Longrightarrow> fold (\<lambda>b m. m((k, b) \<mapsto> ())) bs m (k', b') = m (k', b')"
  "k' \<noteq> k \<Longrightarrow> fold (\<lambda>(b, sl) m. m((k, r, b, sl) \<mapsto> ())) sls m' (k', r', b', sl') = m' (k', r', b', sl')"
  by (induction bs arbitrary: m) (auto, induction sls arbitrary: m', auto)

lemma resource_added_indexed:
  assumes "resource_add E a k res b s = Some (Inr r, s')"
  shows "core_indexed E a s s' \<and> children s' = children s \<and> next_nft_id s' = next_nft_id s \<and>
    collection_index s' = collection_index s \<and> collections s' = collections s"
proof -
  have "issues s (fst k') a" if "equippable_bases s' (k', b') \<noteq> equippable_bases s (k', b') \<or>
      equippable_slots s' (k', r', b', sl) \<noteq> equippable_slots s (k', r', b', sl) \<or>
      next_resource_id s' k' \<noteq> next_resource_id s k'" for k' b' r' sl
    using assms that by (cases "k' = k") (auto simp: success issues_def equippable_fold_other)
  then have "\<forall>k b. equippable_bases s' (k, b) \<noteq> equippable_bases s (k, b) \<longrightarrow> issues s (fst k) a"
    "\<forall>k r b sl. equippable_slots s' (k, r, b, sl) \<noteq> equippable_slots s (k, r, b, sl) \<longrightarrow>
      issues s (fst k) a"
    "\<forall>k. next_resource_id s' k \<noteq> next_resource_id s k \<longrightarrow> issues s (fst k) a"
    by blast+
  moreover have "children s' = children s" "next_nft_id s' = next_nft_id s"
    "collection_index s' = collection_index s" "collections s' = collections s"
    using assms by (auto simp: success)
  ultimately show ?thesis unfolding core_indexed_def by (simp del: split_paired_All)
qed

lemma minted_indexed:
  fixes s t :: "('a, 'x, 'z) core_state_scheme"
  assumes "uq_collection_owner E (ext s) c = Some a" "collections s c = Some col"
    and "add_mint_resources E a (c, i) ress
      (s\<lparr>next_nft_id := (next_nft_id s)(c := next_nft_id s c + 1),
         collections := (collections s)(c \<mapsto> col\<lparr>nfts_count := v\<rparr>), nfts := ns, ext := x\<rparr>)
      = Some (Inr (), t)"
  shows "core_indexed E a s t"
proof -
  let ?s = "s\<lparr>next_nft_id := (next_nft_id s)(c := next_nft_id s c + 1),
         collections := (collections s)(c \<mapsto> col\<lparr>nfts_count := v\<rparr>), nfts := ns, ext := x\<rparr>"
  define I where "I u \<longleftrightarrow> core_indexed E a s u \<and> next_nft_id u = next_nft_id ?s \<and>
      collections u = collections ?s" for u :: "('a, 'x, 'z) core_state_scheme"
  have issuer: "issues u d b = issues s d b" if "collections u = collections ?s" for u d b
    using that assms(2) by (simp add: issues_def)
  have "I ?s"
    using assms(1) by (auto simp: I_def core_indexed_def counted_def)
  have "keeps I (resource_add E a (c, i) res True)" for res
  proof (rule keepsI)
    fix u r u' assume run: "resource_add E a (c, i) res True u = Some (Inr r, u')" and ok: "I u"
    have add: "core_indexed E a u u'" "children u' = children u" "next_nft_id u' = next_nft_id u"
      "collection_index u' = collection_index u" "collections u' = collections u"
      using resource_added_indexed[OF run] by blast+
    have cols: "collections u = collections ?s" using ok by (simp add: I_def)
    note new = core_indexedD(2,3,7)[OF add(1), unfolded issuer[OF cols]]
    have old: "core_indexed E a s u" using ok by (simp add: I_def)
    have "\<forall>k b. equippable_bases u' (k, b) \<noteq> equippable_bases s (k, b) \<longrightarrow> issues s (fst k) a"
      using new(1) core_indexedD(2)[OF old] by metis
    moreover have "\<forall>k r b sl. equippable_slots u' (k, r, b, sl) \<noteq> equippable_slots s (k, r, b, sl) \<longrightarrow>
        issues s (fst k) a"
      using new(2) core_indexedD(3)[OF old] by metis
    moreover have "\<forall>k. next_resource_id u' k \<noteq> next_resource_id s k \<longrightarrow> issues s (fst k) a"
      using new(3) core_indexedD(7)[OF old] by metis
    ultimately have "core_indexed E a s u'"
      using core_indexedD(1,4-6)[OF old] unfolding core_indexed_def add(2-5) by (intro conjI)
    then show "I u'" using ok add by (simp add: I_def)
  qed
  then have "keeps I (add_mint_resources E a (c, i) ress)"
    unfolding add_mint_resources_def by (intro keeps_intros)
  from keepsD[OF this assms(3) \<open>I ?s\<close>] show ?thesis by (simp add: I_def)
qed

section \<open>Every call\<close>

lemma moved_children_changed:
  "(j \<in> set (moved_children E k from to ch p)) \<noteq> (j \<in> set (ch p)) \<Longrightarrow> j = k"
  by (auto simp: moved_children_def Let_def split: option.splits if_splits)

lemma counted_update:
  "collections s c = Some col \<Longrightarrow> nfts_count col' = nfts_count col \<Longrightarrow>
    counted (((collections s)(c \<mapsto> col')) d) = counted (collections s d)"
  by (simp add: counted_def)

lemma core_call_indexed:
  assumes law: "destroy_law E" and run: "core_dispatch E org c s = Some (Inr u, s')"
  shows "\<exists>a. org = Signed a \<and> core_indexed E a s s'"
proof (cases c)
  case (MintNft ow cl rcp am md tr rs)
  with run have "mint_nft E org ow cl rcp am md tr rs s = Some (Inr u, s')" by simp
  then show ?thesis by (rule mint_nft_effect) (auto intro: minted_indexed)
next
  case (MintNftDirectlyToNft p cl rcp am md tr rs)
  with run have "mint_nft_directly_to_nft E org p cl rcp am md tr rs s = Some (Inr u, s')" by simp
  then show ?thesis by (rule mint_directly_effect) (auto intro: minted_indexed)
next
  case (BurnNft k m)
  with run have "burn_nft E org k m s = Some (Inr u, s')" by simp
  then show ?thesis by (rule burn_nft_effect) (auto intro: burned_indexed(1))
next
  case (RejectNft k)
  with run have "reject_nft E org k s = Some (Inr u, s')" by simp
  then show ?thesis by (rule reject_nft_effect) (auto intro: burned_indexed(2))
next
  case (Send k ow)
  with run have "send E org k ow s = Some (Inr u, s')" by simp
  then show ?thesis
  proof (rule send_effect)
    fix a root cur nft acc ask x
    assume eff: "org = Signed a" "lookup_root_owner E (ext s) k = Some (Inr (a, root))"
      "s' = s\<lparr>nfts := (nfts s)(k \<mapsto> sent_record ow ask nft),
           children := moved_children E k cur acc (children s), ext := x,
           events := events s @ [CoreEvent (NFTSent a ow (fst k) (snd k) ask)]\<rparr>"
    have "root_owns E s j a" if "(j \<in> set (moved_children E k cur acc (children s) p)) \<noteq> (j \<in> set (children s p))"
      for j p using moved_children_changed[OF that] eff(2) by (auto simp: root_owns_def)
    then show ?thesis using eff(1,3) unfolding core_indexed_def by (simp del: split_paired_All)
  qed
next
  case (AcceptNft k ow)
  with run have "accept_nft E org k ow s = Some (Inr u, s')" by simp
  then show ?thesis by (rule accept_nft_effect) (auto intro!: core_indexed_same)
next
  case (CreateCollection md mx sy)
  with run show ?thesis
    by (auto simp: create_collection_def success core_indexed_def)
next
  case (DestroyCollection cl)
  with run obtain a w x where org: "org = Signed a"
    and w: "uq_do_destroy_collection E cl w (Some a) (ext s) = (Inr (), x)"
    and s': "s' = s\<lparr>collections := (collections s)(cl := None), ext := x,
      events := events s @ [CoreEvent (CollectionDestroyed a cl)]\<rparr>"
    by (auto simp: destroy_collection_def success)
  have "uq_collection_owner E (ext s) cl = Some a" using law w unfolding destroy_law_def by blast
  then show ?thesis using org by (auto simp: s' core_indexed_def)
next
  case (ChangeCollectionIssuer cl l)
  with run show ?thesis
    by (auto simp: change_collection_issuer_def success mutate_exists_def counted_def
      intro!: core_indexed_same split: if_splits option.splits)
next
  case (LockCollection cl)
  with run show ?thesis
    by (auto simp: lock_collection_def success counted_def intro!: core_indexed_same)
next
  case (SetProperty cl n key val)
  with run show ?thesis by (auto simp: set_property_def success intro!: core_indexed_same)
next
  case (SetPriority k rs)
  with run show ?thesis by (auto simp: set_priority_def success intro!: core_indexed_same)
next
  case (AddBasicResource k res)
  with run show ?thesis
    by (auto simp: add_basic_resource_def add_resource_def success_bind success_transactional
      success_ensure_signed success_deposit_event dest!: resource_added_indexed)
next
  case (AddComposableResource k res)
  with run show ?thesis
    by (auto simp: add_composable_resource_def add_resource_def success_bind success_transactional
      success_ensure_signed success_deposit_event dest!: resource_added_indexed)
next
  case (AddSlotResource k res)
  with run show ?thesis
    by (auto simp: add_slot_resource_def add_resource_def success_bind success_transactional
      success_ensure_signed success_deposit_event dest!: resource_added_indexed)
next
  case (AcceptResource k r)
  with run show ?thesis by (auto simp: accept_resource_def success intro!: core_indexed_same)
next
  case (RemoveResource k r)
  with run show ?thesis
    by (auto simp: remove_resource_def success success_resource_remove intro!: core_indexed_same)
next
  case (AcceptResourceRemoval k r)
  with run show ?thesis by (auto simp: accept_resource_removal_def success intro!: core_indexed_same)
qed

end
