(* ===== verification/Access.thy ===== *)
theory Access
  imports Access_Indexes
begin

text \<open>
  That every call of every pallet follows the policy of \<open>Policy\<close>, pallet by pallet; the indexes and
  counters of rmrk-core are the subject of \<open>Access_Indexes\<close>.
\<close>

section \<open>rmrk-core\<close>

text \<open>The part of the policy that is about the storage of rmrk-core.\<close>

definition core_authorised ::
  "('a, 'l, 'x) env \<Rightarrow> 'a \<Rightarrow> ('a, 'x, 'z) core_state_scheme \<Rightarrow> ('a, 'x, 'z) core_state_scheme \<Rightarrow> bool" where
  "core_authorised E a s s' \<longleftrightarrow>
     (\<forall>c. uncounted (collections s' c) \<noteq> uncounted (collections s c) \<longrightarrow>
        c = collection_index s \<or> issues s c a \<or> uq_collection_owner E (ext s) c = Some a) \<and>
     (\<forall>k. nfts s' k \<noteq> nfts s k \<longrightarrow>
        snd k = next_nft_id s (fst k) \<and> uq_collection_owner E (ext s) (fst k) = Some a \<or>
        root_owns E s k a \<or> nfts s' k = None \<and> hangs_below E s a k) \<and>
     (\<forall>k r. resources s' (k, r) \<noteq> resources s (k, r) \<longrightarrow>
        issues s (fst k) a \<and> (snd k = next_nft_id s (fst k) \<or> proposed s s' k r) \<or>
        root_owns E s k a \<or> nfts s' k = None \<and> hangs_below E s a k) \<and>
     (\<forall>k r. priorities s' (k, r) \<noteq> priorities s (k, r) \<longrightarrow> root_owns E s k a \<and> \<not> lock s k) \<and>
     (\<forall>c n key. properties s' (c, n, key) \<noteq> properties s (c, n, key) \<longrightarrow>
        issues s c a \<and> (\<forall>i. n = Some i \<longrightarrow> root_owns E s (c, i) a \<and> \<not> lock s (c, i))) \<and>
     lock s' = lock s"

lemma core_authorisedI:
  assumes "\<And>c. collections s' c \<noteq> collections s c \<Longrightarrow>
      c = collection_index s \<or> issues s c a \<or> uq_collection_owner E (ext s) c = Some a"
    and "\<And>k. nfts s' k \<noteq> nfts s k \<Longrightarrow> root_owns E s k a"
    and "\<And>k r. resources s' (k, r) \<noteq> resources s (k, r) \<Longrightarrow>
      issues s (fst k) a \<and> proposed s s' k r \<or> root_owns E s k a"
    and "\<And>k r. priorities s' (k, r) \<noteq> priorities s (k, r) \<Longrightarrow> root_owns E s k a \<and> \<not> lock s k"
    and "\<And>c n key. properties s' (c, n, key) \<noteq> properties s (c, n, key) \<Longrightarrow>
      issues s c a \<and> (\<forall>i. n = Some i \<longrightarrow> root_owns E s (c, i) a \<and> \<not> lock s (c, i))"
    and "lock s' = lock s"
  shows "core_authorised E a s s'"
proof -
  have "collections s' c \<noteq> collections s c" if "uncounted (collections s' c) \<noteq> uncounted (collections s c)" for c
    using that by auto
  then show ?thesis using assms unfolding core_authorised_def by blast
qed

lemma priority_map_changed:
  "priority_map k rs i (remove_prefix k m) (k', r) \<noteq> m (k', r) \<Longrightarrow> k' = k"
  using priority_map_other[of "(k', r)" k rs i "remove_prefix k m"]
  by (cases "k' = k") (auto simp: remove_prefix_def)

lemma uncounted_recount:
  "collections s c = Some col \<Longrightarrow>
    uncounted (((collections s)(c \<mapsto> col\<lparr>nfts_count := n\<rparr>)) c') = uncounted (collections s c')"
  by (simp add: uncounted_def)

text \<open>
  A burn only removes: records, and the resources of NFTs without a record, within any set of NFTs
  that contains the children of its members.
\<close>

definition only_removed ::
  "nft set \<Rightarrow> ('a, 'x, 'z) core_state_scheme \<Rightarrow> ('a, 'x, 'z) core_state_scheme \<Rightarrow> bool" where
  "only_removed B s0 s \<longleftrightarrow>
     (\<forall>k. nfts s k \<noteq> nfts s0 k \<longrightarrow> nfts s k = None \<and> k \<in> B) \<and>
     (\<forall>k r. resources s (k, r) \<noteq> resources s0 (k, r) \<longrightarrow> nfts s k = None \<and> k \<in> B) \<and>
     (\<forall>p\<in>B. set (children s p) \<subseteq> B) \<and>
     (\<forall>c. uncounted (collections s c) = uncounted (collections s0 c)) \<and>
     priorities s = priorities s0 \<and> properties s = properties s0 \<and> lock s = lock s0"

lemma only_removed_children:
  "only_removed B s0 s \<Longrightarrow> (\<And>q. set (ch q) \<subseteq> set (children s q)) \<Longrightarrow> only_removed B s0 (s\<lparr>children := ch\<rparr>)"
  unfolding only_removed_def by (simp del: split_paired_All) blast

lemma burn_only_removes:
  assumes "nft_burn_rec E d k s = Some (Inr u, s')" "k \<in> B" "only_removed B s0 s"
  shows "only_removed B s0 s'"
proof (rule burn_within[where I = "only_removed B s0", OF _ _ _ _ assms])
  show "only_removed B s0 t \<Longrightarrow> p \<in> B \<Longrightarrow> set (children t p) \<subseteq> B" for t p
    by (simp add: only_removed_def)
  show "only_removed B s0 t \<Longrightarrow> only_removed B s0
      (t\<lparr>children := (children t)(p := removeAll c (children t p))\<rparr>)" for t p c
    by (rule only_removed_children) auto
  show "only_removed B s0 t \<Longrightarrow> c \<in> B \<Longrightarrow> only_removed B s0
      (t\<lparr>nfts := (nfts t)(c := None), resources := remove_prefix c (resources t)\<rparr>)" for t c
    unfolding only_removed_def by (simp add: remove_prefix_def del: split_paired_All)
  show "only_removed B s0 t \<Longrightarrow> decrement_nfts_count c t = Some (Inr (), t') \<Longrightarrow> only_removed B s0 t'" for t c t'
    unfolding only_removed_def
    by (clarsimp simp: success uncounted_recount simp del: split_paired_All split_paired_Ex fun_upd_apply)
qed

lemma only_removed_start:
  "only_removed {j. child_reach s k j} s s" "only_removed {j. child_reach s k j} s (unlinked E k s)"
proof -
  show start: "only_removed {j. child_reach s k j} s s"
    by (auto simp: only_removed_def intro: rtranclp.rtrancl_into_rtrancl)
  show "only_removed {j. child_reach s k j} s (unlinked E k s)"
    unfolding unlinked_def
    by (auto simp: start split: option.split if_splits intro!: only_removed_children[OF start])
qed

text \<open>The resources of a mint go to the new NFT, and only from the issuer of the collection.\<close>

lemma add_mint_resources_change:
  fixes s s' :: "('a, 'x, 'z) core_state_scheme"
  assumes "add_mint_resources E a k ress s = Some (Inr u, s')"
    and "resources s' (k', r) \<noteq> resources s (k', r)"
  shows "k' = k \<and> issues s (fst k) a"
proof -
  define I where "I t \<longleftrightarrow> collections t = collections s \<and>
      (\<forall>k' r. resources t (k', r) \<noteq> resources s (k', r) \<longrightarrow> k' = k \<and> issues s (fst k) a)"
    for t :: "('a, 'x, 'z) core_state_scheme"
  have "keeps I (resource_add E a k res True)" for res
    by (rule keepsI) (auto simp: success_resource_add success_register_equippable I_def issues_def
        simp del: split_paired_All split: if_splits, blast+)
  then have "keeps I (add_mint_resources E a k ress)"
    unfolding add_mint_resources_def by (intro keeps_intros)
  from keepsD[OF this assms(1)] assms(2) show ?thesis unfolding I_def by blast
qed

lemma minted_authorised:
  assumes "uq_collection_owner E (ext s) c = Some a" "collections s c = Some col"
    and "add_mint_resources E a (c, next_nft_id s c) ress
      (s\<lparr>next_nft_id := ids, collections := (collections s)(c \<mapsto> col\<lparr>nfts_count := v\<rparr>),
         nfts := (nfts s)((c, next_nft_id s c) \<mapsto> nft), ext := x\<rparr>) = Some (Inr (), t)"
  shows "core_authorised E a s (t\<lparr>events := ev\<rparr>)"
proof -
  have frame: "keeps (\<lambda>t. priorities t = priorities s \<and> properties t = properties s)
      (add_mint_resources E a (c, next_nft_id s c) ress)"
    by (rule keeps_add_mint_resources) simp_all
  have same: "nfts t = (nfts s)((c, next_nft_id s c) \<mapsto> nft)"
    "collections t = (collections s)(c \<mapsto> col\<lparr>nfts_count := v\<rparr>)" "lock t = lock s"
    "priorities t = priorities s" "properties t = properties s"
    using add_mint_resources_frame(2,3,7)[OF assms(3)] keepsD[OF frame assms(3)] by simp_all
  have "issues s (fst k) a \<and> snd k = next_nft_id s (fst k)"
    if "resources t (k, r) \<noteq> resources s (k, r)" for k r
    using add_mint_resources_change[OF assms(3), of k r] that assms(2) by (auto simp: issues_def)
  then have "\<forall>k r. resources t (k, r) \<noteq> resources s (k, r) \<longrightarrow>
      issues s (fst k) a \<and> (snd k = next_nft_id s (fst k) \<or> proposed s (t\<lparr>events := ev\<rparr>) k r) \<or>
      root_owns E s k a \<or> nfts t k = None \<and> hangs_below E s a k" by blast
  moreover have "\<forall>k. nfts t k \<noteq> nfts s k \<longrightarrow>
      snd k = next_nft_id s (fst k) \<and> uq_collection_owner E (ext s) (fst k) = Some a"
    using assms(1) by (simp add: same del: split_paired_All)
  ultimately show ?thesis
    using assms(2) unfolding core_authorised_def
    by (intro conjI) (simp_all add: same(2-) uncounted_def del: split_paired_All)
qed

lemma removed_authorised:
  assumes "nft_burn_rec E d k t0 = Some (Inr u, t)" "t0 = s \<or> t0 = unlinked E k s"
    and "lookup_root_owner E (ext s) k = Some (Inr (a, root))"
  shows "core_authorised E a s (t\<lparr>ext := x, events := ev\<rparr>)" "core_authorised E a s (t\<lparr>events := ev\<rparr>)"
proof -
  have "only_removed {j. child_reach s k j} s t"
    using assms(2) only_removed_start[of s k] only_removed_start(2)[of s k E]
    by (intro burn_only_removes[OF assms(1)]) (simp, elim disjE, simp_all)
  moreover have "root_owns E s k a" using assms(3) by (auto simp: root_owns_def)
  ultimately show "core_authorised E a s (t\<lparr>ext := x, events := ev\<rparr>)" "core_authorised E a s (t\<lparr>events := ev\<rparr>)"
    unfolding only_removed_def core_authorised_def hangs_below_def
    by (simp_all del: split_paired_All split_paired_Ex) blast+
qed

lemma core_call_authorised:
  assumes law: "destroy_law E" and run: "core_dispatch E org c s = Some (Inr u, s')"
  shows "\<exists>a. org = Signed a \<and> core_authorised E a s s'"
proof (cases c)
  case (MintNft ow cl rcp am md tr rs)
  with run have "mint_nft E org ow cl rcp am md tr rs s = Some (Inr u, s')" by simp
  then show ?thesis by (rule mint_nft_effect) (auto intro: minted_authorised)
next
  case (MintNftDirectlyToNft p cl rcp am md tr rs)
  with run have "mint_nft_directly_to_nft E org p cl rcp am md tr rs s = Some (Inr u, s')" by simp
  then show ?thesis by (rule mint_directly_effect) (auto intro: minted_authorised)
next
  case (BurnNft k m)
  with run have "burn_nft E org k m s = Some (Inr u, s')" by simp
  then show ?thesis
    by (rule burn_nft_effect) (auto intro: removed_authorised(1))
next
  case (RejectNft k)
  with run have "reject_nft E org k s = Some (Inr u, s')" by simp
  then show ?thesis
    by (rule reject_nft_effect) (auto intro: removed_authorised(2))
next
  case (Send k ow)
  with run have "send E org k ow s = Some (Inr u, s')" by simp
  then show ?thesis
    by (rule send_effect) (auto simp: core_authorised_def root_owns_def simp del: split_paired_All)
next
  case (AcceptNft k ow)
  with run have "accept_nft E org k ow s = Some (Inr u, s')" by simp
  then show ?thesis
    by (rule accept_nft_effect) (auto simp: core_authorised_def root_owns_def simp del: split_paired_All)
next
  case (CreateCollection md mx sy)
  with run show ?thesis
    by (auto simp: create_collection_def success intro!: core_authorisedI)
next
  case (DestroyCollection cl)
  with run obtain a w x where org: "org = Signed a"
    and w: "uq_do_destroy_collection E cl w (Some a) (ext s) = (Inr (), x)"
    and s': "s' = s\<lparr>collections := (collections s)(cl := None), ext := x,
      events := events s @ [CoreEvent (CollectionDestroyed a cl)]\<rparr>"
    by (auto simp: destroy_collection_def success)
  have "uq_collection_owner E (ext s) cl = Some a" using law w unfolding destroy_law_def by blast
  then show ?thesis
    using org by (auto simp: s' intro!: core_authorisedI split: if_splits)
next
  case (ChangeCollectionIssuer cl l)
  with run show ?thesis
    by (auto simp: change_collection_issuer_def success issues_def mutate_exists_def
      intro!: core_authorisedI split: if_splits)
next
  case (LockCollection cl)
  with run show ?thesis
    by (auto simp: lock_collection_def success issues_def intro!: core_authorisedI split: if_splits)
next
  case (SetProperty cl n key val)
  with run show ?thesis
    by (auto simp: set_property_def success issues_def root_owns_def intro!: core_authorisedI
      split: if_splits)
next
  case (SetPriority k rs)
  with run show ?thesis
    by (auto simp: set_priority_def success root_owns_def intro!: core_authorisedI
      dest!: priority_map_changed)
next
  case (AddBasicResource k res)
  with run show ?thesis
    by (auto simp: add_basic_resource_def add_resource_def success issues_def proposed_def root_owns_def intro!: core_authorisedI
      split: if_splits)
next
  case (AddComposableResource k res)
  with run show ?thesis
    by (auto simp: add_composable_resource_def add_resource_def success issues_def proposed_def root_owns_def
      intro!: core_authorisedI split: if_splits)
next
  case (AddSlotResource k res)
  with run show ?thesis
    by (auto simp: add_slot_resource_def add_resource_def success issues_def proposed_def root_owns_def
      intro!: core_authorisedI split: if_splits)
next
  case (AcceptResource k r)
  with run show ?thesis
    by (auto simp: accept_resource_def success root_owns_def intro!: core_authorisedI split: if_splits)
next
  case (RemoveResource k r)
  with run show ?thesis
    by (auto simp: remove_resource_def success success_resource_remove issues_def mutate_exists_def proposed_def root_owns_def
      intro!: core_authorisedI split: if_splits)
next
  case (AcceptResourceRemoval k r)
  with run show ?thesis
    by (auto simp: accept_resource_removal_def success root_owns_def
      intro!: core_authorisedI split: if_splits)
qed

section \<open>The other pallets leave the storage of rmrk-core to it\<close>

text \<open>
  What rmrk-equip writes: the equipped flag of an NFT, and its own storage.
\<close>

definition equip_authorised ::
  "('a, 'l, 'x) env \<Rightarrow> 'a \<Rightarrow> ('a, 'x, 'z) equip_state_scheme \<Rightarrow> ('a, 'x, 'z) equip_state_scheme \<Rightarrow> bool" where
  "equip_authorised E a s s' \<longleftrightarrow>
     (\<forall>b. bases s' b \<noteq> bases s b \<longrightarrow> b = next_base_id s \<or> issues_base s b a) \<and>
     (\<forall>b p. parts s' (b, p) \<noteq> parts s (b, p) \<longrightarrow> b = next_base_id s \<or> issues_base s b a) \<and>
     (\<forall>b n. themes s' (b, n) \<noteq> themes s (b, n) \<longrightarrow> issues_base s b a) \<and>
     (\<forall>k b slot. equippings s' (k, b, slot) \<noteq> equippings s (k, b, slot) \<longrightarrow>
        \<not> lock s k \<and> (root_owns E s k a \<or> equippings s' (k, b, slot) = None)) \<and>
     (\<forall>k. unflagged (nfts s' k) = unflagged (nfts s k)) \<and>
     (\<forall>k. nfts s' k \<noteq> nfts s k \<longrightarrow>
        root_owns E s k a \<or> (\<exists>p b slot. root_owns E s p a \<and> equippings s (p, b, slot) \<noteq> None)) \<and>
     collections s' = collections s \<and> resources s' = resources s \<and> priorities s' = priorities s \<and>
     properties s' = properties s \<and> lock s' = lock s \<and> children s' = children s \<and>
     equippable_bases s' = equippable_bases s \<and> equippable_slots s' = equippable_slots s \<and>
     next_nft_id s' = next_nft_id s \<and> collection_index s' = collection_index s \<and>
     next_resource_id s' = next_resource_id s \<and> next_part_id s' = next_part_id s \<and>
     (next_base_id s' \<noteq> next_base_id s \<longrightarrow> next_base_id s' = next_base_id s + 1)"

lemma equip_authorised_events [simp]:
  "equip_authorised E a s (s'\<lparr>events := ev\<rparr>) = equip_authorised E a s s'"
  by (simp add: equip_authorised_def)

lemma do_equip_authorised:
  assumes "do_equip E a item equipper rid b slot s = Some (Inr r, s')"
  shows "equip_authorised E a s s'"
proof -
  have unequip: "equip_authorised E a s
      (s\<lparr>nfts := mutate_exists item (\<lambda>nft. nft\<lparr>equipped := False\<rparr>) (nfts s),
         equippings := (equippings s)((equipper, b, slot) := None)\<rparr>)"
    if "equippings s (equipper, b, slot) \<noteq> None" "\<not> lock s equipper"
      "nfts s item = None \<or> root_owns E s item a \<or> root_owns E s equipper a"
    using that unfolding equip_authorised_def
    by (cases equipper; cases item)
      (auto simp: unflagged_def mutate_exists_def split: if_splits option.splits)
  have equip: "equip_authorised E a s
      (s\<lparr>nfts := mutate_exists item (\<lambda>nft. nft\<lparr>equipped := True\<rparr>) (nfts s),
         equippings := (equippings s)((equipper, b, slot) \<mapsto> rid)\<rparr>)"
    if "root_owns E s item a" "root_owns E s equipper a" "\<not> lock s equipper"
    using that unfolding equip_authorised_def
    by (cases equipper; cases item)
      (auto simp: unflagged_def mutate_exists_def split: if_splits option.splits)
  from assms show ?thesis
    unfolding do_equip_def
    by (auto simp: success split: if_splits prod.splits intro!: unequip equip) (auto simp: root_owns_def)
qed

lemma store_parts_changed: "store_parts b ps m (b', i) \<noteq> m (b', i) \<Longrightarrow> b' = b"
  using store_parts_other by blast

lemma equip_call_authorised:
  assumes run: "equip_dispatch E org c s = Some (Inr u, s')"
  shows "\<exists>a. org = Signed a \<and> equip_authorised E a s s'"
proof (cases c)
  case (EquipCall item equipper rid b slot)
  with run show ?thesis
    by (auto simp: equip_def success split: if_splits prod.splits intro: do_equip_authorised)
next
  case (ChangeBaseIssuer b l)
  with run show ?thesis
    by (auto simp: change_base_issuer_def success equip_authorised_def issues_base_def mutate_exists_def
        split: prod.splits if_splits)
next
  case (EquippableCall b slot eqs)
  with run show ?thesis
    by (auto simp: equippable_def success equip_authorised_def issues_base_def split: prod.splits if_splits)
next
  case (ThemeAdd b th)
  with run show ?thesis
    by (auto simp: theme_add_def success equip_authorised_def issues_base_def split: if_splits)
next
  case (CreateBase ty sy ps)
  with run show ?thesis
    by (auto simp: create_base_def success equip_authorised_def issues_base_def
        dest: store_parts_changed split: if_splits)
qed

section \<open>rmrk-market\<close>

text \<open>
  What rmrk-market writes: listings, offers, locks, and the record of an NFT it sells.
\<close>

definition market_authorised ::
  "('a, 'l, 'x) env \<Rightarrow> 'a \<Rightarrow> ('a, 'x, 'z) market_state_scheme \<Rightarrow> ('a, 'x, 'z) market_state_scheme \<Rightarrow> bool" where
  "market_authorised E a s s' \<longleftrightarrow>
     (\<forall>k. listed_nfts s' k \<noteq> listed_nfts s k \<longrightarrow> uq_owner E (ext s) k = Some a \<or> on_sale E s k) \<and>
     (\<forall>k. lock s' k \<noteq> lock s k \<longrightarrow> uq_owner E (ext s) k = Some a \<or> on_sale E s k) \<and>
     (\<forall>k b. offers s' (k, b) \<noteq> offers s (k, b) \<longrightarrow> b = a \<or> uq_owner E (ext s) k = Some a) \<and>
     (\<forall>k. nfts s' k \<noteq> nfts s k \<longrightarrow> root_owns E s k a \<or> on_sale E s k) \<and>
     (\<forall>k nft nft'. nfts s k = Some nft \<longrightarrow> nfts s' k = Some nft' \<longrightarrow> equipped nft' = equipped nft) \<and>
     (\<forall>p j. (j \<in> set (children s' p)) \<noteq> (j \<in> set (children s p)) \<longrightarrow> root_owns E s j a \<or> on_sale E s j) \<and>
     collections s' = collections s \<and> resources s' = resources s \<and> priorities s' = priorities s \<and>
     properties s' = properties s \<and> equippable_bases s' = equippable_bases s \<and>
     equippable_slots s' = equippable_slots s \<and> next_nft_id s' = next_nft_id s \<and>
     collection_index s' = collection_index s \<and> next_resource_id s' = next_resource_id s"

lemma root_ownsI:
  "uq_owner E (ext s) k = Some a \<Longrightarrow> decode_nft_account_id E a = None \<Longrightarrow> root_owns E s k a"
  unfolding root_owns_def by (subst lookup_step) (simp add: run_simps)

lemma do_buy_writes:
  assumes "do_buy E b k amount is_offer s = Some (Inr u, s')"
  obtains owner nft nft' where "uq_owner E (ext s) k = Some owner"
    "decode_nft_account_id E owner = None" "\<not> is_offer \<Longrightarrow> on_sale E s k"
    "nfts s k = Some nft" "nfts s' = (nfts s)(k \<mapsto> nft')" "equipped nft' = equipped nft"
    "listed_nfts s' = (if is_offer then listed_nfts s else (listed_nfts s)(k := None))"
    "lock s' = (lock s)(k := False)" "offers s' = offers s" "collections s' = collections s"
    "resources s' = resources s" "priorities s' = priorities s" "properties s' = properties s"
    "\<And>p j. (j \<in> set (children s' p)) \<noteq> (j \<in> set (children s p)) \<Longrightarrow> j = k"
    "equippable_bases s' = equippable_bases s" "equippable_slots s' = equippable_slots s"
    "next_nft_id s' = next_nft_id s" "collection_index s' = collection_index s"
    "next_resource_id s' = next_resource_id s"
proof -
  obtain owner price t x u' where run: "uq_owner E (ext s) k = Some owner"
    "(if is_offer then offer_price k b else listing_price E k owner) s = Some (Inr price, t)"
    "send E (Signed owner) k (AccountId b) (t\<lparr>lock := (lock t)(k := False), ext := x\<rparr>)
      = Some (Inr (), u')"
    "s' = u'\<lparr>events := events u' @ [MarketEvent (TokenSold owner b (fst k) (snd k) price)]\<rparr>"
    using assms unfolding do_buy_def by (cases amount) (auto simp: success)
  have t: "t = (if is_offer then s else s\<lparr>listed_nfts := (listed_nfts s)(k := None)\<rparr>)"
    and sale: "\<not> is_offer \<Longrightarrow> on_sale E s k"
    using run(1,2) by (auto simp: success on_sale_def split: if_splits)
  have direct: "decode_nft_account_id E owner = None"
    using assms by (rule do_buy_effect) (use run(1) in simp)
  from run(3) show ?thesis
  proof (rule send_effect)
    fix a root cur nft acc ask x'
    let ?t = "t\<lparr>lock := (lock t)(k := False), ext := x\<rparr>"
    assume sent: "nfts ?t k = Some nft"
      "u' = ?t\<lparr>nfts := (nfts ?t)(k \<mapsto> sent_record (AccountId b) ask nft),
         children := moved_children E k cur acc (children ?t), ext := x',
         events := events ?t @ [CoreEvent (NFTSent a (AccountId b) (fst k) (snd k) ask)]\<rparr>"
    show ?thesis
      by (rule that[OF run(1) direct sale, of nft "sent_record (AccountId b) ask nft"])
        (use sent in \<open>cases is_offer; simp add: run(4) t sent_record_def moved_children_changed\<close>)+
  qed
qed

lemma market_call_authorised:
  assumes laws: "currency_laws E" and run: "market_dispatch E org c s = Some (Inr u, s')"
  shows "\<exists>a. org = Signed a \<and> market_authorised E a s s'"
proof (cases c)
  case (Buy k amount)
  with run obtain a where "org = Signed a" "do_buy E a k amount False s = Some (Inr (), s')"
    by (auto simp: success_buy)
  then show ?thesis
    by (elim do_buy_writes) (auto simp: market_authorised_def simp del: split_paired_All split: if_splits)
next
  case (AcceptOffer k b)
  with run have "accept_offer E org k b s = Some (Inr u, s')" by simp
  then show ?thesis
  proof (rule accept_offer_effect)
    fix a off t
    let ?s = "s\<lparr>ext := cur_unreserve E (maker off) (offer_amount off) (ext s)\<rparr>"
    assume eff: "org = Signed a" "uq_owner E (ext s) k = Some a"
      "do_buy E (maker off) k None True ?s = Some (Inr (), t)"
      "s' = t\<lparr>events := events t @ [MarketEvent (OfferAccepted a b (fst k) (snd k))],
              offers := (offers t)((k, b) := None)\<rparr>"
    from eff(3) show ?thesis
    proof (rule do_buy_writes)
      fix owner nft nft'
      assume w: "uq_owner E (ext ?s) k = Some owner" "decode_nft_account_id E owner = None" "nfts ?s k = Some nft"
        "nfts t = (nfts ?s)(k \<mapsto> nft')" "equipped nft' = equipped nft"
        "listed_nfts t = (if True then listed_nfts ?s else (listed_nfts ?s)(k := None))"
        "lock t = (lock ?s)(k := False)" "offers t = offers ?s" "collections t = collections ?s"
        "resources t = resources ?s" "priorities t = priorities ?s" "properties t = properties ?s"
        "\<And>p j. (j \<in> set (children t p)) \<noteq> (j \<in> set (children ?s p)) \<Longrightarrow> j = k"
        "equippable_bases t = equippable_bases ?s" "equippable_slots t = equippable_slots ?s"
        "next_nft_id t = next_nft_id ?s" "collection_index t = collection_index ?s"
        "next_resource_id t = next_resource_id ?s"
      have "owner = a" using w(1) eff(2) currency_unreserve[OF laws] by simp
      then have "root_owns E s k a" using root_ownsI[OF eff(2)] w(2) by simp
      then show ?thesis
        using eff(1,2) w(3-) by (auto simp: eff(4) market_authorised_def simp del: split_paired_All split: if_splits)
    qed
  qed
qed (use run in \<open>auto simp: success_list_nft success_unlist success_make_offer success_withdraw_offer
      market_authorised_def simp del: split_paired_All split: if_splits\<close>)

section \<open>The runtime\<close>

text \<open>What the other pallets' storage is to a call, unchanged.\<close>

lemma core_leaves_the_rest:
  assumes "core_dispatch E org c s = Some (Inr u, s')"
  shows "bases s' = bases s" "parts s' = parts s" "themes s' = themes s" "equippings s' = equippings s"
    "listed_nfts s' = listed_nfts s" "offers s' = offers s" "next_base_id s' = next_base_id s"
    "next_part_id s' = next_part_id s" "something s' = something s"
  by (rule keepsD[OF keeps_core_outside assms]; simp)+

lemma equip_leaves_the_rest:
  assumes "equip_dispatch E org c s = Some (Inr u, s')"
  shows "listed_nfts s' = listed_nfts s" "offers s' = offers s" "something s' = something s"
  by (rule keepsD[OF keeps_equip_dispatch assms]; auto intro!: keeps_base_operations)+

lemma market_leaves_the_rest:
  assumes "market_dispatch E org c s = Some (Inr u, s')"
  shows "bases s' = bases s" "parts s' = parts s" "themes s' = themes s" "equippings s' = equippings s"
    "next_base_id s' = next_base_id s" "next_part_id s' = next_part_id s" "something s' = something s"
proof -
  have keep: "keeps I (market_dispatch E org c)"
    if "\<And>k b org. keeps I (send E org k (AccountId b))" "\<And>s v. I (s\<lparr>events := v\<rparr>) = I s"
      "\<And>s v. I (s\<lparr>ext := v\<rparr>) = I s" "\<And>s v. I (s\<lparr>lock := v\<rparr>) = I s"
      "\<And>s v. I (s\<lparr>listed_nfts := v\<rparr>) = I s" "\<And>s v. I (s\<lparr>offers := v\<rparr>) = I s" for I
    by (rule keeps_market_dispatch) (simp_all add: that)
  have send: "keeps I (send E org k (AccountId b))" if "keeps I (core_dispatch E org (Send k (AccountId b)))"
    for I and org and k b using that by simp
  show "bases s' = bases s" "parts s' = parts s" "themes s' = themes s" "equippings s' = equippings s"
    "next_base_id s' = next_base_id s" "next_part_id s' = next_part_id s" "something s' = something s"
    by (rule keepsD[OF keep assms]; (rule send, rule keeps_core_outside)?; simp)+
qed

lemma core_authorisedD:
  assumes "core_authorised E a s s'"
  shows "\<forall>c. uncounted (collections s' c) \<noteq> uncounted (collections s c) \<longrightarrow>
      c = collection_index s \<or> issues s c a \<or> uq_collection_owner E (ext s) c = Some a"
    "\<forall>k. nfts s' k \<noteq> nfts s k \<longrightarrow>
      snd k = next_nft_id s (fst k) \<and> uq_collection_owner E (ext s) (fst k) = Some a \<or>
      root_owns E s k a \<or> nfts s' k = None \<and> hangs_below E s a k"
    "\<forall>k r. resources s' (k, r) \<noteq> resources s (k, r) \<longrightarrow>
      issues s (fst k) a \<and> (snd k = next_nft_id s (fst k) \<or> proposed s s' k r) \<or>
      root_owns E s k a \<or> nfts s' k = None \<and> hangs_below E s a k"
    "\<forall>k r. priorities s' (k, r) \<noteq> priorities s (k, r) \<longrightarrow> root_owns E s k a \<and> \<not> lock s k"
    "\<forall>c n key. properties s' (c, n, key) \<noteq> properties s (c, n, key) \<longrightarrow>
      issues s c a \<and> (\<forall>i. n = Some i \<longrightarrow> root_owns E s (c, i) a \<and> \<not> lock s (c, i))"
    "lock s' = lock s"
  using assms unfolding core_authorised_def by - (elim conjE, assumption)+

lemma equip_authorisedD:
  assumes "equip_authorised E a s s'"
  shows "\<forall>b. bases s' b \<noteq> bases s b \<longrightarrow> b = next_base_id s \<or> issues_base s b a"
    "\<forall>b p. parts s' (b, p) \<noteq> parts s (b, p) \<longrightarrow> b = next_base_id s \<or> issues_base s b a"
    "\<forall>b n. themes s' (b, n) \<noteq> themes s (b, n) \<longrightarrow> issues_base s b a"
    "\<forall>k b slot. equippings s' (k, b, slot) \<noteq> equippings s (k, b, slot) \<longrightarrow>
      \<not> lock s k \<and> (root_owns E s k a \<or> equippings s' (k, b, slot) = None)"
    "\<forall>k. unflagged (nfts s' k) = unflagged (nfts s k)"
    "\<forall>k. nfts s' k \<noteq> nfts s k \<longrightarrow>
      root_owns E s k a \<or> (\<exists>p b slot. root_owns E s p a \<and> equippings s (p, b, slot) \<noteq> None)"
    "collections s' = collections s"
    "resources s' = resources s"
    "priorities s' = priorities s"
    "properties s' = properties s"
    "lock s' = lock s"
    "children s' = children s" "equippable_bases s' = equippable_bases s"
    "equippable_slots s' = equippable_slots s" "next_nft_id s' = next_nft_id s"
    "collection_index s' = collection_index s" "next_resource_id s' = next_resource_id s"
    "next_part_id s' = next_part_id s"
    "next_base_id s' \<noteq> next_base_id s \<longrightarrow> next_base_id s' = next_base_id s + 1"
  using assms unfolding equip_authorised_def by - (elim conjE, assumption)+

lemma market_authorisedD:
  assumes "market_authorised E a s s'"
  shows "\<forall>k. listed_nfts s' k \<noteq> listed_nfts s k \<longrightarrow> uq_owner E (ext s) k = Some a \<or> on_sale E s k"
    "\<forall>k. lock s' k \<noteq> lock s k \<longrightarrow> uq_owner E (ext s) k = Some a \<or> on_sale E s k"
    "\<forall>k b. offers s' (k, b) \<noteq> offers s (k, b) \<longrightarrow> b = a \<or> uq_owner E (ext s) k = Some a"
    "\<forall>k. nfts s' k \<noteq> nfts s k \<longrightarrow> root_owns E s k a \<or> on_sale E s k"
    "\<forall>k nft nft'. nfts s k = Some nft \<longrightarrow> nfts s' k = Some nft' \<longrightarrow> equipped nft' = equipped nft"
    "\<forall>p j. (j \<in> set (children s' p)) \<noteq> (j \<in> set (children s p)) \<longrightarrow> root_owns E s j a \<or> on_sale E s j"
    "collections s' = collections s"
    "resources s' = resources s"
    "priorities s' = priorities s"
    "properties s' = properties s"
    "equippable_bases s' = equippable_bases s" "equippable_slots s' = equippable_slots s"
    "next_nft_id s' = next_nft_id s" "collection_index s' = collection_index s"
    "next_resource_id s' = next_resource_id s"
  using assms unfolding market_authorised_def by - (elim conjE, assumption)+

lemma nft_entries:
  "entry_changed s s' (RecordEntry k) \<longrightarrow> nfts s' k \<noteq> nfts s k"
  "entry_changed s s' (EquippedFlag k) \<longrightarrow> nfts s' k \<noteq> nfts s k \<and> nfts s' k \<noteq> None"
  by auto

text \<open>Every entry a successful call changed, its signer may change.\<close>

lemma call_authorised:
  assumes laws: "currency_laws E" "destroy_law E"
    and run: "runtime_dispatch E org call = Some m" "m s = Some (Inr (), s')"
  shows "\<exists>a. org = Signed a \<and> (\<forall>e. entry_changed s s' e \<longrightarrow> may_change E s s' a e)"
proof (cases call)
  case (RmrkCore c)
  with run have core: "core_dispatch E org c s = Some (Inr (), s')" by (auto split: if_splits)
  obtain a where a: "org = Signed a" "core_authorised E a s s'"
    using core_call_authorised[OF laws(2) core] by blast
  then have "core_indexed E a s s'" using core_call_indexed[OF laws(2) core] by auto
  note index = core_indexedD[OF this] and auth = core_authorisedD[OF a(2)]
  have "entry_changed s s' e \<longrightarrow> may_change E s s' a e" for e
  proof (cases e)
    case (RecordEntry k)
    show ?thesis unfolding RecordEntry
      using auth(2)[THEN spec, of k] nft_entries(1)[of s s' k] unfolding may_change.simps by blast
  next
    case (EquippedFlag k)
    show ?thesis unfolding EquippedFlag
      using auth(2)[THEN spec, of k] nft_entries(2)[of s s' k] unfolding may_change.simps by blast
  next
    case (CollectionEntry c)
    show ?thesis unfolding CollectionEntry entry_changed.simps may_change.simps using auth(1) by metis
  next
    case (ResourceEntry k r)
    show ?thesis unfolding ResourceEntry entry_changed.simps may_change.simps using auth(3) by metis
  next
    case (PriorityEntry k r)
    show ?thesis unfolding PriorityEntry entry_changed.simps may_change.simps using auth(4) by metis
  next
    case (PropertyEntry c n x)
    show ?thesis unfolding PropertyEntry entry_changed.simps may_change.simps using auth(5) by metis
  next
    case (ChildEntry p k)
    show ?thesis unfolding ChildEntry entry_changed.simps may_change.simps using index(1) by metis
  next
    case (EquippableBase k b)
    show ?thesis unfolding EquippableBase entry_changed.simps may_change.simps using index(2) by metis
  next
    case (EquippableSlot k r b sl)
    show ?thesis unfolding EquippableSlot entry_changed.simps may_change.simps using index(3) by metis
  next
    case (NftsCount c)
    show ?thesis unfolding NftsCount entry_changed.simps may_change.simps using index(4) by metis
  next
    case (NextNft c)
    show ?thesis unfolding NextNft entry_changed.simps may_change.simps using index(5) by metis
  next
    case NextCollection
    show ?thesis unfolding NextCollection entry_changed.simps may_change.simps using index(6) by metis
  next
    case (NextResource k)
    show ?thesis unfolding NextResource entry_changed.simps may_change.simps using index(7) by metis
  qed (simp_all add: core_leaves_the_rest[OF core] auth(6))
  with a(1) show ?thesis by blast
next
  case (RmrkEquip c)
  with run have eq: "equip_dispatch E org c s = Some (Inr (), s')" by (auto split: if_splits)
  obtain a where a: "org = Signed a" "equip_authorised E a s s'"
    using equip_call_authorised[OF eq] by blast
  note auth = equip_authorisedD[OF a(2)]
  have "entry_changed s s' e \<longrightarrow> may_change E s s' a e" for e
  proof (cases e)
    case (EquippedFlag k)
    show ?thesis unfolding EquippedFlag
      using auth(6)[THEN spec, of k] nft_entries(2)[of s s' k] unfolding may_change.simps by blast
  next
    case (BaseEntry b)
    show ?thesis unfolding BaseEntry entry_changed.simps may_change.simps using auth(1) by metis
  next
    case (PartEntry b p)
    show ?thesis unfolding PartEntry entry_changed.simps may_change.simps using auth(2) by metis
  next
    case (ThemeEntry b n)
    show ?thesis unfolding ThemeEntry entry_changed.simps may_change.simps using auth(3) by metis
  next
    case (SlotEntry k b slot)
    show ?thesis unfolding SlotEntry entry_changed.simps may_change.simps using auth(4) by metis
  next
    case NextBase
    show ?thesis unfolding NextBase entry_changed.simps may_change.simps by (rule auth(19))
  qed (simp_all add: equip_leaves_the_rest[OF eq] auth(5,7-18))
  with a(1) show ?thesis by blast
next
  case (RmrkMarket c)
  with run have mk: "market_dispatch E org c s = Some (Inr (), s')" by (auto split: if_splits)
  obtain a where a: "org = Signed a" "market_authorised E a s s'"
    using market_call_authorised[OF laws(1) mk] by blast
  note auth = market_authorisedD[OF a(2)]
  have "entry_changed s s' e \<longrightarrow> may_change E s s' a e" for e
  proof (cases e)
    case (RecordEntry k)
    show ?thesis unfolding RecordEntry
      using auth(4)[THEN spec, of k] nft_entries(1)[of s s' k] unfolding may_change.simps by blast
  next
    case (EquippedFlag k)
    show ?thesis unfolding EquippedFlag entry_changed.simps using auth(5) by metis
  next
    case (ListingEntry k)
    show ?thesis unfolding ListingEntry entry_changed.simps may_change.simps using auth(1) by metis
  next
    case (LockEntry k)
    show ?thesis unfolding LockEntry entry_changed.simps may_change.simps using auth(2) by metis
  next
    case (OfferEntry k b)
    show ?thesis unfolding OfferEntry entry_changed.simps may_change.simps using auth(3) by metis
  next
    case (ChildEntry p k)
    show ?thesis unfolding ChildEntry entry_changed.simps may_change.simps using auth(6) by metis
  qed (simp_all add: market_leaves_the_rest[OF mk] auth(7-15))
  with a(1) show ?thesis by blast
next
  case (TemplateModule c)
  with run have tp: "template_dispatch org c s = Some (Inr (), s')" by (auto split: if_splits)
  then have "(\<exists>a. org = Signed a) \<and> s' = s\<lparr>something := something s', events := events s'\<rparr>"
    by (cases c) (auto simp: do_something_def cause_error_def success split: option.splits)
  moreover have "may_change E s t a e" if "entry_changed s (s\<lparr>something := v, events := ev\<rparr>) e"
    for t a v ev e
    using that by (cases e) auto
  ultimately show ?thesis by metis
qed (use run in \<open>auto split: if_splits\<close>)

end
