(* ===== verification/Access_Props.thy ===== *)
theory Access_Props
  imports Access Runtime_Props
begin




end
