(* ===== verification/Resource_Props.thy ===== *)
theory Resource_Props
  imports Ownership_Props
begin

text \<open>
  Properties of the resources, priorities and properties of rmrk-core: exactly when each call
  succeeds, and the whole storage it leaves.
\<close>

section \<open>Resources\<close>

text \<open>C37. A successful \<^verbatim>\<open>add_basic_resource\<close>, \<^verbatim>\<open>add_composable_resource\<close> or \<^verbatim>\<open>add_slot_resource\<close>: the
  caller issued the collection and the NFT exists and is not locked; the resource gets the next
  identifier of the NFT, which never wraps; it waits for acceptance exactly when the caller does
  not root-own the NFT, and the bases and slots it brings become equippable at once.\<close>

theorem add_resource_correct:
  assumes "add_resource E org k res s = Some (Inr (), s')"
  shows "\<exists>a col owner root. org = Signed a \<and> collections s (fst k) = Some col \<and> col_issuer col = a \<and>
    lookup_root_owner E (ext s) k = Some (Inr (owner, root)) \<and> \<not> lock s k \<and>
    (let r = next_resource_id s k in
      r < r + 1 \<and> next_resource_id s' = (next_resource_id s)(k := r + 1) \<and>
      resources s' = (resources s)((k, r) \<mapsto> \<lparr>res_id = r, resource = res,
        res_pending = (owner \<noteq> a), pending_removal = False\<rparr>) \<and>
      (\<forall>b. equippable_bases s' (k, b) \<noteq> None \<longleftrightarrow>
        equippable_bases s (k, b) \<noteq> None \<or> b \<in> set (resource_bases res)) \<and>
      (\<forall>b slot. equippable_slots s' (k, r, b, slot) \<noteq> None \<longleftrightarrow>
        equippable_slots s (k, r, b, slot) \<noteq> None \<or> (b, slot) \<in> set (resource_slots res)))"
proof -
  obtain a col owner root r t where run: "org = Signed a" "collections s (fst k) = Some col"
    "col_issuer col = a" "r = next_resource_id s k" "r \<noteq> - 1"
    "lookup_root_owner E (ext s) k = Some (Inr (owner, root))" "\<not> lock s k"
    "register_equippable k r res (s\<lparr>next_resource_id := (next_resource_id s)(k := r + 1)\<rparr>)
      = Some (Inr (), t)"
    "s' = t\<lparr>resources := (resources s)((k, r) \<mapsto> \<lparr>res_id = r, resource = res,
       res_pending = (owner \<noteq> a), pending_removal = False\<rparr>),
       events := events t @ [CoreEvent (ResourceAdded (snd k) r)]\<rparr>"
    using assms unfolding add_resource_def by (auto simp: success_resource_add success_transactional success_bind success_ensure_signed success_deposit_event)
  have bases: "fold (\<lambda>b m. m((k, b) \<mapsto> ())) (resource_bases res) m (k, b) \<noteq> None \<longleftrightarrow>
      m (k, b) \<noteq> None \<or> b \<in> set (resource_bases res)" for m b
    by (auto simp: resource_bases_def split: resource_types.split)
  have slots: "fold (\<lambda>(b, sl) m. m((k, r, b, sl) \<mapsto> ())) (resource_slots res) m (k, r, b, slot) \<noteq> None \<longleftrightarrow>
      m (k, r, b, slot) \<noteq> None \<or> (b, slot) \<in> set (resource_slots res)" for m b slot
    by (auto simp: resource_slots_def split: resource_types.split option.split)
  show ?thesis
    using run less_plus_one_u32[OF run(5)] bases slots
    by (intro exI[of _ a] exI[of _ col] exI[of _ owner] exI[of _ root])
      (simp add: Let_def success_register_equippable)
qed

theorem add_resource_correct_witness:
  "\<exists>s'. add_resource sample (Signed alice) (0, 2) (Slot \<lparr>slot_base = 4, slot_src = None,
       slot_metadata = None, slot_slot = 7, slot_license = None, slot_thumb = None\<rparr>) demo
       = Some (Inr (), s') \<and>
     equippable_slots s' ((0, 2), 0, 4, 7) \<noteq> None \<and> next_resource_id s' (0, 2) = 1"
proof -
  let ?res = "Slot \<lparr>slot_base = 4, slot_src = None, slot_metadata = None, slot_slot = 7,
    slot_license = None, slot_thumb = None\<rparr>"
  have "\<exists>s'. add_resource sample (Signed alice) (0, 2) ?res demo = Some (Inr (), s')"
    by (auto simp: add_resource_def success)
  then obtain s' where run: "add_resource sample (Signed alice) (0, 2) ?res demo = Some (Inr (), s')"
    by blast
  from add_resource_correct[OF run] run show ?thesis
    by (auto simp: Let_def resource_slots_def)
qed

text \<open>\<^verbatim>\<open>accept_resource\<close> succeeds exactly for the root owner of the NFT and a resource that is
  there and pending, and then clears that flag and nothing else.\<close>

theorem accept_resource_iff:
  "accept_resource E org k r s = Some (Inr (), s') \<longleftrightarrow>
    (\<exists>a root res. org = Signed a \<and> lookup_root_owner E (ext s) k = Some (Inr (a, root)) \<and>
      resources s (k, r) = Some res \<and> res_pending res \<and>
      s' = s\<lparr>resources := (resources s)((k, r) \<mapsto> res\<lparr>res_pending := False\<rparr>),
             events := events s @ [CoreEvent (ResourceAccepted (snd k) r)]\<rparr>)"
  unfolding accept_resource_def by (auto simp: success)

text \<open>\<^verbatim>\<open>remove_resource\<close> succeeds exactly for the issuer of the collection and a resource that is
  there: it goes at once when the issuer root-owns the NFT, and is otherwise marked for removal.
  What the resource made equippable stays equippable in both cases.\<close>

theorem remove_resource_iff:
  "remove_resource E org k r s = Some (Inr (), s') \<longleftrightarrow>
    (\<exists>a col owner root res. org = Signed a \<and> collections s (fst k) = Some col \<and> col_issuer col = a \<and>
      lookup_root_owner E (ext s) k = Some (Inr (owner, root)) \<and> resources s (k, r) = Some res \<and>
      s' = s\<lparr>resources := (if owner = a then (resources s)((k, r) := None)
               else (resources s)((k, r) \<mapsto> res\<lparr>pending_removal := True\<rparr>)),
             events := events s @ [CoreEvent (ResourceRemoval (snd k) r)]\<rparr>)"
proof
  assume "remove_resource E org k r s = Some (Inr (), s')"
  then obtain a col owner root t where run: "org = Signed a" "collections s (fst k) = Some col"
    "col_issuer col = a" "lookup_root_owner E (ext s) k = Some (Inr (owner, root))"
    "resources s (k, r) \<noteq> None"
    "t = s\<lparr>resources := (if owner = a then (resources s)((k, r) := None)
       else mutate_exists (k, r) (\<lambda>res. res\<lparr>pending_removal := True\<rparr>) (resources s))\<rparr>"
    "s' = t\<lparr>events := events t @ [CoreEvent (ResourceRemoval (snd k) r)]\<rparr>"
    unfolding remove_resource_def success_transactional success_bind success_seq
      success_ensure_signed success_resource_remove success_deposit_event by blast
  from run(5) obtain res where "resources s (k, r) = Some res" by blast
  with run show "\<exists>a col owner root res. org = Signed a \<and> collections s (fst k) = Some col \<and>
      col_issuer col = a \<and> lookup_root_owner E (ext s) k = Some (Inr (owner, root)) \<and>
      resources s (k, r) = Some res \<and>
      s' = s\<lparr>resources := (if owner = a then (resources s)((k, r) := None)
               else (resources s)((k, r) \<mapsto> res\<lparr>pending_removal := True\<rparr>)),
             events := events s @ [CoreEvent (ResourceRemoval (snd k) r)]\<rparr>"
    by (intro exI[of _ a] exI[of _ col] exI[of _ owner] exI[of _ root] exI[of _ res])
      (simp add: mutate_exists_def)
next
  assume "\<exists>a col owner root res. org = Signed a \<and> collections s (fst k) = Some col \<and>
      col_issuer col = a \<and> lookup_root_owner E (ext s) k = Some (Inr (owner, root)) \<and>
      resources s (k, r) = Some res \<and>
      s' = s\<lparr>resources := (if owner = a then (resources s)((k, r) := None)
               else (resources s)((k, r) \<mapsto> res\<lparr>pending_removal := True\<rparr>)),
             events := events s @ [CoreEvent (ResourceRemoval (snd k) r)]\<rparr>"
  then obtain a col owner root res where eff: "org = Signed a" "collections s (fst k) = Some col"
    "col_issuer col = a" "lookup_root_owner E (ext s) k = Some (Inr (owner, root))"
    "resources s (k, r) = Some res"
    "s' = s\<lparr>resources := (if owner = a then (resources s)((k, r) := None)
               else (resources s)((k, r) \<mapsto> res\<lparr>pending_removal := True\<rparr>)),
             events := events s @ [CoreEvent (ResourceRemoval (snd k) r)]\<rparr>" by blast
  have "resource_remove E a k r s = Some (Inr (), s\<lparr>resources := (if owner = a
      then (resources s)((k, r) := None)
      else (resources s)((k, r) \<mapsto> res\<lparr>pending_removal := True\<rparr>))\<rparr>)"
    unfolding success_resource_remove
    by (intro exI[of _ col] exI[of _ owner] exI[of _ root]) (simp add: eff mutate_exists_def)
  then show "remove_resource E org k r s = Some (Inr (), s')"
    by (simp add: remove_resource_def run_simps eff)
qed

text \<open>\<^verbatim>\<open>accept_resource_removal\<close> succeeds exactly for the root owner of the NFT and a resource
  marked for removal, and removes it; no resource leaves without its owner's or, when they are the
  same, its issuer's signature.\<close>

theorem accept_resource_removal_iff:
  "accept_resource_removal E org k r s = Some (Inr (), s') \<longleftrightarrow>
    (\<exists>a root res. org = Signed a \<and> lookup_root_owner E (ext s) k = Some (Inr (a, root)) \<and>
      resources s (k, r) = Some res \<and> pending_removal res \<and>
      s' = s\<lparr>resources := (resources s)((k, r) := None),
             events := events s @ [CoreEvent (ResourceRemovalAccepted (snd k) r)]\<rparr>)"
  unfolding accept_resource_removal_def by (auto simp: success)

section \<open>Priorities\<close>

lemma priority_map_nth:
  "distinct rs \<Longrightarrow> j < length rs \<Longrightarrow> priority_map k rs i m (k, rs ! j) = Some (i + of_nat j)"
proof (induction rs arbitrary: i j m)
  case (Cons r rs)
  show ?case
  proof (cases j)
    case 0
    have "(k, r) \<notin> {(k, r) | r. r \<in> set rs}" using Cons.prems(1) by auto
    then show ?thesis using 0 by (simp add: priority_map_other)
  next
    case (Suc j')
    then show ?thesis using Cons.IH[of j'] Cons.prems by (simp add: algebra_simps)
  qed
qed simp

text \<open>C40. A successful \<^verbatim>\<open>set_priority\<close> with distinct resources: the caller root-owns the NFT, which is not locked;
  the position of each resource in the list becomes its priority, the resources of the NFT that the
  list leaves out have none any more, those of other NFTs keep theirs, and nothing else of the storage
  changes; the event is deposited twice, once by \<^verbatim>\<open>priority_set\<close> and once by the call.\<close>

theorem set_priority_correct:
  assumes "set_priority E org k rs s = Some (Inr (), s')" "distinct rs"
  shows "(\<exists>a root. org = Signed a \<and> lookup_root_owner E (ext s) k = Some (Inr (a, root))) \<and> \<not> lock s k \<and>
    (\<forall>j<length rs. priorities s' (k, rs ! j) = Some (of_nat j)) \<and>
    (\<forall>r. r \<notin> set rs \<longrightarrow> priorities s' (k, r) = None) \<and>
    (\<forall>k' r. k' \<noteq> k \<longrightarrow> priorities s' (k', r) = priorities s (k', r)) \<and>
    s' = s\<lparr>priorities := priorities s', events := events s @
      [CoreEvent (PrioritySet (fst k) (snd k)), CoreEvent (PrioritySet (fst k) (snd k))]\<rparr>"
proof -
  have run: "\<exists>a root. org = Signed a \<and> lookup_root_owner E (ext s) k = Some (Inr (a, root))"
    "\<not> lock s k" "priorities s' = priority_map k rs 0 (remove_prefix k (priorities s))"
    "s' = s\<lparr>priorities := priorities s', events := events s @
      [CoreEvent (PrioritySet (fst k) (snd k)), CoreEvent (PrioritySet (fst k) (snd k))]\<rparr>"
    using assms(1) unfolding set_priority_def by (auto simp: success)
  show ?thesis
    using run priority_map_nth[OF assms(2), of _ k 0 "remove_prefix k (priorities s)"]
      priority_map_other[of _ k rs 0 "remove_prefix k (priorities s)"]
    by (intro conjI) auto
qed

theorem set_priority_correct_witness:
  "\<exists>s'. set_priority sample (Signed bob) (0, 2) [4, 2] demo = Some (Inr (), s') \<and>
     priorities s' ((0, 2), 4) = Some 0 \<and> priorities s' ((0, 2), 2) = Some 1"
proof -
  have "\<exists>s'. set_priority sample (Signed bob) (0, 2) [4, 2] demo = Some (Inr (), s')"
    by (auto simp: set_priority_def success)
  then obtain s' where run: "set_priority sample (Signed bob) (0, 2) [4, 2] demo = Some (Inr (), s')"
    by blast
  from set_priority_correct[OF run] have "\<forall>j<2. priorities s' ((0, 2), [4, 2] ! j) = Some (of_nat j)"
    by (simp add: numeral_2_eq_2)
  from spec[OF this, of 0] spec[OF this, of 1] run show ?thesis by auto
qed

section \<open>Properties\<close>

text \<open>\<^verbatim>\<open>set_property\<close> succeeds exactly for the issuer of the collection and, for the property of an
  NFT, only when the issuer also root-owns that NFT and it is not locked; it writes that one
  property.\<close>

theorem set_property_iff:
  "set_property E org c n key val s = Some (Inr (), s') \<longleftrightarrow>
    (\<exists>a col. org = Signed a \<and> collections s c = Some col \<and> col_issuer col = a \<and>
      (\<forall>i. n = Some i \<longrightarrow> \<not> lock s (c, i) \<and>
        (\<exists>root. lookup_root_owner E (ext s) (c, i) = Some (Inr (a, root)))) \<and>
      s' = s\<lparr>properties := (properties s)((c, n, key) \<mapsto> val),
             events := events s @ [CoreEvent (PropertySet c n key val)]\<rparr>)"
  unfolding set_property_def by (auto simp: success)

end
