(* ===== verification/Equip_Props.thy ===== *)
theory Equip_Props
  imports Ownership_Props
begin

text \<open>
  Properties of rmrk-equip: exactly when an NFT is equipped and unequipped and what that does, the
  parts of a base, the equippable list of a slot, and the themes.
\<close>

section \<open>Equipping\<close>

text \<open>
  The sample with a base 4 whose part 7 is a slot for any collection: NFT 0 can compose the base, and
  the resource 0 of its child 1 fits the slot.
\<close>

definition equip_demo :: "(account32, ledger) runtime_state" where
  "equip_demo = demo\<lparr>equippable_bases := [((0, 0), 4) \<mapsto> ()],
     equippable_slots := [((0, 1), 0, 4, 7) \<mapsto> ()],
     parts := [(4, 7) \<mapsto> SlotPart \<lparr>slot_part_id = 7, slot_equippable = All,
       slot_part_src = None, slot_part_z = 0\<rparr>]\<rparr>"

lemma equip_free_slot:
  assumes free: "equippings s (equipper, b, slot) = None"
  shows "equip E org item equipper rid b slot s = Some (Inr (), s') \<longleftrightarrow>
    (\<exists>a ri re nft sp. org = Signed a \<and> \<not> lock s item \<and> \<not> lock s equipper \<and>
      lookup_root_owner E (ext s) item = Some (Inr (a, ri)) \<and>
      lookup_root_owner E (ext s) equipper = Some (Inr (a, re)) \<and>
      nfts s equipper \<noteq> None \<and> nfts s item = Some nft \<and> \<not> equipped nft \<and>
      nft_owner nft = CollectionAndNftTuple (fst equipper) (snd equipper) \<and>
      equippable_bases s (equipper, b) \<noteq> None \<and> equippable_slots s (item, rid, b, slot) \<noteq> None \<and>
      parts s (b, slot) = Some (SlotPart sp) \<and> slot_takes sp (fst item) \<and>
      s' = s\<lparr>nfts := (nfts s)(item \<mapsto> nft\<lparr>equipped := True\<rparr>),
             equippings := (equippings s)((equipper, b, slot) \<mapsto> rid),
             events := events s @ [EquipEvent (SlotEquipped (fst item) (snd item) b slot)]\<rparr>)"
  (is "?L \<longleftrightarrow> ?R")
proof
  assume ?L
  then obtain a out t where run: "org = Signed a" "do_equip E a item equipper rid b slot s = Some (Inr out, t)"
    "(case out of (c, n, b', slot', now_equipped) \<Rightarrow>
       if now_equipped then deposit_event (EquipEvent (SlotEquipped c n b' slot'))
       else deposit_event (EquipEvent (SlotUnequipped c n b' slot'))) t = Some (Inr (), s')"
    unfolding equip_def success_bind success_ensure_signed by blast
  obtain io ri eo re part where eff: "\<not> lock s item" "\<not> lock s equipper"
    "lookup_root_owner E (ext s) item = Some (Inr (io, ri))"
    "lookup_root_owner E (ext s) equipper = Some (Inr (eo, re))"
    "check_equip a item equipper rid b slot (nfts s item \<noteq> None) io eo s = Some (Inr part, s)"
    "equip_into_part item equipper rid b slot part s = Some (Inr out, t)"
    using run(2) free by (auto simp: do_equip_def success split: if_splits prod.splits)
  obtain nft where item: "nfts s item = Some nft" "io = a" "eo = a" "nfts s equipper \<noteq> None"
    "\<not> equipped nft" "nft_owner nft = CollectionAndNftTuple (fst equipper) (snd equipper)"
    "equippable_bases s (equipper, b) \<noteq> None" "equippable_slots s (item, rid, b, slot) \<noteq> None"
    "parts s (b, slot) = Some part"
    using eff(5) unfolding success_check_equip by blast
  obtain sp where part: "part = SlotPart sp" "slot_takes sp (fst item)"
    "out = (fst item, snd item, b, slot, True)"
    "t = s\<lparr>nfts := mutate_exists item (\<lambda>nft. nft\<lparr>equipped := True\<rparr>) (nfts s),
           equippings := (equippings s)((equipper, b, slot) \<mapsto> rid)\<rparr>"
    using eff(6) unfolding success_equip_into_part by blast
  have "s' = t\<lparr>events := events t @ [EquipEvent (SlotEquipped (fst item) (snd item) b slot)]\<rparr>"
    using run(3) part(3) by (simp add: success)
  then show ?R
    using run(1) eff(1-4) item part
    by (intro exI[of _ a] exI[of _ ri] exI[of _ re] exI[of _ nft] exI[of _ sp])
      (simp add: mutate_exists_def)
next
  assume ?R
  then obtain a ri re nft sp where eff: "org = Signed a" "\<not> lock s item" "\<not> lock s equipper"
      "lookup_root_owner E (ext s) item = Some (Inr (a, ri))"
      "lookup_root_owner E (ext s) equipper = Some (Inr (a, re))"
      "nfts s equipper \<noteq> None" "nfts s item = Some nft" "\<not> equipped nft"
      "nft_owner nft = CollectionAndNftTuple (fst equipper) (snd equipper)"
      "equippable_bases s (equipper, b) \<noteq> None" "equippable_slots s (item, rid, b, slot) \<noteq> None"
      "parts s (b, slot) = Some (SlotPart sp)" "slot_takes sp (fst item)"
      "s' = s\<lparr>nfts := (nfts s)(item \<mapsto> nft\<lparr>equipped := True\<rparr>),
             equippings := (equippings s)((equipper, b, slot) \<mapsto> rid),
             events := events s @ [EquipEvent (SlotEquipped (fst item) (snd item) b slot)]\<rparr>"
    by blast
  have "check_equip a item equipper rid b slot True a a s = Some (Inr (SlotPart sp), s)"
    unfolding success_check_equip using eff by simp
  moreover have "equip_into_part item equipper rid b slot (SlotPart sp) s =
    Some (Inr (fst item, snd item, b, slot, True),
      s\<lparr>nfts := (nfts s)(item \<mapsto> nft\<lparr>equipped := True\<rparr>),
        equippings := (equippings s)((equipper, b, slot) \<mapsto> rid)\<rparr>)"
    unfolding success_equip_into_part using eff by (simp add: mutate_exists_def)
  moreover have "root_ownerM E item s = Some (Inr (a, ri), s)"
    "root_ownerM E equipper s = Some (Inr (a, re), s)"
    unfolding success_root_owner using eff by simp_all
  ultimately have "do_equip E a item equipper rid b slot s =
    Some (Inr (fst item, snd item, b, slot, True),
      s\<lparr>nfts := (nfts s)(item \<mapsto> nft\<lparr>equipped := True\<rparr>),
        equippings := (equippings s)((equipper, b, slot) \<mapsto> rid)\<rparr>)"
    using eff free by (simp add: do_equip_def run_simps)
  then show ?L using eff by (simp add: equip_def run_simps)
qed

text \<open>C20. When the slot is free, \<^verbatim>\<open>equip\<close> succeeds exactly when neither NFT is locked, the caller
  root-owns both, both records exist, the item is not equipped and its record names the equipper as
  direct owner, the equipper has a resource for the base, the item has the given resource for the
  slot, and the part is a slot that takes the item's collection; it then fills the slot, marks the
  item, and changes nothing else. Whether the item is pending is not among the conditions, though the
  documentation of the pallet asks for it (\<open>pending_item_equips\<close> below runs such a call).\<close>

theorem equip_free_slot_iff:
  assumes free: "equippings s (equipper, b, slot) = None"
  shows "equip E org item equipper rid b slot s = Some (Inr (), s') \<longleftrightarrow>
    (\<exists>a ri re nft sp. org = Signed a \<and> \<not> lock s item \<and> \<not> lock s equipper \<and>
      lookup_root_owner E (ext s) item = Some (Inr (a, ri)) \<and>
      lookup_root_owner E (ext s) equipper = Some (Inr (a, re)) \<and>
      nfts s equipper \<noteq> None \<and> nfts s item = Some nft \<and> \<not> equipped nft \<and>
      nft_owner nft = CollectionAndNftTuple (fst equipper) (snd equipper) \<and>
      equippable_bases s (equipper, b) \<noteq> None \<and> equippable_slots s (item, rid, b, slot) \<noteq> None \<and>
      parts s (b, slot) = Some (SlotPart sp) \<and> slot_takes sp (fst item) \<and>
      s' = s\<lparr>nfts := (nfts s)(item \<mapsto> nft\<lparr>equipped := True\<rparr>),
             equippings := (equippings s)((equipper, b, slot) \<mapsto> rid),
             events := events s @ [EquipEvent (SlotEquipped (fst item) (snd item) b slot)]\<rparr>)"
  using assms by (rule equip_free_slot)

lemma demo_equips: "\<exists>s'. equip sample (Signed alice) (0, 1) (0, 0) 0 4 7 equip_demo = Some (Inr (), s')"
  by (simp add: equip_def do_equip_def check_equip_def equip_into_part_def set_equipped_def
      root_ownerM_def run_simps equip_demo_def)

theorem equip_free_slot_iff_witness:
  "\<exists>s'. equip sample (Signed alice) (0, 1) (0, 0) 0 4 7 equip_demo = Some (Inr (), s') \<and>
     equippings s' ((0, 0), 4, 7) = Some 0 \<and> (\<exists>nft. nfts s' (0, 1) = Some nft \<and> equipped nft)"
proof -
  obtain s' where run: "equip sample (Signed alice) (0, 1) (0, 0) 0 4 7 equip_demo = Some (Inr (), s')"
    using demo_equips by blast
  have "equippings equip_demo ((0, 0), 4, 7) = None" by (simp add: equip_demo_def)
  from equip_free_slot_iff[OF this, of sample "Signed alice" "(0, 1)" 0 s'] run show ?thesis by auto
qed

text \<open>An item whose record is pending, as \<^verbatim>\<open>mint_nft_directly_to_nft\<close> makes it under an NFT of another
  account, equips like any other.\<close>

lemma pending_item_equips:
  fixes nft :: "account32 nft_info"
  assumes "nfts equip_demo (0, 1) = Some nft"
  shows "\<exists>s'. equip sample (Signed alice) (0, 1) (0, 0) 0 4 7
      (equip_demo\<lparr>nfts := (nfts equip_demo)((0, 1) \<mapsto> nft\<lparr>nft_pending := True\<rparr>)\<rparr>) = Some (Inr (), s')"
  using assms
  by (auto simp: equip_def do_equip_def check_equip_def equip_into_part_def set_equipped_def
      root_ownerM_def run_simps equip_demo_def)

text \<open>Emptying a slot on behalf of a call that may.\<close>

lemma slot_effect:
  assumes filled: "equippings s (equipper, b, slot) \<noteq> None"
    and "\<not> lock s item" "\<not> lock s equipper"
    and "nfts s item = None \<or>
       (\<exists>io ri eo re. lookup_root_owner E (ext s) item = Some (Inr (io, ri)) \<and>
          lookup_root_owner E (ext s) equipper = Some (Inr (eo, re)) \<and> (io = a \<or> eo = a))"
  shows "equip E (Signed a) item equipper rid b slot s = Some (Inr (),
    s\<lparr>nfts := mutate_exists item (\<lambda>nft. nft\<lparr>equipped := False\<rparr>) (nfts s),
      equippings := (equippings s)((equipper, b, slot) := None),
      events := events s @ [EquipEvent (SlotUnequipped (fst item) (snd item) b slot)]\<rparr>)"
proof -
  have slot: "unequip_slot item equipper b slot s = Some (Inr (fst item, snd item, b, slot, False),
      s\<lparr>nfts := mutate_exists item (\<lambda>nft. nft\<lparr>equipped := False\<rparr>) (nfts s),
        equippings := (equippings s)((equipper, b, slot) := None)\<rparr>)"
    by (simp add: success_unequip_slot)
  have "do_equip E a item equipper rid b slot s = unequip_slot item equipper b slot s"
  proof (cases "nfts s item = None")
    case True
    then show ?thesis using assms by (simp add: do_equip_def run_simps)
  next
    case False
    then obtain io ri eo re where "lookup_root_owner E (ext s) item = Some (Inr (io, ri))"
      "lookup_root_owner E (ext s) equipper = Some (Inr (eo, re))" "io = a \<or> eo = a"
      using assms(4) by metis
    then show ?thesis using assms(1-3) False by (auto simp: do_equip_def run_simps root_ownerM_def)
  qed
  with slot show ?thesis by (simp add: equip_def run_simps)
qed

text \<open>C34. When the slot is filled, \<^verbatim>\<open>equip\<close> succeeds exactly when neither NFT is locked and either
  the item named in the call has no record, whoever calls, or the caller root-owns that item or the
  equipper; it then empties the slot and clears the mark of the named item. Whether the named item
  is the one in the slot is never asked.\<close>

theorem unequip_iff:
  assumes filled: "equippings s (equipper, b, slot) \<noteq> None"
  shows "equip E org item equipper rid b slot s = Some (Inr (), s') \<longleftrightarrow>
    (\<exists>a. org = Signed a \<and> \<not> lock s item \<and> \<not> lock s equipper \<and>
      (nfts s item = None \<or>
       (\<exists>io ri eo re. lookup_root_owner E (ext s) item = Some (Inr (io, ri)) \<and>
          lookup_root_owner E (ext s) equipper = Some (Inr (eo, re)) \<and> (io = a \<or> eo = a)))) \<and>
    s' = s\<lparr>nfts := mutate_exists item (\<lambda>nft. nft\<lparr>equipped := False\<rparr>) (nfts s),
           equippings := (equippings s)((equipper, b, slot) := None),
           events := events s @ [EquipEvent (SlotUnequipped (fst item) (snd item) b slot)]\<rparr>"
  (is "?L \<longleftrightarrow> ?R \<and> ?S")
proof
  assume ?L
  then obtain a out t where run: "org = Signed a" "do_equip E a item equipper rid b slot s = Some (Inr out, t)"
    "(case out of (c, n, b', slot', now_equipped) \<Rightarrow>
       if now_equipped then deposit_event (EquipEvent (SlotEquipped c n b' slot'))
       else deposit_event (EquipEvent (SlotUnequipped c n b' slot'))) t = Some (Inr (), s')"
    unfolding equip_def success_bind success_ensure_signed by blast
  have eff: "\<not> lock s item" "\<not> lock s equipper"
    "nfts s item = None \<or>
       (\<exists>io ri eo re. lookup_root_owner E (ext s) item = Some (Inr (io, ri)) \<and>
          lookup_root_owner E (ext s) equipper = Some (Inr (eo, re)) \<and> (io = a \<or> eo = a))"
    "unequip_slot item equipper b slot s = Some (Inr out, t)"
    using run(2) filled by (auto simp: do_equip_def success split: if_splits prod.splits)
  have "?S"
    using eff(4) run(3) by (auto simp: success)
  with run(1) eff show "?R \<and> ?S" by blast
next
  assume "?R \<and> ?S"
  then obtain a where eff: "org = Signed a" "\<not> lock s item" "\<not> lock s equipper" "?S"
    "nfts s item = None \<or>
       (\<exists>io ri eo re. lookup_root_owner E (ext s) item = Some (Inr (io, ri)) \<and>
          lookup_root_owner E (ext s) equipper = Some (Inr (eo, re)) \<and> (io = a \<or> eo = a))"
    by blast
  then show ?L using slot_effect[OF filled eff(2,3,5)] by simp
qed

theorem unequip_iff_witness:
  "\<exists>s'. equip sample (Signed charlie) (9, 9) (0, 0) 0 4 7 (equip_demo\<lparr>equippings := [((0, 0), 4, 7) \<mapsto> 0]\<rparr>)
     = Some (Inr (), s') \<and> equippings s' ((0, 0), 4, 7) = None"
proof -
  let ?s = "equip_demo\<lparr>equippings := [((0, 0), 4, 7) \<mapsto> 0]\<rparr>"
  have filled: "equippings ?s ((0, 0), 4, 7) \<noteq> None" by simp
  have "nfts ?s (9, 9) = None" by (simp add: equip_demo_def demo_def)
  then show ?thesis
    using unequip_iff[OF filled, of sample "Signed charlie" "(9, 9)" 0] by (simp add: equip_demo_def)
qed

text \<open>C28. Equipping into a free slot and then making the same call again empties the slot: the records
  of the NFTs and the filled slots are what they were.\<close>

theorem equip_then_unequip_restores:
  assumes "equippings s (equipper, b, slot) = None"
    and "equip E org item equipper rid b slot s = Some (Inr (), s1)"
  shows "\<exists>s2. equip E org item equipper rid b slot s1 = Some (Inr (), s2) \<and>
    nfts s2 = nfts s \<and> equippings s2 = equippings s"
proof -
  obtain a ri re nft where eff: "org = Signed a" "\<not> lock s item" "\<not> lock s equipper"
    "lookup_root_owner E (ext s) item = Some (Inr (a, ri))"
    "lookup_root_owner E (ext s) equipper = Some (Inr (a, re))"
    "nfts s item = Some nft" "\<not> equipped nft"
    "s1 = s\<lparr>nfts := (nfts s)(item \<mapsto> nft\<lparr>equipped := True\<rparr>),
           equippings := (equippings s)((equipper, b, slot) \<mapsto> rid),
           events := events s @ [EquipEvent (SlotEquipped (fst item) (snd item) b slot)]\<rparr>"
    using assms(2) equip_free_slot[OF assms(1)] by blast
  have "equip E (Signed a) item equipper rid b slot s1 = Some (Inr (),
    s1\<lparr>nfts := mutate_exists item (\<lambda>nft. nft\<lparr>equipped := False\<rparr>) (nfts s1),
      equippings := (equippings s1)((equipper, b, slot) := None),
      events := events s1 @ [EquipEvent (SlotUnequipped (fst item) (snd item) b slot)]\<rparr>)"
    using eff by (intro slot_effect) simp_all
  moreover have "mutate_exists item (\<lambda>nft. nft\<lparr>equipped := False\<rparr>) (nfts s1) = nfts s"
    using eff(6-8) by (auto simp: mutate_exists_def)
  moreover have "(equippings s1)((equipper, b, slot) := None) = equippings s"
    using eff(8) assms(1) by (auto simp: fun_eq_iff)
  ultimately show ?thesis using eff(1) by simp
qed

theorem equip_then_unequip_restores_witness:
  "\<exists>s1 s2. equip sample (Signed alice) (0, 1) (0, 0) 0 4 7 equip_demo = Some (Inr (), s1) \<and>
     equip sample (Signed alice) (0, 1) (0, 0) 0 4 7 s1 = Some (Inr (), s2) \<and>
     equippings s2 = Map.empty"
proof -
  obtain s1 where run: "equip sample (Signed alice) (0, 1) (0, 0) 0 4 7 equip_demo = Some (Inr (), s1)"
    using demo_equips by blast
  have free: "equippings equip_demo ((0, 0), 4, 7) = None" and "equippings equip_demo = Map.empty"
    by (simp_all add: equip_demo_def)
  with equip_then_unequip_restores[OF free run] run show ?thesis by auto
qed

text \<open>Equipping never looks at the resources of an NFT: a resource that was removed, or that the
  owner has not accepted, equips just as well.\<close>

theorem equip_ignores_the_resources:
  assumes "equippings s (equipper, b, slot) = None"
    and "equip E org item equipper rid b slot s = Some (Inr (), s')"
  shows "equip E org item equipper rid b slot (s\<lparr>resources := m\<rparr>) = Some (Inr (), s'\<lparr>resources := m\<rparr>)"
proof -
  have "equippings (s\<lparr>resources := m\<rparr>) (equipper, b, slot) = None" using assms(1) by simp
  then show ?thesis
    using assms(2) unfolding equip_free_slot[OF assms(1)] by (auto simp: equip_free_slot)
qed

theorem equip_ignores_the_resources_witness:
  "\<exists>s'. equip sample (Signed alice) (0, 1) (0, 0) 0 4 7 (equip_demo\<lparr>resources := Map.empty\<rparr>)
     = Some (Inr (), s')"
proof -
  obtain s' where run: "equip sample (Signed alice) (0, 1) (0, 0) 0 4 7 equip_demo = Some (Inr (), s')"
    using demo_equips by blast
  have "equippings equip_demo ((0, 0), 4, 7) = None" by (simp add: equip_demo_def)
  from equip_ignores_the_resources[OF this run] show ?thesis by blast
qed

section \<open>Bases\<close>

text \<open>C39. A successful \<^verbatim>\<open>create_base\<close>: the base gets the next identifier, which does not wrap, and the
  caller as its issuer; for every part identifier the last part of the list with that identifier is
  stored, whether or not an earlier one has it too, and under an identifier no part of the list has
  nothing changes; the parts of other bases stay, and nothing else of the storage changes.\<close>

theorem create_base_correct:
  assumes "create_base org ty sy ps s = Some (Inr (), s')"
  shows "\<exists>a. org = Signed a \<and> (let b = next_base_id s in
    b < b + 1 \<and>
    (\<forall>i. parts s' (b, i) = (case find (\<lambda>p. id_of_part p = i) (rev ps) of
       Some p \<Rightarrow> Some p | None \<Rightarrow> parts s (b, i))) \<and>
    (\<forall>b' i. b' \<noteq> b \<longrightarrow> parts s' (b', i) = parts s (b', i)) \<and>
    s' = s\<lparr>next_base_id := b + 1, parts := parts s',
      bases := (bases s)(b \<mapsto> \<lparr>base_issuer = a, base_type = ty, base_symbol = sy, base_parts = ps\<rparr>),
      events := events s @ [EquipEvent (BaseCreated a b)]\<rparr>)"
proof -
  obtain a b where run: "org = Signed a" "b = next_base_id s" "b \<noteq> - 1"
    "s' = s\<lparr>next_base_id := b + 1, parts := store_parts b ps (parts s),
       bases := (bases s)(b \<mapsto> \<lparr>base_issuer = a, base_type = ty, base_symbol = sy, base_parts = ps\<rparr>),
       events := events s @ [EquipEvent (BaseCreated a b)]\<rparr>"
    using assms unfolding create_base_def by (auto simp: success)
  show ?thesis
    using run less_plus_one_u32[OF run(3)]
    by (intro exI[of _ a]) (auto simp: Let_def store_parts_same store_parts_other split: option.split)
qed

theorem create_base_correct_witness:
  "\<exists>s'. create_base (Signed bob) [1] [2] [FixedPart \<lparr>fixed_id = 3, fixed_z = 0, fixed_src = []\<rparr>,
       FixedPart \<lparr>fixed_id = 3, fixed_z = 9, fixed_src = []\<rparr>] demo = Some (Inr (), s') \<and>
     next_base_id s' = 1 \<and>
     parts s' (0, 3) = Some (FixedPart \<lparr>fixed_id = 3, fixed_z = 9, fixed_src = []\<rparr>)"
proof -
  let ?ps = "[FixedPart \<lparr>fixed_id = 3, fixed_z = 0, fixed_src = []\<rparr>,
       FixedPart \<lparr>fixed_id = 3, fixed_z = 9, fixed_src = []\<rparr>]"
  have "\<exists>s'. create_base (Signed bob) [1] [2] ?ps demo = Some (Inr (), s')"
    by (auto simp: create_base_def success)
  then obtain s' where run: "create_base (Signed bob) [1] [2] ?ps demo = Some (Inr (), s')" by blast
  note made = create_base_correct[OF run]
  have "parts s' (0, 3) = Some (FixedPart \<lparr>fixed_id = 3, fixed_z = 9, fixed_src = []\<rparr>)"
    using made by (auto simp: Let_def id_of_part_def)
  moreover have "next_base_id s' = 1"
    using made by (auto simp: Let_def dest: arg_cong[where f = next_base_id])
  ultimately show ?thesis using run by blast
qed

text \<open>\<^verbatim>\<open>equippable\<close> succeeds exactly for the issuer of the base and a slot part of it, and replaces
  the equippable list of that part and nothing else; a fixed part has none.\<close>

theorem equippable_iff:
  "equippable org b slot eqs s = Some (Inr (), s') \<longleftrightarrow>
    (\<exists>a base sp. org = Signed a \<and> bases s b = Some base \<and> base_issuer base = a \<and>
      parts s (b, slot) = Some (SlotPart sp) \<and>
      s' = s\<lparr>parts := (parts s)((b, slot) \<mapsto> SlotPart (sp\<lparr>slot_equippable := eqs\<rparr>)),
             events := events s @ [EquipEvent (EquippablesUpdated b slot)]\<rparr>)"
  unfolding equippable_def by (auto simp: success)

lemma store_theme_map_of:
  "map_of (store_theme props al) = map_of al ++ map_of (map (\<lambda>p. (prop_key p, prop_value p)) (rev props))"
proof (induction props arbitrary: al)
  case (Cons p props)
  then show ?case
    by (simp add: store_theme_def update_conv' map_add_upd_left [symmetric] fun_eq_iff map_add_def
        split: option.split)
qed (simp add: store_theme_def)

text \<open>C35. A successful \<^verbatim>\<open>theme_add\<close>: the caller issued the base, the theme has no more properties
  than the limit, and the base has a \<^verbatim>\<open>default\<close> theme with a property already unless this is it;
  each property of the theme then has the value the theme gives it last, the other properties of
  that theme and the other themes keep theirs, nothing else of the storage changes, and no event is
  deposited; the \<^verbatim>\<open>inherit\<close> flag of the theme is not stored.\<close>

theorem theme_add_correct:
  assumes "theme_add E org b th s = Some (Inr (), s')"
  shows "\<exists>a base. org = Signed a \<and> bases s b = Some base \<and> base_issuer base = a \<and>
    length (theme_properties th) \<le> unat (max_properties_per_theme E) \<and>
    (themes s (b, default_bytes) \<noteq> [] \<or> theme_name th = default_bytes) \<and>
    map_of (themes s' (b, theme_name th)) = map_of (themes s (b, theme_name th)) ++
      map_of (map (\<lambda>p. (prop_key p, prop_value p)) (rev (theme_properties th))) \<and>
    (\<forall>bn. bn \<noteq> (b, theme_name th) \<longrightarrow> themes s' bn = themes s bn) \<and>
    s' = s\<lparr>themes := themes s'\<rparr> \<and>
    theme_add E org b (th\<lparr>theme_inherit := i\<rparr>) s = Some (Inr (), s')"
proof -
  have run: "\<exists>a base. org = Signed a \<and> bases s b = Some base \<and> base_issuer base = a"
    "length (theme_properties th) < 2 ^ 32"
    "(of_nat (length (theme_properties th)) :: u32) \<le> max_properties_per_theme E"
    "themes s (b, default_bytes) \<noteq> [] \<or> theme_name th = default_bytes"
    "s' = s\<lparr>themes := (themes s)((b, theme_name th) :=
       store_theme (theme_properties th) (themes s (b, theme_name th)))\<rparr>"
    using assms unfolding theme_add_def by (auto simp: success)
  have "length (theme_properties th) \<le> unat (max_properties_per_theme E)"
    using run(2,3) by (simp add: word_le_nat_alt unat_of_nat take_bit_nat_eq_self)
  moreover have "theme_add E org b (th\<lparr>theme_inherit := i\<rparr>) s = theme_add E org b th s"
    by (simp add: theme_add_def add_theme_def)
  ultimately show ?thesis using run assms by (auto simp: store_theme_map_of)
qed

theorem theme_add_correct_witness:
  "\<exists>s'. theme_add sample (Signed bob) 0 \<lparr>theme_name = default_bytes,
       theme_properties = [\<lparr>prop_key = [1], prop_value = [2]\<rparr>], theme_inherit = True\<rparr>
       (demo\<lparr>bases := [0 \<mapsto> \<lparr>base_issuer = bob, base_type = [], base_symbol = [], base_parts = []\<rparr>]\<rparr>)
       = Some (Inr (), s') \<and> map_of (themes s' (0, default_bytes)) [1] = Some [2]"
proof -
  let ?th = "\<lparr>theme_name = default_bytes,
       theme_properties = [\<lparr>prop_key = [1], prop_value = [2]\<rparr>], theme_inherit = True\<rparr>"
  let ?s = "demo\<lparr>bases := [0 \<mapsto> \<lparr>base_issuer = bob, base_type = [], base_symbol = [], base_parts = []\<rparr>]\<rparr>"
  have "\<exists>s'. theme_add sample (Signed bob) 0 ?th ?s = Some (Inr (), s')"
    by (auto simp: theme_add_def success)
  then obtain s' where run: "theme_add sample (Signed bob) 0 ?th ?s = Some (Inr (), s')" by blast
  from theme_add_correct[OF run] run show ?thesis by auto
qed

end
