(* ===== verification/Configuration.thy ===== *)
theory Configuration
  imports Limits
begin

text \<open>
  The configuration of the runtime (\<^verbatim>\<open>runtime/src/lib.rs\<close>) as data: one record per pallet with the
  values its \<^verbatim>\<open>Config\<close> implementation sets (types that only choose an implementation of Substrate
  are left out), and the environment and the limits that follow from them.
\<close>

section \<open>Constants of the runtime\<close>

definition BlockHashCount :: block_number where "BlockHashCount = 2400"
definition SS58Prefix :: u8 where "SS58Prefix = 42"
definition MaxAuthorities :: u32 where "MaxAuthorities = 32"
definition MaxLocks :: u32 where "MaxLocks = 50"
definition TransactionByteFee :: balance where "TransactionByteFee = 1"
definition OperationalFeeMultiplier :: u8 where "OperationalFeeMultiplier = 5"
definition ResourceSymbolLimit :: u32 where "ResourceSymbolLimit = 10"
definition ItemDeposit :: balance where "ItemDeposit = DOLLARS"
definition UniquesMetadataDepositBase :: balance where "UniquesMetadataDepositBase = 10 * CENTS"
definition AttributeDepositBase :: balance where "AttributeDepositBase = 10 * CENTS"
definition DepositPerByte :: balance where "DepositPerByte = CENTS"

record runtime_version =
  version_spec_name :: string
  version_impl_name :: string
  authoring_version :: u32
  spec_version :: u32
  impl_version :: u32
  transaction_version :: u32
  state_version :: u8

definition VERSION :: runtime_version where
  "VERSION = \<lparr>version_spec_name = ''rmrk-substrate'', version_impl_name = ''rmrk-substrate'',
     authoring_version = 1, spec_version = 100, impl_version = 1, transaction_version = 1,
     state_version = 1\<rparr>"

definition native_version :: runtime_version where "native_version = VERSION"

text \<open>\<^verbatim>\<open>wasm_binary_unwrap\<close>: without a binary the node stops.\<close>

definition wasm_binary_unwrap :: "bytes option \<Rightarrow> dispatch_error + bytes" where
  "wasm_binary_unwrap WASM_BINARY = (case WASM_BINARY of None \<Rightarrow> Inl Panic | Some b \<Rightarrow> Inr b)"

section \<open>The pallets\<close>

text \<open>\<^verbatim>\<open>construct_runtime!\<close> numbers the pallets in this order; the number is the first byte of a call.\<close>

datatype pallet =
    SystemPallet | RandomnessPallet | TimestampPallet | AuraPallet | GrandpaPallet | BalancesPallet
  | TransactionPaymentPallet | SudoPallet | TemplatePallet | RmrkEquipPallet | RmrkCorePallet
  | RmrkMarketPallet | UniquesPallet | UtilityPallet

definition runtime_pallets :: "pallet list" where
  "runtime_pallets =
     [SystemPallet, RandomnessPallet, TimestampPallet, AuraPallet, GrandpaPallet, BalancesPallet,
      TransactionPaymentPallet, SudoPallet, TemplatePallet, RmrkEquipPallet, RmrkCorePallet,
      RmrkMarketPallet, UniquesPallet, UtilityPallet]"

lemma pallets_numbered_once: "distinct runtime_pallets" "p \<in> set runtime_pallets"
  by (simp add: runtime_pallets_def) (cases p; simp add: runtime_pallets_def)

section \<open>What the Config implementations set\<close>

text \<open>The integer types are given by their width, an absent prefix as \<open>None\<close>.\<close>

record 'c system_config =
  sys_base_call_filter :: "'c \<Rightarrow> bool"
  sys_index_bits :: nat
  sys_block_number_bits :: nat
  sys_hash_bits :: nat
  sys_ss58_prefix :: "u8 option"
  sys_block_hash_count :: "64 word"
  sys_max_consumers :: u32

record balances_config =
  bal_max_locks :: u32
  bal_max_reserves :: u32
  bal_existential_deposit :: balance

record core_config =
  core_max_recursions :: u32
  core_resource_symbol_limit :: u32
  core_parts_limit :: u32
  core_max_priorities :: u32
  core_collection_symbol_limit :: u32
  core_max_resources_on_mint :: u32

record equip_config =
  equip_max_properties :: u32
  equip_max_collections :: u32

record market_config =
  market_minimum_offer :: balance

record uniques_config =
  uq_collection_deposit :: balance
  uq_item_deposit :: balance
  uq_metadata_deposit :: balance
  uq_attribute_deposit :: balance
  uq_deposit_per_byte :: balance
  uq_string_limit :: u32
  uq_key_limit :: u32
  uq_value_limit :: u32

definition runtime_system :: "('a, 'l) runtime_call system_config" where
  "runtime_system = \<lparr>sys_base_call_filter = base_filter, sys_index_bits = 32,
     sys_block_number_bits = 32, sys_hash_bits = 256, sys_ss58_prefix = Some SS58Prefix,
     sys_block_hash_count = ucast BlockHashCount, sys_max_consumers = 16\<rparr>"

definition runtime_balances :: balances_config where
  "runtime_balances = \<lparr>bal_max_locks = MaxLocks, bal_max_reserves = 0,
     bal_existential_deposit = ExistentialDeposit\<rparr>"

definition runtime_core :: core_config where
  "runtime_core = \<lparr>core_max_recursions = MaxRecursions,
     core_resource_symbol_limit = ResourceSymbolLimit, core_parts_limit = PartsLimit,
     core_max_priorities = MaxPriorities, core_collection_symbol_limit = CollectionSymbolLimit,
     core_max_resources_on_mint = MaxResourcesOnMint\<rparr>"

definition runtime_equip :: equip_config where
  "runtime_equip = \<lparr>equip_max_properties = MaxPropertiesPerTheme,
     equip_max_collections = MaxCollectionsEquippablePerPart\<rparr>"

definition runtime_market :: market_config where
  "runtime_market = \<lparr>market_minimum_offer = MinimumOfferAmount\<rparr>"

definition runtime_uniques :: uniques_config where
  "runtime_uniques = \<lparr>uq_collection_deposit = CollectionDeposit, uq_item_deposit = ItemDeposit,
     uq_metadata_deposit = UniquesMetadataDepositBase, uq_attribute_deposit = AttributeDepositBase,
     uq_deposit_per_byte = DepositPerByte, uq_string_limit = UniquesStringLimit,
     uq_key_limit = KeyLimit, uq_value_limit = ValueLimit\<rparr>"

section \<open>What follows for the pallets of the repository\<close>

definition limits_of :: "core_config \<Rightarrow> equip_config \<Rightarrow> uniques_config \<Rightarrow> limits" where
  "limits_of core eq uq = \<lparr>string_bytes = unat (uq_string_limit uq),
     symbol_bytes = unat (core_collection_symbol_limit core), max_parts = unat (core_parts_limit core),
     max_priorities = unat (core_max_priorities core),
     max_minted_resources = unat (core_max_resources_on_mint core),
     key_bytes = unat (uq_key_limit uq), value_bytes = unat (uq_value_limit uq),
     max_theme_properties = unat (equip_max_properties eq),
     max_equippable_collections = unat (equip_max_collections eq)\<rparr>"

lemma runtime_limits_configured: "limits_of runtime_core runtime_equip runtime_uniques = runtime_limits"
  by (simp add: limits_of_def runtime_core_def runtime_equip_def runtime_uniques_def runtime_limits_def)

text \<open>The constants an environment has under a configuration.\<close>

definition configured ::
  "core_config \<Rightarrow> equip_config \<Rightarrow> market_config \<Rightarrow> uniques_config \<Rightarrow> ('a, 'l, 'x) env \<Rightarrow>
    ('a, 'l, 'x) env" where
  "configured core eq mk uq E = E\<lparr>max_recursions := core_max_recursions core,
     collection_deposit := uq_collection_deposit uq, string_limit := unat (uq_string_limit uq),
     max_properties_per_theme := equip_max_properties eq,
     minimum_offer_amount := market_minimum_offer mk\<rparr>"

lemma runtime_configured:
  "runtime_config (configured runtime_core runtime_equip runtime_market runtime_uniques E)"
  by (simp add: runtime_config_def configured_def runtime_core_def runtime_equip_def
      runtime_market_def runtime_uniques_def)

text \<open>No deposit wraps around, and an item costs ten times what a collection does.\<close>

lemma runtime_deposits:
  "unat CollectionDeposit = 10 ^ 13" "unat ItemDeposit = 10 ^ 14"
  "unat UniquesMetadataDepositBase = 10 ^ 13" "unat DepositPerByte = 10 ^ 12"
  "unat MinimumOfferAmount = 10 ^ 8"
  by (simp_all add: CollectionDeposit_def ItemDeposit_def UniquesMetadataDepositBase_def
      DepositPerByte_def MinimumOfferAmount_def UNITS_def DOLLARS_def CENTS_def MILLICENTS_def)

end
