(* ===== verification/Node.thy ===== *)
theory Node
  imports Configuration
begin

text \<open>
  The node's service and command line (\<^verbatim>\<open>node/src/service.rs\<close>, \<^verbatim>\<open>cli.rs\<close>, \<^verbatim>\<open>command.rs\<close>): the
  decisions they make on a configuration, in the order they make them. What Substrate does when it
  is called (building a client, a network, a consensus worker) is an argument that may fail; what
  is recorded is which parts of the node were started, and with which settings.
\<close>

section \<open>Configuration\<close>

text \<open>The fields of \<^verbatim>\<open>sc_service::Configuration\<close> the service reads.\<close>

record node_config =
  keystore_remote :: "string option"
  telemetry_endpoints :: "string list option"
  is_authority :: bool
  offchain_worker_enabled :: bool
  force_authoring :: bool
  disable_grandpa :: bool
  node_name :: string

datatype service_error = Other string | ExternalService nat | ServicePanic

section \<open>The RPC extensions\<close>

text \<open>\<^verbatim>\<open>create_full\<close> merges the two modules into an empty one, in this order; \<^verbatim>\<open>RpcModule::merge\<close> may refuse.\<close>

record ('m, 'e) rpc_env =
  rpc_new :: 'm
  rpc_system :: "bool \<Rightarrow> 'm"
  rpc_transaction_payment :: 'm
  rpc_merge :: "'m \<Rightarrow> 'm \<Rightarrow> 'e + 'm"

definition create_full :: "('m, 'e) rpc_env \<Rightarrow> bool \<Rightarrow> 'e + 'm" where
  "create_full R deny_unsafe = (case rpc_merge R (rpc_new R) (rpc_system R deny_unsafe) of
       Inl e \<Rightarrow> Inl e
     | Inr module \<Rightarrow> rpc_merge R module (rpc_transaction_payment R))"

text \<open>
  With modules as maps from method names, and a merge that refuses a name it has already, the node
  serves the methods of both modules, or refuses when they share a name.
\<close>

definition merge_methods :: "(string \<rightharpoonup> 'h) \<Rightarrow> (string \<rightharpoonup> 'h) \<Rightarrow> string + (string \<rightharpoonup> 'h)" where
  "merge_methods a b = (if dom a \<inter> dom b = {} then Inr (a ++ b) else Inl ''AlreadyRegistered'')"

lemma node_serves_both_modules:
  assumes "rpc_new R = Map.empty" "rpc_merge R = merge_methods"
  shows "create_full R deny =
    (if dom (rpc_system R deny) \<inter> dom (rpc_transaction_payment R) = {}
     then Inr (rpc_system R deny ++ rpc_transaction_payment R) else Inl ''AlreadyRegistered'')"
  using assms by (simp add: create_full_def merge_methods_def)

section \<open>What is started\<close>

text \<open>The settings the source gives \<^verbatim>\<open>StartAuraParams\<close> and \<^verbatim>\<open>sc_finality_grandpa::Config\<close>.\<close>

record aura_params =
  aura_slot_duration :: nat
  aura_force_authoring :: bool
  proposal_slot_portion :: "nat \<times> nat"

record grandpa_params =
  gossip_duration_millis :: nat
  justification_period :: nat
  grandpa_name :: string
  observer_enabled :: bool
  has_keystore :: bool
  local_authority :: bool

datatype service_effect =
    TelemetryTask
  | GrandpaPeersSet
  | OffchainWorkers
  | NodeTasks
  | AuraTask aura_params
  | GrandpaVoter grandpa_params
  | NetworkStarted

text \<open>
  The calls into Substrate that may fail, as what they give. The duration of a slot is asked for twice,
  of the client of the moment. \<open>rpc_builder\<close> is what \<^verbatim>\<open>spawn_tasks\<close> gets to build the RPC module
  with, \<open>into\<close> the conversion of its errors.
\<close>

type_synonym 'm rpc_builder = "bool \<Rightarrow> service_error + 'm"

record ('m, 'e) node_env =
  telemetry_worker :: "service_error + unit"
  new_full_parts :: "node_config \<Rightarrow> service_error + unit"
  grandpa_block_import :: "service_error + unit"
  import_slot_duration :: "service_error + nat"
  import_queue :: "nat \<Rightarrow> service_error + unit"
  genesis_hash :: "bytes option"
  build_network :: "node_config \<Rightarrow> service_error + unit"
  rpc :: "('m, 'e) rpc_env"
  into :: "'e \<Rightarrow> service_error"
  spawn_tasks :: "node_config \<Rightarrow> 'm rpc_builder \<Rightarrow> service_error + unit"
  aura_slot :: "service_error + nat"
  start_aura :: "aura_params \<Rightarrow> service_error + unit"
  run_grandpa_voter :: "grandpa_params \<Rightarrow> service_error + unit"

type_synonym 'r service_action = "(service_effect list, service_error, 'r) action"

text \<open>\<^verbatim>\<open>call(..)?\<close> and the record of a started part.\<close>

definition tryM :: "'e + 'r \<Rightarrow> ('s, 'e, 'r) action" where
  "tryM res = (case res of Inl e \<Rightarrow> failM e | Inr r \<Rightarrow> returnM r)"

definition startM :: "service_effect \<Rightarrow> unit service_action" where
  "startM eff = modifyM (\<lambda>effs. effs @ [eff])"

lemma success_try [success]: "tryM res s = Some (Inr r, s') \<longleftrightarrow> res = Inr r \<and> s' = s"
  by (cases res) (auto simp: tryM_def success)

lemma success_start [success]: "startM eff s = Some (Inr u, s') \<longleftrightarrow> s' = s @ [eff]"
  by (auto simp: startM_def success)

lemma run_node_parts [run_simps]:
  "tryM res s = Some (res, s)" "startM eff s = Some (Inr (), s @ [eff])"
  by (auto simp: tryM_def startM_def run_simps split: sum.split)

section \<open>The service\<close>

text \<open>Telemetry is on when there is a list of endpoints and it is not empty.\<close>

definition telemetry_wanted :: "node_config \<Rightarrow> bool" where
  "telemetry_wanted config = (case telemetry_endpoints config of None \<Rightarrow> False | Some x \<Rightarrow> x \<noteq> [])"

definition new_partial :: "('m, 'e) node_env \<Rightarrow> node_config \<Rightarrow> unit service_action" where
  "new_partial N config =
     seqM (ensureM (keystore_remote config = None) (Other ''Remote Keystores are not supported.''))
     (seqM (if telemetry_wanted config then tryM (telemetry_worker N) else returnM ())
     (seqM (tryM (new_full_parts N config))
     (seqM (if telemetry_wanted config then startM TelemetryTask else returnM ())
     (seqM (tryM (grandpa_block_import N))
     (bindM (tryM (import_slot_duration N)) (\<lambda>slot_duration.
     tryM (import_queue N slot_duration)))))))"

definition remote_keystore :: "string \<Rightarrow> string + unit" where
  "remote_keystore url = Inl ''Remote Keystore not supported.''"

text \<open>The two ends of \<^verbatim>\<open>new_full\<close>: an authority authors blocks, and a node votes unless told not to.\<close>

definition author_blocks :: "('m, 'e) node_env \<Rightarrow> node_config \<Rightarrow> unit service_action" where
  "author_blocks N config =
     (if is_authority config
      then bindM (tryM (aura_slot N)) (\<lambda>d.
        let aura = \<lparr>aura_slot_duration = d, aura_force_authoring = force_authoring config,
            proposal_slot_portion = (2, 3)\<rparr>
        in seqM (tryM (start_aura N aura)) (startM (AuraTask aura)))
      else returnM ())"

definition vote :: "('m, 'e) node_env \<Rightarrow> node_config \<Rightarrow> unit service_action" where
  "vote N config =
     (let grandpa_config = \<lparr>gossip_duration_millis = 333, justification_period = 512,
          grandpa_name = node_name config, observer_enabled = False,
          has_keystore = is_authority config, local_authority = is_authority config\<rparr>
      in if \<not> disable_grandpa config
         then seqM (tryM (run_grandpa_voter N grandpa_config)) (startM (GrandpaVoter grandpa_config))
         else returnM ())"

definition rpc_extensions_builder :: "('m, 'e) node_env \<Rightarrow> 'm rpc_builder" where
  "rpc_extensions_builder N = (\<lambda>deny_unsafe. case create_full (rpc N) deny_unsafe of
       Inl e \<Rightarrow> Inl (into N e)
     | Inr module \<Rightarrow> Inr module)"

definition new_full :: "('m, 'e) node_env \<Rightarrow> node_config \<Rightarrow> unit service_action" where
  "new_full N config =
     seqM (new_partial N config)
     (seqM (case keystore_remote config of
         None \<Rightarrow> returnM ()
       | Some url \<Rightarrow> (case remote_keystore url of
           Inr _ \<Rightarrow> returnM ()
         | Inl e \<Rightarrow> failM (Other (''Error hooking up remote keystore for '' @ url @ '': '' @ e))))
     (bindM (ok_orM (genesis_hash N) ServicePanic) (\<lambda>_.
     seqM (startM GrandpaPeersSet)
     (seqM (tryM (build_network N config))
     (seqM (if offchain_worker_enabled config then startM OffchainWorkers else returnM ())
     (seqM (tryM (spawn_tasks N config (rpc_extensions_builder N)))
     (seqM (startM NodeTasks)
     (seqM (author_blocks N config)
     (seqM (vote N config)
     (startM NetworkStarted))))))))))"

section \<open>The command line\<close>

datatype benchmark_cmd = BenchPallet | BenchBlock | BenchStorage | BenchOverhead | BenchMachine

datatype subcommand =
    Key | BuildSpec | CheckBlock | ExportBlocks | ExportState | ImportBlocks | PurgeChain | Revert
  | Benchmark benchmark_cmd | TryRuntime | ChainInfo

datatype cli_error = Input string | Service service_error | ExternalCli nat

text \<open>
  The features the node is built with, the runner that reads the configuration, the commands of
  \<^verbatim>\<open>sc_cli\<close>, the task manager of \<^verbatim>\<open>try-runtime\<close>, and the data of an inherent.
\<close>

record ('m, 'e) cli_env =
  runtime_benchmarks :: bool
  try_runtime :: bool
  try_runtime_task_manager :: "cli_error + unit"
  create_runner :: "subcommand option \<Rightarrow> cli_error + node_config"
  run_command :: "subcommand \<Rightarrow> cli_error + unit"
  inherent_benchmark_data :: "cli_error + unit"
  service :: "('m, 'e) node_env"

type_synonym 'r cli_action = "(service_effect list, cli_error, 'r) action"

text \<open>\<^verbatim>\<open>service::..(..).map_err(sc_cli::Error::Service)?\<close>.\<close>

definition serviceM :: "'r service_action \<Rightarrow> 'r cli_action" where
  "serviceM m = (\<lambda>s. case m s of
       None \<Rightarrow> None
     | Some (Inl e, s') \<Rightarrow> Some (Inl (Service e), s')
     | Some (Inr r, s') \<Rightarrow> Some (Inr r, s'))"

definition run_benchmark :: "('m, 'e) cli_env \<Rightarrow> benchmark_cmd \<Rightarrow> node_config \<Rightarrow> unit cli_action" where
  "run_benchmark C cmd config = (case cmd of
       BenchPallet \<Rightarrow>
         seqM (ensureM (runtime_benchmarks C) (Input
           (''Runtime benchmarking wasn't enabled when building the node. '' @
            ''You can enable it with `--features runtime-benchmarks`.'')))
         (tryM (run_command C (Benchmark cmd)))
     | BenchBlock \<Rightarrow>
         seqM (serviceM (new_partial (service C) config)) (tryM (run_command C (Benchmark cmd)))
     | BenchStorage \<Rightarrow>
         seqM (serviceM (new_partial (service C) config)) (tryM (run_command C (Benchmark cmd)))
     | BenchOverhead \<Rightarrow>
         seqM (serviceM (new_partial (service C) config))
         (seqM (tryM (inherent_benchmark_data C)) (tryM (run_command C (Benchmark cmd))))
     | BenchMachine \<Rightarrow> tryM (run_command C (Benchmark cmd)))"

text \<open>A subcommand that needs the client of a node, and one that needs the configuration only.\<close>

definition run_on_node :: "('m, 'e) cli_env \<Rightarrow> subcommand \<Rightarrow> unit cli_action" where
  "run_on_node C cmd =
     bindM (tryM (create_runner C (Some cmd))) (\<lambda>config.
     seqM (serviceM (new_partial (service C) config)) (tryM (run_command C cmd)))"

definition run_on_config :: "('m, 'e) cli_env \<Rightarrow> subcommand \<Rightarrow> unit cli_action" where
  "run_on_config C cmd =
     bindM (tryM (create_runner C (Some cmd))) (\<lambda>_. tryM (run_command C cmd))"

definition run :: "('m, 'e) cli_env \<Rightarrow> subcommand option \<Rightarrow> unit cli_action" where
  "run C subcommand = (case subcommand of
       Some Key \<Rightarrow> tryM (run_command C Key)
     | Some BuildSpec \<Rightarrow> run_on_config C BuildSpec
     | Some CheckBlock \<Rightarrow> run_on_node C CheckBlock
     | Some ExportBlocks \<Rightarrow> run_on_node C ExportBlocks
     | Some ExportState \<Rightarrow> run_on_node C ExportState
     | Some ImportBlocks \<Rightarrow> run_on_node C ImportBlocks
     | Some PurgeChain \<Rightarrow> run_on_config C PurgeChain
     | Some Revert \<Rightarrow> run_on_node C Revert
     | Some (Benchmark cmd) \<Rightarrow>
         bindM (tryM (create_runner C (Some (Benchmark cmd)))) (\<lambda>config. run_benchmark C cmd config)
     | Some TryRuntime \<Rightarrow>
         (if try_runtime C then
            bindM (tryM (create_runner C (Some TryRuntime))) (\<lambda>_.
            seqM (tryM (try_runtime_task_manager C)) (tryM (run_command C TryRuntime)))
          else failM (Input (''TryRuntime wasn't enabled when building the node. '' @
            ''You can enable it with `--features try-runtime`.'')))
     | Some ChainInfo \<Rightarrow> run_on_config C ChainInfo
     | None \<Rightarrow>
         bindM (tryM (create_runner C None)) (\<lambda>config. serviceM (new_full (service C) config)))"

section \<open>What a running node has started\<close>

definition aura_settings :: "nat \<Rightarrow> node_config \<Rightarrow> aura_params" where
  "aura_settings d config = \<lparr>aura_slot_duration = d, aura_force_authoring = force_authoring config,
     proposal_slot_portion = (2, 3)\<rparr>"

definition grandpa_settings :: "node_config \<Rightarrow> grandpa_params" where
  "grandpa_settings config = \<lparr>gossip_duration_millis = 333, justification_period = 512,
     grandpa_name = node_name config, observer_enabled = False,
     has_keystore = is_authority config, local_authority = is_authority config\<rparr>"

definition node_effects :: "nat \<Rightarrow> node_config \<Rightarrow> service_effect list" where
  "node_effects d config =
     (if telemetry_wanted config then [TelemetryTask] else []) @ [GrandpaPeersSet] @
     (if offchain_worker_enabled config then [OffchainWorkers] else []) @ [NodeTasks] @
     (if is_authority config then [AuraTask (aura_settings d config)] else []) @
     (if disable_grandpa config then [] else [GrandpaVoter (grandpa_settings config)]) @
     [NetworkStarted]"

lemma success_new_partial:
  "new_partial N config s = Some (Inr u, s') \<longleftrightarrow>
     keystore_remote config = None \<and> (telemetry_wanted config \<longrightarrow> telemetry_worker N = Inr ()) \<and>
     new_full_parts N config = Inr () \<and> grandpa_block_import N = Inr () \<and>
     (\<exists>d. import_slot_duration N = Inr d \<and> import_queue N d = Inr ()) \<and>
     s' = s @ (if telemetry_wanted config then [TelemetryTask] else [])"
  unfolding new_partial_def by (auto simp: success)

lemma success_author_blocks [success]:
  "author_blocks N config s = Some (Inr u, s') \<longleftrightarrow>
     (if is_authority config
      then \<exists>d. aura_slot N = Inr d \<and> start_aura N (aura_settings d config) = Inr () \<and>
        s' = s @ [AuraTask (aura_settings d config)]
      else s' = s)"
  by (auto simp: author_blocks_def aura_settings_def success Let_def)

lemma success_vote [success]:
  "vote N config s = Some (Inr u, s') \<longleftrightarrow>
     (if disable_grandpa config then s' = s
      else run_grandpa_voter N (grandpa_settings config) = Inr () \<and>
        s' = s @ [GrandpaVoter (grandpa_settings config)])"
  by (auto simp: vote_def grandpa_settings_def success Let_def)

text \<open>\<^verbatim>\<open>new_full\<close> succeeds exactly when no remote keystore is configured and every part of Substrate
  it asks for can be built, and then the node runs exactly what its configuration says, the network
  last: block authoring if and only if it is an authority, a GRANDPA voter unless it is disabled
  (with a keystore only for an authority), offchain workers and telemetry as configured. (The second
  check of the remote keystore, in \<^verbatim>\<open>new_full\<close> itself, is never reached with one.)\<close>

theorem node_runs_what_is_configured:
  "new_full N config [] = Some (Inr (), effs) \<longleftrightarrow>
     keystore_remote config = None \<and> (telemetry_wanted config \<longrightarrow> telemetry_worker N = Inr ()) \<and>
     new_full_parts N config = Inr () \<and> grandpa_block_import N = Inr () \<and>
     (\<exists>d. import_slot_duration N = Inr d \<and> import_queue N d = Inr ()) \<and>
     genesis_hash N \<noteq> None \<and> build_network N config = Inr () \<and>
     spawn_tasks N config (rpc_extensions_builder N) = Inr () \<and>
     (\<exists>d. (is_authority config \<longrightarrow>
         aura_slot N = Inr d \<and> start_aura N (aura_settings d config) = Inr ()) \<and>
       (\<not> disable_grandpa config \<longrightarrow> run_grandpa_voter N (grandpa_settings config) = Inr ()) \<and>
       effs = node_effects d config)"
  unfolding new_full_def node_effects_def
  by (cases "keystore_remote config") (auto simp: success success_new_partial)

text \<open>The RPC module a running node can build, and how building it fails.\<close>

lemma rpc_of_a_node:
  assumes "rpc_new (rpc N) = Map.empty" "rpc_merge (rpc N) = merge_methods"
  shows "rpc_extensions_builder N deny =
    (if dom (rpc_system (rpc N) deny) \<inter> dom (rpc_transaction_payment (rpc N)) = {}
     then Inr (rpc_system (rpc N) deny ++ rpc_transaction_payment (rpc N))
     else Inl (into N ''AlreadyRegistered''))"
  by (simp add: rpc_extensions_builder_def node_serves_both_modules[OF assms])

definition healthy_node :: "(string \<rightharpoonup> unit, string) node_env" where
  "healthy_node = \<lparr>telemetry_worker = Inr (), new_full_parts = (\<lambda>_. Inr ()),
     grandpa_block_import = Inr (), import_slot_duration = Inr 6000, import_queue = (\<lambda>_. Inr ()),
     genesis_hash = Some [], build_network = (\<lambda>_. Inr ()),
     rpc = \<lparr>rpc_new = Map.empty, rpc_system = (\<lambda>_. Map.empty), rpc_transaction_payment = Map.empty,
       rpc_merge = merge_methods\<rparr>, into = Other, spawn_tasks = (\<lambda>_ _. Inr ()),
     aura_slot = Inr 6000, start_aura = (\<lambda>_. Inr ()), run_grandpa_voter = (\<lambda>_. Inr ())\<rparr>"

definition validator :: node_config where
  "validator = \<lparr>keystore_remote = None, telemetry_endpoints = None, is_authority = True,
     offchain_worker_enabled = True, force_authoring = False, disable_grandpa = False,
     node_name = ''alice''\<rparr>"

theorem node_runs_what_is_configured_witness:
  "new_full healthy_node validator [] = Some (Inr (),
     [GrandpaPeersSet, OffchainWorkers, NodeTasks, AuraTask (aura_settings 6000 validator),
      GrandpaVoter (grandpa_settings validator), NetworkStarted])"
  unfolding node_runs_what_is_configured
  by (simp add: healthy_node_def validator_def node_effects_def telemetry_wanted_def)

text \<open>Without the client of a node, and hence with a remote keystore, these subcommands run.\<close>

fun needs_no_client :: "subcommand option \<Rightarrow> bool" where
  "needs_no_client (Some (Benchmark cmd)) = (cmd = BenchPallet \<or> cmd = BenchMachine)"
| "needs_no_client (Some cmd) = (cmd \<in> {Key, BuildSpec, PurgeChain, TryRuntime, ChainInfo})"
| "needs_no_client None = False"

lemma run_with_remote_keystore:
  fixes C :: "('m, 'e) cli_env"
  assumes "create_runner C cmd = Inr config" "keystore_remote config \<noteq> None" "\<not> needs_no_client cmd"
  shows "run C cmd effs = Some (Inl (Service (Other ''Remote Keystores are not supported.'')), effs)"
proof -
  obtain url where "keystore_remote config = Some url" using assms(2) by blast
  then have "new_partial N config effs
      = Some (Inl (Other ''Remote Keystores are not supported.''), effs)" for N :: "('m, 'e) node_env"
    by (simp add: new_partial_def run_simps)
  moreover from this have
    "new_full N config effs = Some (Inl (Other ''Remote Keystores are not supported.''), effs)"
    for N :: "('m, 'e) node_env"
    by (simp add: new_full_def run_simps)
  ultimately show ?thesis
    using assms(1,3)
    by (cases cmd rule: needs_no_client.cases)
      (auto simp: run_def run_on_node_def run_benchmark_def serviceM_def run_simps
        split: benchmark_cmd.splits)
qed

section \<open>The era of a benchmark extrinsic\<close>

text \<open>\<^verbatim>\<open>u32::checked_next_power_of_two\<close>: the least power of two that is not less, if it fits.\<close>

definition checked_next_power_of_two :: "u32 \<Rightarrow> u32 option" where
  "checked_next_power_of_two w =
     map_option (\<lambda>i. push_bit i 1) (List.find (\<lambda>i. w \<le> push_bit i 1) [0..<32])"

text \<open>The period \<^verbatim>\<open>create_benchmark_extrinsic\<close> computes from \<^verbatim>\<open>BlockHashCount\<close>.\<close>

definition benchmark_era_period :: "64 word" where
  "benchmark_era_period = ucast (case checked_next_power_of_two BlockHashCount of
     Some c \<Rightarrow> c div 2 | None \<Rightarrow> 2)"

text \<open>It is a power of two below \<^verbatim>\<open>BlockHashCount\<close>, so the era's birth block is still known.\<close>

lemma benchmark_era: "benchmark_era_period = 2048" "benchmark_era_period \<le> ucast BlockHashCount"
  by code_simp+

section \<open>The extrinsic of the overhead benchmark\<close>

text \<open>
  The signed extensions that carry a value, in the order of \<^verbatim>\<open>SignedExtra\<close>, and what the seven of them
  add to the payload that is signed. The codec, the signatures and \<^verbatim>\<open>Era::mortal\<close> are Substrate's.
\<close>

record 'era signed_extra =
  check_era :: 'era
  check_nonce :: u32
  charge_tip :: balance

type_synonym 'h additional_signed = "u32 \<times> u32 \<times> 'h \<times> 'h \<times> unit \<times> unit \<times> unit"

record ('c, 'era, 'h) signed_payload =
  payload_call :: 'c
  payload_extra :: "'era signed_extra"
  payload_additional :: "'h additional_signed"

record ('c, 'era, 'k, 'sig) unchecked_extrinsic =
  xt_call :: 'c
  xt_signer :: 'k
  xt_signature :: 'sig
  xt_extra :: "'era signed_extra"

record ('c, 'era, 'h, 'k, 'pair, 'sig) xt_env =
  mortal :: "64 word \<Rightarrow> 64 word \<Rightarrow> 'era"
  using_encoded :: "('c, 'era, 'h) signed_payload \<Rightarrow> bytes"
  sign :: "'pair \<Rightarrow> bytes \<Rightarrow> 'sig"
  public_key :: "'pair \<Rightarrow> 'k"

text \<open>The client: its hash of block 0, and its best block.\<close>

record 'h chain_client =
  block_hash_0 :: "'h option"
  best_hash :: 'h
  best_number :: block_number

definition create_benchmark_extrinsic ::
  "('c, 'era, 'h, 'k, 'pair, 'sig) xt_env \<Rightarrow> 'h chain_client \<Rightarrow> 'pair \<Rightarrow> 'c \<Rightarrow> u32 \<Rightarrow>
    service_error + ('c, 'era, 'k, 'sig) unchecked_extrinsic" where
  "create_benchmark_extrinsic X client sender call nonce = (case block_hash_0 client of
       None \<Rightarrow> Inl ServicePanic
     | Some genesis \<Rightarrow>
         let extra = \<lparr>check_era = mortal X benchmark_era_period (ucast (best_number client)),
               check_nonce = nonce, charge_tip = 0\<rparr>;
             raw_payload = \<lparr>payload_call = call, payload_extra = extra,
               payload_additional = (spec_version VERSION, transaction_version VERSION,
                 genesis, best_hash client, (), (), ())\<rparr>;
             signature = sign X sender (using_encoded X raw_payload)
         in Inr \<lparr>xt_call = call, xt_signer = public_key X sender, xt_signature = signature,
              xt_extra = extra\<rparr>)"

text \<open>\<^verbatim>\<open>remark\<close>: Bob signs an empty remark.\<close>

definition benchmark_remark ::
  "('c, 'era, 'h, 'k, 'pair, 'sig) xt_env \<Rightarrow> 'h chain_client \<Rightarrow> 'pair \<Rightarrow> (bytes \<Rightarrow> 'c) \<Rightarrow> u32 \<Rightarrow>
    service_error + ('c, 'era, 'k, 'sig) unchecked_extrinsic" where
  "benchmark_remark X client bob system_remark nonce =
     create_benchmark_extrinsic X client bob (system_remark []) nonce"

text \<open>
  What a verifier checks: the signature over the payload that the versions of the runtime, the hash
  of its genesis and the hash of the block the era began in give.
\<close>

definition xt_payload ::
  "('c, 'era, 'k, 'sig) unchecked_extrinsic \<Rightarrow> runtime_version \<Rightarrow> 'h \<Rightarrow> 'h \<Rightarrow> ('c, 'era, 'h) signed_payload" where
  "xt_payload xt version genesis birth_hash = \<lparr>payload_call = xt_call xt, payload_extra = xt_extra xt,
     payload_additional =
       (spec_version version, transaction_version version, genesis, birth_hash, (), (), ())\<rparr>"

lemma benchmark_extrinsic_verifies:
  assumes verify: "\<And>pair b. verify (public_key X pair) b (sign X pair b)"
    and genesis: "block_hash_0 client = Some genesis"
  shows "\<exists>xt. benchmark_remark X client bob system_remark nonce = Inr xt \<and>
    xt_call xt = system_remark [] \<and> check_nonce (xt_extra xt) = nonce \<and> charge_tip (xt_extra xt) = 0 \<and>
    verify (xt_signer xt)
      (using_encoded X (xt_payload xt VERSION genesis (best_hash client))) (xt_signature xt)"
  using assms by (simp add: benchmark_remark_def create_benchmark_extrinsic_def xt_payload_def Let_def)

end
