(* ===== verification/Mocks.thy ===== *)
theory Mocks
  imports Configuration Sample_Env Market_Effects
begin

text \<open>
  The test runtimes of the pallets (\<^verbatim>\<open>mock.rs\<close> of rmrk-core, rmrk-equip, rmrk-market and the
  template): what they configure differently from the runtime, the accounts their tests start
  with, and some of the tests, run on the model with the sample ledger.
\<close>

section \<open>What the test runtimes share\<close>

definition RMRK :: balance where "RMRK = 1"

definition core_mock_system :: "'c system_config" where
  "core_mock_system = \<lparr>sys_base_call_filter = (\<lambda>_. True), sys_index_bits = 64,
     sys_block_number_bits = 64, sys_hash_bits = 256, sys_ss58_prefix = None,
     sys_block_hash_count = 250, sys_max_consumers = 2\<rparr>"

definition equip_mock_system :: "'c system_config" where
  "equip_mock_system = \<lparr>sys_base_call_filter = (\<lambda>_. True), sys_index_bits = 64,
     sys_block_number_bits = 64, sys_hash_bits = 256, sys_ss58_prefix = None,
     sys_block_hash_count = 250, sys_max_consumers = 2\<rparr>"

definition market_mock_system :: "'c system_config" where
  "market_mock_system = \<lparr>sys_base_call_filter = (\<lambda>_. True), sys_index_bits = 64,
     sys_block_number_bits = 64, sys_hash_bits = 256, sys_ss58_prefix = None,
     sys_block_hash_count = 250, sys_max_consumers = 2\<rparr>"

definition template_mock_system :: "'c system_config" where
  "template_mock_system = \<lparr>sys_base_call_filter = (\<lambda>_. True), sys_index_bits = 64,
     sys_block_number_bits = 64, sys_hash_bits = 256, sys_ss58_prefix = Some 42,
     sys_block_hash_count = 250, sys_max_consumers = 2\<rparr>"

definition core_mock_balances :: balances_config where
  "core_mock_balances = \<lparr>bal_max_locks = 0, bal_max_reserves = 50, bal_existential_deposit = 1\<rparr>"

definition equip_mock_balances :: balances_config where
  "equip_mock_balances = \<lparr>bal_max_locks = 0, bal_max_reserves = 50, bal_existential_deposit = 1\<rparr>"

definition market_mock_balances :: balances_config where
  "market_mock_balances = \<lparr>bal_max_locks = 0, bal_max_reserves = 50, bal_existential_deposit = 1\<rparr>"

definition core_mock_uniques :: uniques_config where
  "core_mock_uniques = \<lparr>uq_collection_deposit = 10000 * RMRK, uq_item_deposit = 100 * RMRK,
     uq_metadata_deposit = 1000 * RMRK, uq_attribute_deposit = 100 * RMRK,
     uq_deposit_per_byte = 10 * RMRK, uq_string_limit = 32, uq_key_limit = 32, uq_value_limit = 64\<rparr>"

definition equip_mock_uniques :: uniques_config where
  "equip_mock_uniques = \<lparr>uq_collection_deposit = 10000 * RMRK, uq_item_deposit = 100 * RMRK,
     uq_metadata_deposit = 1000 * RMRK, uq_attribute_deposit = 100 * RMRK,
     uq_deposit_per_byte = 10 * RMRK, uq_string_limit = 32, uq_key_limit = 32, uq_value_limit = 64\<rparr>"

definition market_mock_uniques :: uniques_config where
  "market_mock_uniques = \<lparr>uq_collection_deposit = 10000 * RMRK, uq_item_deposit = 100 * RMRK,
     uq_metadata_deposit = 1000 * RMRK, uq_attribute_deposit = 100 * RMRK,
     uq_deposit_per_byte = 10 * RMRK, uq_string_limit = 32, uq_key_limit = 32, uq_value_limit = 64\<rparr>"

text \<open>Three copies of one configuration.\<close>

lemma mocks_agree:
  "equip_mock_system = core_mock_system" "market_mock_system = core_mock_system"
  "equip_mock_balances = core_mock_balances" "market_mock_balances = core_mock_balances"
  "equip_mock_uniques = core_mock_uniques" "market_mock_uniques = core_mock_uniques"
  by (simp_all add: equip_mock_system_def core_mock_system_def market_mock_system_def
      equip_mock_balances_def core_mock_balances_def market_mock_balances_def
      equip_mock_uniques_def core_mock_uniques_def market_mock_uniques_def)

definition ALICE :: account32 where "ALICE = Account (replicate 32 1)"
definition BOB :: account32 where "BOB = Account (replicate 32 2)"
definition CHARLIE :: account32 where "CHARLIE = Account (replicate 32 3)"

lemma mock_accounts [simp]: "ALICE = alice" "BOB = bob" "CHARLIE = charlie"
  by (simp_all add: ALICE_def BOB_def CHARLIE_def alice_def bob_def charlie_def)

section \<open>What each test runtime configures\<close>

definition core_mock_core :: core_config where
  "core_mock_core = \<lparr>core_max_recursions = 4, core_resource_symbol_limit = 10,
     core_parts_limit = 50, core_max_priorities = 3, core_collection_symbol_limit = 100,
     core_max_resources_on_mint = 3\<rparr>"

definition equip_mock_core :: core_config where
  "equip_mock_core = \<lparr>core_max_recursions = 10, core_resource_symbol_limit = 10,
     core_parts_limit = 10, core_max_priorities = 3, core_collection_symbol_limit = 100,
     core_max_resources_on_mint = 3\<rparr>"

definition equip_mock_equip :: equip_config where
  "equip_mock_equip = \<lparr>equip_max_properties = 5, equip_max_collections = 10\<rparr>"

definition market_mock_core :: core_config where
  "market_mock_core = \<lparr>core_max_recursions = 10, core_resource_symbol_limit = 10,
     core_parts_limit = 10, core_max_priorities = 3, core_collection_symbol_limit = 100,
     core_max_resources_on_mint = 3\<rparr>"

definition mock_UNITS :: balance where "mock_UNITS = 100000000000"

definition market_mock_market :: market_config where
  "market_mock_market = \<lparr>market_minimum_offer = 50 * mock_UNITS\<rparr>"

section \<open>The accounts the tests start with\<close>

definition ExtBuilder_build :: "(account32 \<times> balance) list" where
  "ExtBuilder_build = [(ALICE, 20000000 * RMRK), (BOB, 15000 * RMRK), (CHARLIE, 150000 * RMRK)]"

definition equip_ExtBuilder_build :: "(account32 \<times> balance) list" where
  "equip_ExtBuilder_build =
     [(ALICE, 20000000 * RMRK), (BOB, 15000 * RMRK), (CHARLIE, 150000 * RMRK)]"

definition new_test_ext :: "(account32 \<times> balance) list" where
  "new_test_ext = [(ALICE, 100000 * mock_UNITS), (BOB, 200000 * mock_UNITS),
     (CHARLIE, 300000 * mock_UNITS)]"

text \<open>The ledger of these balances at block 1.\<close>

definition test_ledger :: "(account32 \<times> balance) list \<Rightarrow> ledger" where
  "test_ledger balances = \<lparr>items = Map.empty, collection_owner = Map.empty,
     free = (\<lambda>a. case map_of balances a of None \<Rightarrow> 0 | Some v \<Rightarrow> unat v),
     reserved = (\<lambda>_. 0), now = 1\<rparr>"

text \<open>They accept the assertions of \<^verbatim>\<open>pallet_balances\<close>, and everybody can pay a collection's deposit.\<close>

lemma mock_endowments:
  assumes "balances \<in> {ExtBuilder_build, equip_ExtBuilder_build, new_test_ext}"
  shows "distinct (List.map fst balances)"
    "(a, v) \<in> set balances \<Longrightarrow> bal_existential_deposit core_mock_balances \<le> v \<and>
      uq_collection_deposit core_mock_uniques \<le> v"
    "(\<Sum>(a, v) \<leftarrow> balances. unat v) < 2 ^ 128"
  using assms
  by (auto simp: ExtBuilder_build_def equip_ExtBuilder_build_def new_test_ext_def RMRK_def mock_UNITS_def
      core_mock_balances_def core_mock_uniques_def)

text \<open>Unlike the runtime, the test runtimes let direct calls of \<^verbatim>\<open>pallet_uniques\<close> through.\<close>

lemma mock_filter:
  "sys_base_call_filter core_mock_system (Uniques u)"
  "sys_base_call_filter runtime_system (Uniques u) \<longleftrightarrow> (\<exists>i. u = OtherUniquesCall i)"
  by (auto simp: core_mock_system_def runtime_system_def base_filter_def split: uniques_call.split)

section \<open>Some of the tests\<close>

text \<open>The shortcuts of the tests of rmrk-market (the royalty is a number of parts per million).\<close>

definition basic_collection :: "(account32, account32, ledger) env \<Rightarrow>
    (account32, ledger, 'z, unit) core_action" where
  "basic_collection E = create_collection E (Signed ALICE) (replicate 20 0) (Some 5) (replicate 15 0)"

definition basic_mint :: "(account32, account32, ledger) env \<Rightarrow> permill \<Rightarrow>
    (account32, ledger, 'z, unit) core_action" where
  "basic_mint E roy = mint_nft E (Signed ALICE) (Some ALICE) 0 (Some ALICE) (Some roy)
     (replicate 20 0) True None"

definition market_test_env :: "(account32, account32, ledger) env" where
  "market_test_env =
     configured market_mock_core runtime_equip market_mock_market market_mock_uniques sample"

lemma market_test_env_simps [simp]:
  "uq_owner market_test_env = items" "uq_collection_owner market_test_env = collection_owner"
  "uq_do_mint market_test_env = sample_mint" "uq_do_transfer market_test_env = sample_transfer"
  "uq_do_create_collection market_test_env = sample_create"
  "cur_transfer market_test_env = sample_pay" "block_now market_test_env = now"
  "dec_account market_test_env = read_account" "dec_u32 market_test_env = unle_u32"
  by (simp_all add: market_test_env_def configured_def)

lemma decode_market_test [simp]:
  "decode_nft_account_id market_test_env a = decode_nft_account_id sample a"
  by (simp add: decode_nft_account_id_def market_test_env_def configured_def cong: option.case_cong)

text \<open>The first lines of every test of rmrk-market: a collection and an NFT of Alice.\<close>

lemma market_test_start:
  "\<exists>s1 s. basic_collection market_test_env (genesis_storage (test_ledger new_test_ext))
      = Some (Inr (), s1) \<and>
     basic_mint market_test_env roy s1 = Some (Inr (), s) \<and>
     map_option nfts_count (collections s 0) = Some 1 \<and>
     ext s = (test_ledger new_test_ext)\<lparr>items := [(0, 0) \<mapsto> alice], collection_owner := [0 \<mapsto> alice]\<rparr> \<and>
     (\<exists>nft. nfts s (0, 0) = Some nft \<and> transferable nft \<and> \<not> equipped nft) \<and>
     listed_nfts s = Map.empty \<and> (\<forall>k. \<not> lock s k)"
  by (auto simp: basic_collection_def basic_mint_def create_collection_def mint_nft_def success
      genesis_storage_def sample_create_def sample_mint_def add_mint_resources_def Let_def
      test_ledger_def)

text \<open>\<^verbatim>\<open>buy_works\<close>: the owner cannot buy, a wrong price is refused, the right one buys.\<close>

lemma buy_works:
  assumes s: "ext s = (test_ledger new_test_ext)\<lparr>items := [(0, 0) \<mapsto> alice], collection_owner := [0 \<mapsto> alice]\<rparr>"
    "nfts s (0, 0) = Some nft" "transferable nft" "\<not> equipped nft" "listed_nfts s = Map.empty"
    "\<forall>k. \<not> lock s k"
    and listed: "list_nft market_test_env (Signed ALICE) (0, 0) 10 None s = Some (Inr (), s1)"
  shows "last (events s1) = MarketEvent (TokenListed ALICE 0 0 10) \<and>
    buy market_test_env (Signed ALICE) (0, 0) (Some 10) s1
      = Some (Inl (MarketError CannotBuyOwnToken), s1) \<and>
    buy market_test_env (Signed BOB) (0, 0) (Some 9) s1
      = Some (Inl (MarketError PriceDiffersFromExpected), s1) \<and>
    (\<exists>s2. buy market_test_env (Signed BOB) (0, 0) (Some 10) s1 = Some (Inr (), s2) \<and>
      last (events s2) = MarketEvent (TokenSold ALICE BOB 0 0 10) \<and>
      uq_owner market_test_env (ext s2) (0, 0) = Some BOB)"
proof -
  have s1: "s1 = s\<lparr>lock := (lock s)((0, 0) := True),
      listed_nfts := [(0, 0) \<mapsto> \<lparr>listed_by = alice, list_amount = 10, list_expires = None\<rparr>],
      events := events s @ [MarketEvent (TokenListed alice 0 0 10)]\<rparr>"
    using listed s(5) by (auto simp: success_list_nft)
  have "lookup_root_owner market_test_env (x\<lparr>free := f\<rparr>) (0, 0) = Some (Inr (alice, (0, 0)))"
    if "items x (0, 0) = Some alice" for x f
    using that by (simp add: lookup_step)
  then show ?thesis
    using s
    by (auto simp: s1 buy_def do_buy_def run_simps uniques_ownerM_def listing_price_def
      send_def nft_send_def uniques_transfer_def sample_transfer_def sample_pay_def is_locked_def
      root_ownerM_def send_target_def store_sent_def check_is_transferable_def check_is_not_equipped_def
      test_ledger_def new_test_ext_def mock_UNITS_def move_child_def)
qed

end
