(* ===== verification/Spec2Isabelle.thy ===== *)
theory Spec2Isabelle
  imports Log_Props Access_Props Resource_Props Equip_Props Nft_Props Node Mocks
begin

text \<open>
  A model of the RMRK pallets and of the runtime that composes them, with the theorems that make
  them correct.

  \<^bold>\<open>The program.\<close> The repository is a Substrate chain. \<^verbatim>\<open>pallets/rmrk-core\<close> keeps collections, NFTs
  that can be nested in each other, their resources, priorities and properties;
  \<^verbatim>\<open>pallets/rmrk-equip\<close> keeps bases of parts, and the slots of a base into which an NFT equips the
  resources of its children; \<^verbatim>\<open>pallets/rmrk-market\<close> lists NFTs for sale and takes offers;
  \<^verbatim>\<open>pallets/template\<close> is the sample pallet of Substrate. rmrk-equip and rmrk-market read and write
  the storage of rmrk-core. The items themselves live in \<^verbatim>\<open>pallet_uniques\<close>: an NFT nested in
  another one is owned there by the virtual account of the other, an account identifier made from
  its two identifiers. \<^verbatim>\<open>runtime/src\<close> configures the pallets and filters calls; \<^verbatim>\<open>node/src\<close> builds
  the genesis and runs a node.

  \<^bold>\<open>Effects.\<close> An action is a function from the storage to \<open>None\<close> (it does not return) or to an
  error or a result together with the storage it leaves (\<open>Prelude\<close>). \<open>transactionalM\<close> is the
  attribute \<^verbatim>\<open>#[transactional]\<close>: it rolls the storage back on an error. A panic is an error value
  of its own, and every \<^verbatim>\<open>unwrap\<close> and \<^verbatim>\<open>expect\<close> a branch to it behind the guard that precedes it.
  The storage is one record that grows with the pallets: \<open>frame\<close> (the storage of the external
  pallets, the events), \<open>core_state\<close>, \<open>equip_state\<close>, \<open>market_state\<close>, \<open>runtime_state\<close>; an operation is
  generic in what extends its part. Storage maps are partial functions, \<^verbatim>\<open>Children\<close>
  and \<^verbatim>\<open>Themes\<close> lists per prefix. Machine integers are words of their width, \<^verbatim>\<open>checked_add\<close> and
  \<^verbatim>\<open>saturating_sub\<close> as in Rust. An NFT is the pair of its collection and NFT identifiers.

  \<^bold>\<open>Theories that model code.\<close>
  \<^item> \<open>Types\<close>: the structs and enums of \<^verbatim>\<open>traits/src\<close>, of \<^verbatim>\<open>types.rs\<close> of the pallets, the error and
    event enums, the origin.
  \<^item> \<open>External\<close>: the code outside the repository as one record of functions \<open>env\<close> (the SCALE codec,
    \<^verbatim>\<open>pallet_uniques\<close>, the \<^verbatim>\<open>Currency\<close>, the block number, the account lookup, the iteration order of
    a storage prefix, the constants of the \<^verbatim>\<open>Config\<close> traits), and its documented behaviour as named
    laws, which the properties that rely on them have as hypotheses.
  \<^item> \<open>Accounts\<close>, \<open>Ownership\<close>: \<^verbatim>\<open>nft_to_account_id\<close>, \<^verbatim>\<open>decode_nft_account_id\<close>, \<^verbatim>\<open>lookup_root_owner\<close> and
    \<^verbatim>\<open>is_x_descendent_of_y\<close> of \<^verbatim>\<open>rmrk-core/src/functions.rs\<close>. The two walks are recursions without a
    bound in the code, so they are \<open>partial_function (option)\<close> here, and that they return is
    proved where it holds.
  \<^item> \<open>Core_Storage\<close>, \<open>Collections\<close>, \<open>Nfts\<close>, \<open>Resources\<close>: the storage items and counters of
    rmrk-core and the trait implementations of \<^verbatim>\<open>functions.rs\<close>. The recursion of \<^verbatim>\<open>nft_burn\<close> is on
    its argument \<^verbatim>\<open>max_recursions\<close>, a 32-bit number every level lowers: \<open>nft_burn_rec\<close> recurses on
    that number, no fuel of the model is involved.
  \<^item> \<open>Core_Calls\<close>: the dispatchable functions of \<^verbatim>\<open>rmrk-core/src/lib.rs\<close> and \<open>core_dispatch\<close>, the
    call enum the macro generates.
  \<^item> \<open>Equip\<close>: \<^verbatim>\<open>rmrk-equip\<close>; \<open>Market\<close>: \<^verbatim>\<open>rmrk-market\<close>; \<open>Template\<close>: \<^verbatim>\<open>pallets/template\<close>.
  \<^item> \<open>Runtime\<close>: the constants of \<^verbatim>\<open>runtime/src\<close>, \<^verbatim>\<open>BaseFilter\<close>, the dispatch of a call to its pallet,
    and \<open>runtime_step\<close>: a call that returned, or a change of the external storage by the rest of
    the chain, restricted by a relation \<open>F\<close>.
  \<^item> \<open>Configuration\<close>: the values the \<^verbatim>\<open>Config\<close> implementations of \<^verbatim>\<open>runtime/src/lib.rs\<close> set, one
    record per pallet, the pallets and the version; the environment and the limits that follow
    from them.
  \<^item> \<open>Genesis\<close>: \<^verbatim>\<open>node/src/chain_spec.rs\<close>, \<^verbatim>\<open>load_spec\<close> of \<^verbatim>\<open>node/src/command.rs\<close>, the first storage.
  \<^item> \<open>Node\<close>: \<^verbatim>\<open>service.rs\<close>, \<^verbatim>\<open>command.rs\<close>, \<^verbatim>\<open>cli.rs\<close>, \<^verbatim>\<open>rpc.rs\<close> and \<^verbatim>\<open>command_helper.rs\<close> of \<^verbatim>\<open>node/src\<close>:
    which parts of a node are started, with which settings, under which configuration, and what a
    benchmark signs. What Substrate does when it is asked is an argument that may fail.
  \<^item> \<open>Mocks\<close>: the test runtimes (\<^verbatim>\<open>mock.rs\<close>) of the pallets, and a test of rmrk-market run on the
    model.
  \<^item> \<open>Limits\<close>: the bounds of the \<^verbatim>\<open>BoundedVec\<close> types with the runtime's constants, as predicates on
    calls and on the storage.

  \<^bold>\<open>Interfaces.\<close> \<open>Prelude\<close> states \<open>id_allocator\<close> (a 32-bit counter that hands out identifiers;
  interpreted on the five counters), \<open>atomic_calls\<close> (a failing call leaves no trace; interpreted
  on the four pallets) and \<open>step_invariant\<close> (an invariant of a step relation; interpreted in
  \<open>Chain\<close>, \<open>Chain_History\<close>, \<open>Census\<close>, \<open>Escrow\<close>, \<open>Items\<close>, \<open>Sale_Lock\<close>, \<open>Event_Log\<close>, \<open>Limits\<close> and
  \<open>Progress\<close>).
  \<open>Ownership\<close> states \<open>ownership_walk\<close>, what a client of \<^verbatim>\<open>lookup_root_owner\<close> relies on.

  \<^bold>\<open>Groups of lemmas.\<close>
  \<^item> The collection \<open>success\<close> inverts a successful run into the conditions the code checked and the
    storages in between, \<open>run_simps\<close> runs forward; \<open>keeps\<close>, \<open>clean\<close>, \<open>calm\<close> and \<open>goes\<close> are
    properties of actions that follow their structure (what they keep, that an error leaves the
    storage alone, that they do not panic, that they return), each with a collection of rules for
    one \<open>intro\<close>.
  \<^item> \<open>Core_Effects\<close>, \<open>Market_Effects\<close>: what a successful call does, as a relation with one rule per
    kind of change of owners (\<open>owner_change\<close>) or of the market (\<open>market_change\<close>). \<open>Burn_Effect\<close>:
    the set of records a burn removes. \<open>Burn_Limit\<close>: the depth of nesting a limit allows it.
  \<^item> \<open>Chain\<close>: invariants of the storage (identifiers below their counters, counts below maxima,
    resources and parts under their own identifiers, offers under their makers). \<open>Census\<close>: a
    collection never counts more NFTs than it has. \<open>Chain_History\<close>:
    facts that stay true for ever (identifiers handed out, closed collections, the immutable part
    of a record).
  \<^item> \<open>Escrow\<close>: offers are covered by reserved balances. \<open>Items\<close>: every record has an item
    (\<open>itemised\<close>) and a collection (\<open>housed\<close>); the latter needs that a collection without items has
    no NFTs, which is what \<^verbatim>\<open>pallet_uniques\<close> checks when it destroys a collection (\<open>witness_law\<close>).
    \<open>Sale_Lock\<close>: a locked NFT is listed by its owner, as long as nobody outside the pallets hands
    items over (\<open>no_foreign_owners\<close>).
  \<^item> \<open>Event_Log\<close>: \<open>call_log\<close>, the events of a successful call computed from its arguments and the
    storage before it, and \<open>replay\<close>, an indexer that rebuilds part of the storage from them
    (\<open>digest\<close>). The set of NFTs is no part of it: \<^verbatim>\<open>NFTBurned\<close> names no collection, and the NFTs
    burned below another one are not announced at all. \<open>Money\<close>: what a call of the market does to
    the free and reserved balances together.
  \<^item> \<open>Desk\<close>: an abstract specification, a trading desk that knows who holds each NFT, what is held
    back, asked and bid, with one rule per step and the account that may take it; every call of
    the runtime is such a step or none.
  \<^item> \<open>Policy\<close>: the entries of the pallets' storage, which together are the whole of it
    (\<open>entries_are_the_storage\<close>), and the policy \<open>may_change\<close>, which account may change which entry.
    \<open>Access_Indexes\<close> and \<open>Access\<close>: every call of every pallet follows it, the former for the indexes
    and counters of rmrk-core.
  \<^item> \<open>Panics\<close>, \<open>Progress\<close>: no call panics; every call returns where all chains of owners end, and
    the calls that hand NFTs to ordinary accounts keep it so.
  \<^item> \<open>Ownership_Props\<close>, \<open>Nft_Props\<close>, \<open>Resource_Props\<close>, \<open>Equip_Props\<close>, \<open>Market_Props\<close>,
    \<open>Chain_Props\<close>, \<open>Runtime_Props\<close>, \<open>Log_Props\<close>, \<open>Access_Props\<close>: the properties, each with a witness that runs the
    code on a concrete storage of \<open>Sample_Env\<close>, where every law of the external code is proved of
    one concrete environment.

  \<^bold>\<open>What the theorems show.\<close> The four pallets refine the desk; no NFT leaves its owner without the
  consent of its root owner or a sale at the owner's ask; the market never owes more than it
  reserved and moves money by sales only; a locked NFT can always be unlisted; the event log
  announces each successful call and rebuilds what it announces; every entry of the pallets'
  storage is changed only by an account the policy allows it; no call panics, and none hangs
  under the stated condition; storage stays consistent and within its bounds; identifiers are
  never reused and locked collections never grow; and for each operation, what it checks and what
  it changes. Several theorems state behaviour that is surprising: a lookup that never returns
  after an NFT was sent to the account of its own identifiers, \<^verbatim>\<open>accept_nft\<close> moving soulbound NFTs,
  records and items that part in \<^verbatim>\<open>reject_nft\<close> and \<^verbatim>\<open>burn_nft\<close>, NFTs destroyed with an NFT they
  left, slots that a call naming any NFT without a record empties, a listing that outlives an accepted offer, offers on burned NFTs
  that cannot be withdrawn.

  \<^bold>\<open>Not modelled.\<close> The FRAME pallets, \<^verbatim>\<open>pallet_uniques\<close>, the codec and the currency are arguments of
  the model. Weights and fees have no effect on the storage. The SCALE decoding of calls is
  represented only by the bounds of \<open>Limits\<close>. The runtime APIs of \<^verbatim>\<open>runtime/src/lib.rs\<close> only
  forward to Substrate, the types its configuration names choose implementations of Substrate, and
  \<^verbatim>\<open>EPOCH_DURATION_IN_SLOTS\<close> is a floating-point constant. The texts the command line prints about
  itself, \<^verbatim>\<open>main.rs\<close> and the build scripts have nothing to decide. \<^verbatim>\<open>tests.rs\<close> and \<^verbatim>\<open>benchmarking.rs\<close>
  are test code, of which \<open>Mocks\<close> holds one test. Key derivation in \<^verbatim>\<open>chain_spec.rs\<close> is an argument
  of the definitions.
\<close>

end
